(* ===== verification/Prelude.thy ===== *)
theory Prelude imports
  Main
  "HOL-Library.Word"
  "HOL-Library.AList"
begin

text \<open>
  Shared vocabulary of the development: machine integers, Rust's result and error values,
  the state-and-error operations that model \<^verbatim>\<open>async fn ... -> anyhow::Result\<close>, hash maps in
  iteration order, and decimal formatting. Every component theory imports this one.
\<close>

section \<open>Types\<close>

type_synonym u8 = "8 word"
type_synonym u32 = "32 word"

text \<open>
  Rust strings are UTF-8 byte sequences; a \<open>char\<close> of HOL is one byte. An \<open>anyhow::Error\<close> is
  a message wrapped by zero or more contexts, and its \<open>Display\<close> prints the outermost one.
  A computation may also panic; a panic unwinds the task and is never turned into a value.
\<close>

datatype anyhow = Msg string | Context string anyhow

fun anyhow_to_string :: "anyhow \<Rightarrow> string" where
  "anyhow_to_string (Msg m) = m"
| "anyhow_to_string (Context c e) = c"

datatype fault = Bail anyhow | Panic

type_synonym 'a result = "fault + 'a"

named_theorems io_simps "unfolding rules for the state-and-error operations"
named_theorems rust_str "evaluation rules for the string operations"

section \<open>Results\<close>

definition rbind :: "'e + 'a \<Rightarrow> ('a \<Rightarrow> 'e + 'b) \<Rightarrow> 'e + 'b" where
  "rbind r f = (case r of Inl e \<Rightarrow> Inl e | Inr x \<Rightarrow> f x)"

definition map_err :: "('e \<Rightarrow> 'f) \<Rightarrow> 'e + 'a \<Rightarrow> 'f + 'a" where
  "map_err g r = (case r of Inl e \<Rightarrow> Inl (g e) | Inr x \<Rightarrow> Inr x)"

text \<open>\<open>.context(c)\<close> and \<open>.with_context(|| c)\<close> of \<open>anyhow\<close>; a panic passes through.\<close>

definition with_context :: "string \<Rightarrow> fault \<Rightarrow> fault" where
  "with_context c f = (case f of Bail e \<Rightarrow> Bail (Context c e) | Panic \<Rightarrow> Panic)"

lemma rbind_simps [simp]:
  "rbind (Inl e) f = Inl e"
  "rbind (Inr x) f = f x"
  by (simp_all add: rbind_def)

lemma rbind_eq_Inr [simp]:
  "rbind r f = Inr y \<longleftrightarrow> (\<exists>x. r = Inr x \<and> f x = Inr y)"
  by (cases r) (auto simp: rbind_def)

lemma rbind_eq_Inl:
  "rbind r f = Inl e \<longleftrightarrow> r = Inl e \<or> (\<exists>x. r = Inr x \<and> f x = Inl e)"
  by (cases r) (auto simp: rbind_def)

lemma map_err_simps [simp]:
  "map_err g (Inl e) = Inl (g e)"
  "map_err g (Inr x) = Inr x"
  by (simp_all add: map_err_def)

lemma map_err_eq_Inr [simp]: "map_err g r = Inr x \<longleftrightarrow> r = Inr x"
  by (cases r) auto

lemma map_err_eq_Inl [simp]: "map_err g r = Inl e \<longleftrightarrow> (\<exists>e'. r = Inl e' \<and> e = g e')"
  by (cases r) auto

lemma with_context_simps [simp]:
  "with_context c (Bail e) = Bail (Context c e)"
  "with_context c Panic = Panic"
  by (simp_all add: with_context_def)

section \<open>State and error\<close>

text \<open>
  An operation on a state that returns a value or an error; most of the program's errors are
  \<open>fault\<close>s, the certificate authority has an error type of its own.
\<close>

type_synonym ('s, 'e, 'a) eio = "'s \<Rightarrow> 's \<times> ('e + 'a)"
type_synonym ('s, 'a) io = "('s, fault, 'a) eio"

definition io_ok :: "'a \<Rightarrow> ('s, 'e, 'a) eio" where
  "io_ok x s = (s, Inr x)"

definition io_fail :: "'e \<Rightarrow> ('s, 'e, 'a) eio" where
  "io_fail e s = (s, Inl e)"

definition io_lift :: "'e + 'a \<Rightarrow> ('s, 'e, 'a) eio" where
  "io_lift r s = (s, r)"

definition io_bind ::
  "('s, 'e, 'a) eio \<Rightarrow> ('a \<Rightarrow> ('s, 'e, 'b) eio) \<Rightarrow> ('s, 'e, 'b) eio" where
  "io_bind m f s = (case m s of (s', Inl e) \<Rightarrow> (s', Inl e) | (s', Inr x) \<Rightarrow> f x s')"

definition io_map_err :: "('e \<Rightarrow> 'f) \<Rightarrow> ('s, 'e, 'a) eio \<Rightarrow> ('s, 'f, 'a) eio" where
  "io_map_err g m s = (case m s of (s', r) \<Rightarrow> (s', map_err g r))"

text \<open>\<open>let _ = m;\<close> runs an operation and ignores its result.\<close>

definition io_ignore :: "('s, 'e, 'a) eio \<Rightarrow> ('s, 'f, unit) eio" where
  "io_ignore m s = (fst (m s), Inr ())"

definition io_context :: "string \<Rightarrow> ('s, 'a) io \<Rightarrow> ('s, 'a) io" where
  "io_context c m s = (case m s of (s', r) \<Rightarrow> (s', map_err (with_context c) r))"

lemma io_unit_simps [io_simps]:
  "io_ok x s = (s, Inr x)"
  "io_fail e s = (s, Inl e)"
  "io_lift r s = (s, r)"
  by (simp_all add: io_ok_def io_fail_def io_lift_def)

lemma io_bind_step:
  "m s = (s', Inr x) \<Longrightarrow> io_bind m f s = f x s'"
  "m s = (s', Inl e) \<Longrightarrow> io_bind m f s = (s', Inl e)"
  by (simp_all add: io_bind_def)

lemma io_bind_eq_Inr:
  "io_bind m f s = (t, Inr y) \<longleftrightarrow> (\<exists>s' x. m s = (s', Inr x) \<and> f x s' = (t, Inr y))"
  by (auto simp: io_bind_def split: prod.splits sum.splits)

lemma io_bind_cases:
  "io_bind m f s = (t, r) \<longleftrightarrow>
    (\<exists>e. m s = (t, Inl e) \<and> r = Inl e) \<or> (\<exists>s' x. m s = (s', Inr x) \<and> f x s' = (t, r))"
  by (auto simp: io_bind_def split: prod.splits sum.splits)

lemma io_bind_ok [simp]: "io_bind (io_ok x) f = f x"
  by (simp add: fun_eq_iff io_bind_def io_ok_def)

lemma io_bind_lift [simp]:
  "io_bind (io_lift (Inr x)) f = f x"
  "io_bind (io_lift (Inl e)) f = io_fail e"
  "io_bind (io_fail e) f = io_fail e"
  by (simp_all add: fun_eq_iff io_bind_def io_lift_def io_fail_def)

lemma io_bind_assoc: "io_bind (io_bind m f) g = io_bind m (\<lambda>x. io_bind (f x) g)"
  by (auto simp: fun_eq_iff io_bind_def split: prod.splits sum.splits)

lemma io_bind_cong:
  assumes "\<And>x. f x = g x"
  shows "io_bind m f = io_bind m g"
proof -
  from assms have "f = g" by (rule ext)
  then show ?thesis by simp
qed

lemma io_context_eq_Inr [simp]:
  "io_context c m s = (t, Inr x) \<longleftrightarrow> m s = (t, Inr x)"
  by (auto simp: io_context_def split: prod.splits)

lemma io_map_err_eq_Inr [simp]: "io_map_err g m s = (t, Inr x) \<longleftrightarrow> m s = (t, Inr x)"
  by (auto simp: io_map_err_def split: prod.splits)

lemma io_map_err_step:
  "m s = (t, Inr x) \<Longrightarrow> io_map_err g m s = (t, Inr x)"
  "m s = (t, Inl e) \<Longrightarrow> io_map_err g m s = (t, Inl (g e))"
  by (simp_all add: io_map_err_def)

lemma io_context_fst [simp]: "fst (io_context c m s) = fst (m s)"
  by (simp add: io_context_def split: prod.splits)

section \<open>Machine arithmetic\<close>

text \<open>
  Multiplication of two \<open>u32\<close> values. With overflow checks (a debug build) an overflow panics,
  without them (a release build, as the packaging produces) it wraps.
\<close>

definition mul_u32 :: "bool \<Rightarrow> u32 \<Rightarrow> u32 \<Rightarrow> u32 result" where
  "mul_u32 checks a b =
     (if checks \<and> unat a * unat b \<ge> 2 ^ 32 then Inl Panic else Inr (a * b))"

lemma mul_u32_exact:
  "unat a * unat b < 2 ^ 32 \<Longrightarrow> \<exists>c. mul_u32 checks a b = Inr c \<and> unat c = unat a * unat b"
  by (simp add: mul_u32_def unat_word_ariths)

lemma mul_u32_Inr: "mul_u32 checks a b = Inr c \<Longrightarrow> c = a * b"
  by (simp add: mul_u32_def split: if_splits)

lemma mul_u32_release [simp]: "mul_u32 False a b = Inr (a * b)"
  by (simp add: mul_u32_def)

section \<open>Decimal formatting\<close>

definition digit_char :: "nat \<Rightarrow> char" where
  "digit_char d = char_of (48 + d)"

fun show_nat :: "nat \<Rightarrow> string" where
  "show_nat n =
     (if n < 10 then [digit_char n] else show_nat (n div 10) @ [digit_char (n mod 10)])"

declare show_nat.simps [simp del]

definition show_u32 :: "u32 \<Rightarrow> string" where
  "show_u32 w = show_nat (unat w)"

text \<open>
  \<open>str::parse::<u32>\<close>: an optional leading plus sign, at least one decimal digit, and a value
  that fits.
\<close>

definition digit_val :: "char \<Rightarrow> nat option" where
  "digit_val c = (let n = of_char c :: nat in if 48 \<le> n \<and> n \<le> 57 then Some (n - 48) else None)"

fun parse_digits :: "nat \<Rightarrow> string \<Rightarrow> nat option" where
  "parse_digits acc [] = Some acc"
| "parse_digits acc (c # cs) =
     (case digit_val c of
        None \<Rightarrow> None
      | Some d \<Rightarrow> if acc * 10 + d < 2 ^ 32 then parse_digits (acc * 10 + d) cs else None)"

definition parse_u32 :: "string \<Rightarrow> u32 option" where
  "parse_u32 s =
     (let ds = (case s of c # cs \<Rightarrow> (if c = CHR ''+'' then cs else s) | [] \<Rightarrow> [])
      in if ds = [] then None else map_option of_nat (parse_digits 0 ds))"

lemma digit_val_digit_char: "d < 10 \<Longrightarrow> digit_val (digit_char d) = Some d"
  by (simp add: digit_val_def digit_char_def of_char_of)

lemma show_nat_nonempty [simp]: "show_nat n \<noteq> []"
  by (subst show_nat.simps) simp

lemma parse_digits_append:
  "parse_digits acc (xs @ ys) = Option.bind (parse_digits acc xs) (\<lambda>a. parse_digits a ys)"
  by (induction xs arbitrary: acc) (auto split: option.splits)

lemma parse_digits_show_nat: "n < 2 ^ 32 \<Longrightarrow> parse_digits 0 (show_nat n) = Some n"
proof (induction n rule: show_nat.induct)
  case (1 n)
  show ?case
  proof (cases "n < 10")
    case True
    then show ?thesis by (subst show_nat.simps) (simp add: digit_val_digit_char)
  next
    case False
    have "n div 10 \<le> n" by simp
    with "1.prems" have "n div 10 < 2 ^ 32" by linarith
    with False "1.IH" have "parse_digits 0 (show_nat (n div 10)) = Some (n div 10)" by simp
    with False "1.prems" show ?thesis
      by (subst show_nat.simps) (simp add: parse_digits_append digit_val_digit_char)
  qed
qed

lemma hd_show_nat_not_plus: "hd (show_nat n) \<noteq> CHR ''+''"
proof (induction n rule: show_nat.induct)
  case (1 n)
  have "digit_char n \<noteq> CHR ''+''" if "n < 10"
  proof
    assume "digit_char n = CHR ''+''"
    then have "digit_val (CHR ''+'') = Some n" using digit_val_digit_char [OF that] by simp
    then show False by (simp add: digit_val_def)
  qed
  with 1 show ?case by (cases "n < 10") (subst show_nat.simps; simp add: hd_append)+
qed

lemma parse_u32_show_u32: "parse_u32 (show_u32 w) = Some w"
proof -
  have lt: "unat w < 2 ^ 32" using unsigned_less [of w] by simp
  obtain c cs where s: "show_nat (unat w) = c # cs" by (cases "show_nat (unat w)") auto
  moreover have "c \<noteq> CHR ''+''" using hd_show_nat_not_plus [of "unat w"] s by simp
  ultimately show ?thesis
    using parse_digits_show_nat [OF lt] by (simp add: parse_u32_def show_u32_def Let_def)
qed

section \<open>Hash maps\<close>

text \<open>
  A \<open>HashMap\<close> is its list of entries in iteration order, which the standard library leaves
  unspecified; keys are distinct. Lookup is \<open>map_of\<close>, insertion \<open>AList.update\<close> (replace in place
  or append). A property that holds for every such list holds for every iteration order.
\<close>

type_synonym ('k, 'v) hashmap = "('k \<times> 'v) list"

lemma map_of_rev_distinct_keys:
  assumes "distinct (map fst kvs)"
  shows "map_of (rev kvs) = map_of kvs"
proof -
  from assms have "distinct (map fst (rev kvs))" by (simp add: rev_map [symmetric])
  moreover have "set (rev kvs) = set kvs" by simp
  ultimately show ?thesis using assms by (simp add: map_of_inject_set)
qed

definition hm_wf :: "('k, 'v) hashmap \<Rightarrow> bool" where
  "hm_wf m \<longleftrightarrow> distinct (map fst m)"

locale kv_store =
  fixes get :: "'m \<Rightarrow> 'k \<Rightarrow> 'v option"
    and put :: "'k \<Rightarrow> 'v \<Rightarrow> 'm \<Rightarrow> 'm"
    and new :: "'m"
    and wf :: "'m \<Rightarrow> bool"
  assumes get_new: "get new = (\<lambda>_. None)"
    and get_put: "get (put k v m) = (get m)(k := Some v)"
    and wf_new: "wf new"
    and wf_put: "wf m \<Longrightarrow> wf (put k v m)"
begin

lemma get_put_same: "get (put k v m) k = Some v"
  by (simp add: get_put)

lemma get_put_other: "k' \<noteq> k \<Longrightarrow> get (put k v m) k' = get m k'"
  by (simp add: get_put)

text \<open>A loop that inserts one entry after another, as the code fills its maps.\<close>

lemma get_fold_put:
  "get (fold (\<lambda>(k, v). put k v) kvs m) k =
     (case map_of (rev kvs) k of Some v \<Rightarrow> Some v | None \<Rightarrow> get m k)"
  by (induction kvs arbitrary: m) (auto simp: get_put map_add_def split: option.splits)

lemma wf_fold_put: "wf m \<Longrightarrow> wf (fold (\<lambda>(k, v). put k v) kvs m)"
  by (induction kvs arbitrary: m) (auto simp: wf_put)

lemma get_fold_put_distinct:
  assumes "distinct (map fst kvs)"
  shows "get (fold (\<lambda>(k, v). put k v) kvs new) = map_of kvs"
proof
  fix k
  have "map_of (rev kvs) = map_of kvs"
    using assms by (simp add: map_of_rev_distinct_keys)
  then show "get (fold (\<lambda>(k, v). put k v) kvs new) k = map_of kvs k"
    by (simp add: get_fold_put get_new split: option.splits)
qed

end

lemma map_of_AList_update: "map_of (AList.update k v m) = (map_of m)(k := Some v)"
  by (simp add: fun_eq_iff AList.update_conv)

lemma hm_wf_update: "hm_wf m \<Longrightarrow> hm_wf (AList.update k v m)"
  by (simp add: hm_wf_def distinct_update)

interpretation hm: kv_store map_of AList.update "[]" hm_wf
  by unfold_locales (simp_all add: map_of_AList_update hm_wf_update, simp_all add: hm_wf_def)

end
