(* ===== verification/Rust_Str.thy ===== *)
theory Rust_Str imports Prelude begin

text \<open>
  The string operations of Rust's standard library that the program uses: \<^verbatim>\<open>split\<close>,
  \<^verbatim>\<open>splitn\<close>, \<^verbatim>\<open>trim\<close>, \<^verbatim>\<open>lines\<close>, \<^verbatim>\<open>contains\<close>, \<^verbatim>\<open>strip_suffix\<close>, \<^verbatim>\<open>split_whitespace\<close>, \<^verbatim>\<open>starts_with\<close>.
  They work on UTF-8 bytes; the separators of the program are ASCII, so searching for them by
  byte and by character agree, and \<^verbatim>\<open>trim\<close> lists the encodings of Unicode white space.
\<close>

section \<open>Splitting\<close>

text \<open>\<open>s.split(c)\<close>: always at least one piece, possibly empty ones.\<close>

fun split_on :: "char \<Rightarrow> string \<Rightarrow> string list" where
  "split_on c [] = [[]]"
| "split_on c (x # xs) =
     (if x = c then [] # split_on c xs
      else (case split_on c xs of [] \<Rightarrow> [[x]] | p # ps \<Rightarrow> (x # p) # ps))"

text \<open>\<open>s.splitn(n, c)\<close>: at most \<open>n\<close> pieces, the last one keeps its separators.\<close>

fun splitn :: "nat \<Rightarrow> char \<Rightarrow> string \<Rightarrow> string list" where
  "splitn 0 c s = []"
| "splitn (Suc 0) c s = [s]"
| "splitn (Suc (Suc n)) c s =
     (if c \<in> set s
      then takeWhile (\<lambda>x. x \<noteq> c) s # splitn (Suc n) c (tl (dropWhile (\<lambda>x. x \<noteq> c) s))
      else [s])"

text \<open>Joining pieces with a separator, the inverse used in specifications.\<close>

fun join :: "char \<Rightarrow> string list \<Rightarrow> string" where
  "join c [] = []"
| "join c [p] = p"
| "join c (p # ps) = p @ c # join c ps"

lemma split_on_nonempty [simp]: "split_on c s \<noteq> []"
  by (cases s) (auto split: list.splits)

lemma split_on_no_sep: "c \<notin> set s \<Longrightarrow> split_on c s = [s]"
  by (induction s) auto

lemma split_on_append_sep: "c \<notin> set p \<Longrightarrow> split_on c (p @ c # s) = p # split_on c s"
  by (induction p) (auto split: list.splits)

lemma split_on_join:
  "ps \<noteq> [] \<Longrightarrow> \<forall>p \<in> set ps. c \<notin> set p \<Longrightarrow> split_on c (join c ps) = ps"
  by (induction c ps rule: join.induct) (auto simp: split_on_no_sep split_on_append_sep)

lemma split_on_pieces_no_sep: "p \<in> set (split_on c s) \<Longrightarrow> c \<notin> set p"
proof (induction s arbitrary: p)
  case Nil
  then show ?case by simp
next
  case (Cons x s)
  then show ?case by (cases "split_on c s") (auto split: if_splits)
qed

lemma join_split_on: "join c (split_on c s) = s"
proof (induction s)
  case Nil
  then show ?case by simp
next
  case (Cons x s)
  obtain p ps where "split_on c s = p # ps" by (cases "split_on c s") auto
  with Cons show ?case by (cases ps) auto
qed

lemma splitn_pieces: "c \<notin> set a \<Longrightarrow> splitn (Suc (Suc n)) c (a @ c # b) = a # splitn (Suc n) c b"
  by (induction a) auto

lemma splitn_three:
  assumes "c \<notin> set a" "c \<notin> set b"
  shows "splitn 3 c (a @ c # b @ c # v) = [a, b, v]"
proof -
  have "splitn (Suc (Suc (Suc 0))) c (a @ c # b @ c # v) = a # splitn (Suc (Suc 0)) c (b @ c # v)"
    by (rule splitn_pieces [OF assms(1)])
  also have "splitn (Suc (Suc 0)) c (b @ c # v) = [b, v]"
    using splitn_pieces [OF assms(2), of 0 v] by simp
  finally show ?thesis by (simp only: numeral_3_eq_3)
qed

lemma length_splitn_le: "length (splitn n c s) \<le> n"
  by (induction n c s rule: splitn.induct) auto

lemma splitn_three_inv:
  assumes "splitn 3 c s = [a, b, v]"
  shows "s = a @ c # b @ c # v" "c \<notin> set a" "c \<notin> set b"
proof -
  let ?rest = "tl (dropWhile (\<lambda>x. x \<noteq> c) s)"
  from assms have c: "c \<in> set s" and a: "a = takeWhile (\<lambda>x. x \<noteq> c) s"
    and r: "splitn 2 c ?rest = [b, v]"
    by (simp_all add: numeral_3_eq_3 numeral_2_eq_2 split: if_splits)
  from r have c': "c \<in> set ?rest" and b: "b = takeWhile (\<lambda>x. x \<noteq> c) ?rest"
    and v: "v = tl (dropWhile (\<lambda>x. x \<noteq> c) ?rest)"
    by (simp_all add: numeral_2_eq_2 split: if_splits)
  have cut: "t = takeWhile (\<lambda>x. x \<noteq> c) t @ c # tl (dropWhile (\<lambda>x. x \<noteq> c) t)"
    if "c \<in> set t" for t :: string
    using that by (induction t) auto
  show "s = a @ c # b @ c # v" using cut [OF c] cut [OF c'] a b v by simp
  show "c \<notin> set a" using a set_takeWhileD by fastforce
  show "c \<notin> set b" using b set_takeWhileD by fastforce
qed

section \<open>White space\<close>

text \<open>The UTF-8 encodings of the characters with Unicode's \<open>White_Space\<close> property.\<close>

definition ws_encodings :: "string list" where
  "ws_encodings =
     [[CHR 0x09], [CHR 0x0A], [CHR 0x0B], [CHR 0x0C], [CHR 0x0D], [CHR 0x20],
      [CHR 0xC2, CHR 0x85], [CHR 0xC2, CHR 0xA0], [CHR 0xE1, CHR 0x9A, CHR 0x80],
      [CHR 0xE2, CHR 0x80, CHR 0x80], [CHR 0xE2, CHR 0x80, CHR 0x81],
      [CHR 0xE2, CHR 0x80, CHR 0x82], [CHR 0xE2, CHR 0x80, CHR 0x83],
      [CHR 0xE2, CHR 0x80, CHR 0x84], [CHR 0xE2, CHR 0x80, CHR 0x85],
      [CHR 0xE2, CHR 0x80, CHR 0x86], [CHR 0xE2, CHR 0x80, CHR 0x87],
      [CHR 0xE2, CHR 0x80, CHR 0x88], [CHR 0xE2, CHR 0x80, CHR 0x89],
      [CHR 0xE2, CHR 0x80, CHR 0x8A], [CHR 0xE2, CHR 0x80, CHR 0xA8],
      [CHR 0xE2, CHR 0x80, CHR 0xA9], [CHR 0xE2, CHR 0x80, CHR 0xAF],
      [CHR 0xE2, CHR 0x81, CHR 0x9F], [CHR 0xE3, CHR 0x80, CHR 0x80]]"

definition starts_with :: "string \<Rightarrow> string \<Rightarrow> bool" where
  "starts_with p s \<longleftrightarrow> take (length p) s = p"

lemma find_word_shrinks:
  assumes "List.find (\<lambda>w. w \<noteq> [] \<and> starts_with w s) ws = Some w"
  shows "length s - length w < length s" "w \<noteq> []" "starts_with w s"
proof -
  from assms show w: "w \<noteq> []" "starts_with w s" by (auto simp: find_Some_iff)
  then have "length w \<le> length s"
    by (simp add: starts_with_def) (metis length_take min.cobounded1)
  moreover have "0 < length w" using w by simp
  ultimately show "length s - length w < length s" by linarith
qed

text \<open>Drops every leading occurrence of one of the non-empty words \<open>ws\<close>.\<close>

function drop_words :: "string list \<Rightarrow> string \<Rightarrow> string" where
  "drop_words ws s =
     (case List.find (\<lambda>w. w \<noteq> [] \<and> starts_with w s) ws of
        None \<Rightarrow> s
      | Some w \<Rightarrow> drop_words ws (drop (length w) s))"
  by pat_completeness auto
termination
  by (relation "measure (\<lambda>(ws, s). length s)") (auto dest: find_word_shrinks simp: diff_less)

declare drop_words.simps [simp del]

definition trim_start :: "string \<Rightarrow> string" where
  "trim_start s = drop_words ws_encodings s"

definition trim_end :: "string \<Rightarrow> string" where
  "trim_end s = rev (drop_words (map rev ws_encodings) (rev s))"

definition trim :: "string \<Rightarrow> string" where
  "trim s = trim_end (trim_start s)"

text \<open>A string that neither starts nor ends with white space is its own trim.\<close>

definition trimmed :: "string \<Rightarrow> bool" where
  "trimmed s \<longleftrightarrow>
     (\<forall>w \<in> set ws_encodings. \<not> starts_with w s \<and> \<not> starts_with (rev w) (rev s))"

lemma drop_words_id: "\<forall>w \<in> set ws. \<not> starts_with w s \<Longrightarrow> drop_words ws s = s"
  by (subst drop_words.simps) (auto split: option.splits simp: find_Some_iff)

lemma trim_trimmed: "trimmed s \<Longrightarrow> trim s = s"
  by (auto simp: trimmed_def trim_def trim_start_def trim_end_def drop_words_id)

lemma drop_words_suffix: "\<exists>p. s = p @ drop_words ws s"
proof (induction ws s rule: drop_words.induct)
  case (1 ws s)
  show ?case
  proof (cases "List.find (\<lambda>w. w \<noteq> [] \<and> starts_with w s) ws")
    case None
    then show ?thesis by (subst drop_words.simps) simp
  next
    case (Some w)
    with 1 obtain p where "drop (length w) s = p @ drop_words ws (drop (length w) s)" by blast
    then have "s = (take (length w) s @ p) @ drop_words ws (drop (length w) s)"
      by (metis append.assoc append_take_drop_id)
    moreover have "drop_words ws s = drop_words ws (drop (length w) s)"
      using Some by (subst drop_words.simps) simp
    ultimately show ?thesis by metis
  qed
qed

lemma set_trim: "set (trim s) \<subseteq> set s"
proof -
  have sub: "set (drop_words ws t) \<subseteq> set t" for ws t
    using drop_words_suffix [of t ws] by (metis Un_upper2 set_append)
  have "set (trim s) \<subseteq> set (trim_start s)"
    using sub [of "map rev ws_encodings" "rev (trim_start s)"] by (simp add: trim_def trim_end_def)
  also have "\<dots> \<subseteq> set s" using sub by (simp add: trim_start_def)
  finally show ?thesis .
qed

section \<open>Lines, affixes and substrings\<close>

text \<open>
  \<open>s.lines()\<close>: pieces ended by a newline, which is removed together with a carriage return
  before it; a last piece without newline is kept as it is, unless it is empty.
\<close>

fun lines_acc :: "string \<Rightarrow> string \<Rightarrow> string list" where
  "lines_acc cur [] = (if cur = [] then [] else [rev cur])"
| "lines_acc cur (x # xs) =
     (if x = CHR 0x0A
      then (case cur of c # cs \<Rightarrow> (if c = CHR 0x0D then rev cs else rev cur) | [] \<Rightarrow> []) # lines_acc [] xs
      else lines_acc (x # cur) xs)"

definition lines :: "string \<Rightarrow> string list" where
  "lines s = lines_acc [] s"

definition strip_suffix :: "string \<Rightarrow> string \<Rightarrow> string option" where
  "strip_suffix suf s =
     (if starts_with (rev suf) (rev s) then Some (take (length s - length suf) s) else None)"

fun contains :: "string \<Rightarrow> string \<Rightarrow> bool" where
  "contains p [] = (p = [])"
| "contains p (x # xs) = (starts_with p (x # xs) \<or> contains p xs)"

text \<open>\<open>split_whitespace\<close>: the maximal pieces without white space.\<close>

function words_acc :: "string \<Rightarrow> string \<Rightarrow> string list" where
  "words_acc cur s =
     (case List.find (\<lambda>w. w \<noteq> [] \<and> starts_with w s) ws_encodings of
        Some w \<Rightarrow> (if cur = [] then [] else [rev cur]) @ words_acc [] (drop (length w) s)
      | None \<Rightarrow> (case s of
            [] \<Rightarrow> (if cur = [] then [] else [rev cur])
          | x # xs \<Rightarrow> words_acc (x # cur) xs))"
  by pat_completeness auto
termination
  by (relation "measure (\<lambda>(cur, s). length s)") (auto dest: find_word_shrinks)

declare words_acc.simps [simp del]

definition split_whitespace :: "string \<Rightarrow> string list" where
  "split_whitespace s = words_acc [] s"

lemma starts_with_append [simp]: "starts_with p (p @ s)"
  by (simp add: starts_with_def)

lemma starts_withD: "starts_with p s \<Longrightarrow> \<exists>t. s = p @ t"
  by (metis append_take_drop_id starts_with_def)

lemma strip_suffix_append [simp]: "strip_suffix suf (s @ suf) = Some s"
  by (simp add: strip_suffix_def)

lemma strip_suffix_Some: "strip_suffix suf s = Some t \<longleftrightarrow> s = t @ suf"
proof
  assume "strip_suffix suf s = Some t"
  then have "starts_with (rev suf) (rev s)" and t: "t = take (length s - length suf) s"
    by (auto simp: strip_suffix_def split: if_splits)
  then obtain u where "rev s = rev suf @ u" using starts_withD by blast
  then have "s = rev u @ suf" by (metis rev_append rev_rev_ident)
  with t show "s = t @ suf" by simp
qed simp

lemma contains_iff: "contains p s \<longleftrightarrow> (\<exists>a b. s = a @ p @ b)"
proof (induction s)
  case Nil
  then show ?case by auto
next
  case (Cons x xs)
  show ?case
  proof
    assume "contains p (x # xs)"
    then consider "starts_with p (x # xs)" | "contains p xs" by auto
    then show "\<exists>a b. x # xs = a @ p @ b"
    proof cases
      case 1
      then show ?thesis using starts_withD by (metis append_Nil)
    next
      case 2
      with Cons.IH show ?thesis by (metis append_Cons)
    qed
  next
    assume "\<exists>a b. x # xs = a @ p @ b"
    then obtain a b where ab: "x # xs = a @ p @ b" by blast
    show "contains p (x # xs)"
    proof (cases a)
      case Nil
      with ab show ?thesis by (metis append_Nil contains.simps(2) starts_with_append)
    next
      case (Cons y ys)
      with ab Cons.IH show ?thesis by auto
    qed
  qed
qed

section \<open>Literals\<close>

text \<open>The apostrophe, which a string literal cannot end with.\<close>

definition sq :: string where
  "sq = [CHR 0x27]"

definition quoted :: "string \<Rightarrow> string" where
  "quoted s = sq @ s @ sq"

end
