(* ===== verification/Wire.thy ===== *)
theory Wire imports Rust_Str begin

text \<open>
  The messages of the vsock protocol (\<^verbatim>\<open>libs/rust-libs/authn-scope-proto/src/wire.rs\<close>) and of
  the Workload API (\<^verbatim>\<open>WorkloadRequest\<close>, \<^verbatim>\<open>WorkloadResponse\<close> and \<^verbatim>\<open>X509Credentials\<close>, declared
  in the agent's \<^verbatim>\<open>client.rs\<close> and in the workload library). The \<open>Error\<close> variants of the two
  response types are told apart by their prefix.
\<close>

section \<open>The vsock protocol\<close>

definition PROTOCOL_VERSION :: u32 where
  "PROTOCOL_VERSION = 1"

datatype agent_request =
    Handshake (req_version: u32) (req_vm_name: string)
  | CertRequest (req_version: u32) (req_vm_name: string) (req_identity: string)
      (req_csr_pem: string)

record unix_selector =
  user :: "string option"
  group :: "string option"
  bin_path :: "string option"

record systemd_selector =
  unitpath :: "string option"
  unitname :: "string option"

text \<open>The derived \<open>Default\<close> of the two selector types.\<close>

definition unix_default :: unix_selector where
  "unix_default = \<lparr>user = None, group = None, bin_path = None\<rparr>"

definition systemd_default :: systemd_selector where
  "systemd_default = \<lparr>unitpath = None, unitname = None\<rparr>"

record selector_config =
  unix :: "unix_selector option"
  systemd :: "systemd_selector option"

record workload_config =
  wc_selector :: selector_config
  validity_seconds :: u32

datatype agent_response =
    HandshakeOk "(string, workload_config) hashmap"
  | CertOk (resp_cert_pem: string) (resp_ca_cert_pem: string)
  | AgentError string

section \<open>The Workload API\<close>

record workload_request =
  req_type :: string

datatype workload_response =
    Success (wr_cert_pem: string) (wr_key_pem: string) (wr_ca_cert_pem: string)
  | WorkloadError string

record x509_credentials =
  cred_cert_pem :: string
  cred_key_pem :: string
  cred_ca_cert_pem :: string

end
