(* ===== verification/Codec.thy ===== *)
theory Codec imports Wire begin

text \<open>
  Length-prefixed framing (\<^verbatim>\<open>libs/rust-libs/authn-scope-proto/src/codec.rs\<close>) over a byte
  stream. JSON printing and parsing is the third-party \<^verbatim>\<open>serde_json\<close> and enters as the functions
  \<open>ser\<close> and \<open>de\<close>. The locale \<open>framing\<close> states what a frame format promises to its users.
\<close>

unbundle bit_operations_syntax

section \<open>Byte streams\<close>

text \<open>
  One end of a connection: the bytes the peer sends before it stops (then reads fail with
  \<open>rerr\<close>, the end-of-file or reset error), the bytes written so far, how many more the
  transport takes before writes fail with \<open>werr\<close>, and whether flushing fails.
\<close>

record stream =
  inp :: "u8 list"
  rerr :: string
  outp :: "u8 list"
  room :: nat
  werr :: string
  flush_err :: "string option"

definition read_exact :: "nat \<Rightarrow> (stream, u8 list) io" where
  "read_exact n s =
     (if n \<le> length (inp s)
      then (s\<lparr>inp := drop n (inp s)\<rparr>, Inr (take n (inp s)))
      else (s\<lparr>inp := []\<rparr>, Inl (Bail (Msg (rerr s)))))"

definition write_all :: "u8 list \<Rightarrow> (stream, unit) io" where
  "write_all bs s =
     (if length bs \<le> room s
      then (s\<lparr>outp := outp s @ bs, room := room s - length bs\<rparr>, Inr ())
      else (s\<lparr>outp := outp s @ take (room s) bs, room := 0\<rparr>, Inl (Bail (Msg (werr s)))))"

definition flush :: "(stream, unit) io" where
  "flush s = (case flush_err s of None \<Rightarrow> (s, Inr ()) | Some e \<Rightarrow> (s, Inl (Bail (Msg e))))"

section \<open>Big-endian lengths\<close>

definition to_be_bytes :: "u32 \<Rightarrow> u8 list" where
  "to_be_bytes w =
     [ucast (drop_bit 24 w), ucast (drop_bit 16 w), ucast (drop_bit 8 w), ucast w]"

definition from_be_bytes :: "u8 list \<Rightarrow> u32" where
  "from_be_bytes bs = fold (\<lambda>b acc. push_bit 8 acc OR ucast b) bs 0"

lemma length_to_be_bytes [simp]: "length (to_be_bytes w) = 4"
  by (simp add: to_be_bytes_def)

lemma from_be_to_be [simp]: "from_be_bytes (to_be_bytes w) = w"
proof (rule bit_word_eqI)
  fix n assume "n < LENGTH(32)"
  then consider "n < 8" | "8 \<le> n" "n < 16" | "16 \<le> n" "n < 24" | "24 \<le> n" "n < 32"
    by fastforce
  then show "bit (from_be_bytes (to_be_bytes w)) n = bit w n"
    by cases (auto simp: from_be_bytes_def to_be_bytes_def bit_simps)
qed

lemma to_be_from_be_four: "to_be_bytes (from_be_bytes [a, b, c, d]) = [a, b, c, d]"
proof -
  have byte: "ucast (drop_bit k (from_be_bytes [a, b, c, d])) = x"
    if "(k, x) \<in> {(0, d), (8, c), (16, b), (24, a)}" for k x
    using that
    by (intro bit_word_eqI) (auto simp: from_be_bytes_def bit_simps dest: bit_imp_le_length)
  show ?thesis using byte [of 0 d] by (simp add: to_be_bytes_def byte)
qed

lemma to_be_from_be: "length bs = 4 \<Longrightarrow> to_be_bytes (from_be_bytes bs) = bs"
  by (auto simp: length_Suc_conv numeral_eq_Suc to_be_from_be_four)

section \<open>Messages\<close>

definition MAX_MSG_BYTES :: nat where
  "MAX_MSG_BYTES = 4 * 1024 * 1024"

definition send_json :: "('m \<Rightarrow> u8 list result) \<Rightarrow> 'm \<Rightarrow> (stream, unit) io" where
  "send_json ser value =
     io_bind (io_lift (ser value)) (\<lambda>payload.
     let len = of_nat (length payload) :: u32 in
     io_bind (write_all (to_be_bytes len)) (\<lambda>_.
     io_bind (write_all payload) (\<lambda>_. flush)))"

definition frame_too_large :: "nat \<Rightarrow> fault" where
  "frame_too_large len =
     Bail (Msg (''incoming frame too large: '' @ show_nat len @ '' bytes (max ''
       @ show_nat MAX_MSG_BYTES @ '')''))"

definition recv_json :: "(u8 list \<Rightarrow> 'm result) \<Rightarrow> (stream, 'm) io" where
  "recv_json de =
     io_bind (read_exact 4) (\<lambda>len_buf.
     let len = unat (from_be_bytes len_buf) in
     if len > MAX_MSG_BYTES then io_fail (frame_too_large len)
     else io_bind (read_exact len) (\<lambda>buf. io_lift (de buf)))"

section \<open>Frames\<close>

text \<open>
  The frame of a payload and, as a reference, the parser that splits the first frame off a
  byte sequence: both are specifications of the byte format, independent of the stream.
\<close>

definition frame :: "u8 list \<Rightarrow> u8 list" where
  "frame p = to_be_bytes (of_nat (length p)) @ p"

definition split_frame :: "u8 list \<Rightarrow> (u8 list \<times> u8 list) option" where
  "split_frame bs =
     (let len = unat (from_be_bytes (take 4 bs)) in
      if length bs < 4 \<or> len > MAX_MSG_BYTES \<or> length bs < 4 + len then None
      else Some (take len (drop 4 bs), drop (4 + len) bs))"

fun split_frames :: "('b \<Rightarrow> ('p \<times> 'b) option) \<Rightarrow> nat \<Rightarrow> 'b \<Rightarrow> ('p list \<times> 'b) option" where
  "split_frames get 0 bs = Some ([], bs)"
| "split_frames get (Suc n) bs =
     (case get bs of
        None \<Rightarrow> None
      | Some (p, rest) \<Rightarrow> map_option (\<lambda>(ps, r). (p # ps, r)) (split_frames get n rest))"

locale framing =
  fixes put :: "'p \<Rightarrow> 'b list"
    and get :: "'b list \<Rightarrow> ('p \<times> 'b list) option"
    and fits :: "'p \<Rightarrow> bool"
  assumes get_put: "fits p \<Longrightarrow> get (put p @ rest) = Some (p, rest)"
    and get_sound: "get bs = Some (p, rest) \<Longrightarrow> fits p \<and> bs = put p @ rest"
begin

lemma get_all: "\<forall>p \<in> set ps. fits p \<Longrightarrow>
    split_frames get (length ps) (concat (map put ps) @ rest) = Some (ps, rest)"
  by (induction ps) (auto simp: get_put)

lemma get_all_sound: "split_frames get n bs = Some (ps, rest) \<Longrightarrow>
    length ps = n \<and> (\<forall>p \<in> set ps. fits p) \<and> bs = concat (map put ps) @ rest"
proof (induction n arbitrary: bs ps)
  case 0
  then show ?case by simp
next
  case (Suc n)
  from Suc.prems obtain p r qs where g: "get bs = Some (p, r)"
    and rec: "split_frames get n r = Some (qs, rest)" and ps: "ps = p # qs"
    by (auto split: option.splits)
  with Suc.IH [OF rec] get_sound [OF g] show ?case by simp
qed

lemma put_unambiguous:
  "fits p \<Longrightarrow> fits q \<Longrightarrow> put p @ r = put q @ r' \<Longrightarrow> p = q \<and> r = r'"
  by (metis get_put option.inject prod.inject)

end

lemma MAX_MSG_BYTES_lt: "MAX_MSG_BYTES < 2 ^ 32"
  by (simp add: MAX_MSG_BYTES_def)

lemma unat_frame_length: "n < 2 ^ 32 \<Longrightarrow> unat (of_nat n :: u32) = n"
  by (simp add: unsigned_of_nat take_bit_nat_eq_self)

lemma split_frame_frame: "length p \<le> MAX_MSG_BYTES \<Longrightarrow> split_frame (frame p @ rest) = Some (p, rest)"
  using MAX_MSG_BYTES_lt by (simp add: split_frame_def frame_def unat_frame_length Let_def)

lemma split_frame_sound:
  assumes "split_frame bs = Some (p, rest)"
  shows "length p \<le> MAX_MSG_BYTES \<and> bs = frame p @ rest"
proof -
  define len where "len = unat (from_be_bytes (take 4 bs))"
  from assms have b: "4 \<le> length bs" "len \<le> MAX_MSG_BYTES" "4 + len \<le> length bs"
    and p: "p = take len (drop 4 bs)" and rest: "rest = drop (4 + len) bs"
    by (auto simp: split_frame_def len_def Let_def split: if_splits)
  from p b have lp: "length p = len" by simp
  have "to_be_bytes (of_nat (length p)) = take 4 bs"
    using b by (simp add: lp len_def to_be_from_be)
  then have "frame p @ rest = take 4 bs @ take len (drop 4 bs) @ drop len (drop 4 bs)"
    by (simp add: frame_def p rest add.commute)
  also have "\<dots> = bs" by (metis append_take_drop_id)
  finally show ?thesis using lp b by simp
qed

interpretation fr: framing frame split_frame "\<lambda>p. length p \<le> MAX_MSG_BYTES"
  by unfold_locales (simp add: split_frame_frame, rule split_frame_sound)

section \<open>Sending and receiving\<close>

lemma recv_json_split_frame:
  assumes "split_frame (inp s) = Some (p, rest)"
  shows "recv_json de s = (s\<lparr>inp := rest\<rparr>, de p)"
  using assms
  by (auto simp: recv_json_def split_frame_def io_bind_def read_exact_def Let_def io_lift_def
      add.commute split: if_splits)

lemma recv_json_Inr:
  assumes "recv_json de s = (s', Inr m)"
  shows "\<exists>p. split_frame (inp s) = Some (p, inp s') \<and> s' = s\<lparr>inp := inp s'\<rparr> \<and> de p = Inr m"
  using assms
  by (auto simp: recv_json_def split_frame_def io_bind_def read_exact_def Let_def io_lift_def
      io_fail_def add.commute split: if_splits)

text \<open>Receiving never writes: everything but the unread input is as before.\<close>

lemma recv_json_frame_rule: "recv_json de s = (s', r) \<Longrightarrow> s' = s\<lparr>inp := inp s'\<rparr>"
  by (auto simp: recv_json_def io_bind_def read_exact_def Let_def io_lift_def io_fail_def
      split: if_splits)

text \<open>A transport that takes the bytes \<open>bs\<close>.\<close>

definition accepts :: "stream \<Rightarrow> u8 list \<Rightarrow> bool" where
  "accepts s bs \<longleftrightarrow> length bs \<le> room s \<and> flush_err s = None"

lemma send_json_ok:
  assumes "ser m = Inr p" and "accepts s (frame p)"
  shows "send_json ser m s =
    (s\<lparr>outp := outp s @ frame p, room := room s - length (frame p)\<rparr>, Inr ())"
  using assms
  by (auto simp: send_json_def io_bind_def write_all_def frame_def flush_def accepts_def Let_def
      io_lift_def)

lemma send_json_Inr:
  assumes "send_json ser m s = (s', Inr u)"
  shows "\<exists>p. ser m = Inr p \<and> accepts s (frame p) \<and>
    s' = s\<lparr>outp := outp s @ frame p, room := room s - length (frame p)\<rparr>"
  using assms
  by (auto simp: send_json_def io_bind_def write_all_def frame_def flush_def accepts_def Let_def
      io_lift_def split: if_splits sum.splits option.splits)

text \<open>Whatever happens, nothing is read and what is written is a prefix of the one frame.\<close>

lemma write_all_prefix:
  "write_all bs s = (s', r) \<Longrightarrow> inp s' = inp s \<and> (\<exists>w rest. outp s' = outp s @ w \<and> bs = w @ rest
     \<and> (r = Inr () \<longrightarrow> rest = []))"
  by (auto simp: write_all_def split: if_splits) (metis append_take_drop_id)

lemma send_json_prefix:
  assumes send: "send_json ser m s = (s', r)"
  shows "inp s' = inp s \<and> (\<exists>w. outp s' = outp s @ w \<and>
    (w \<noteq> [] \<longrightarrow> (\<exists>p rest. ser m = Inr p \<and> frame p = w @ rest)))"
proof (cases "ser m")
  case (Inl e)
  with send show ?thesis by (simp add: send_json_def io_fail_def)
next
  case (Inr p)
  let ?h = "to_be_bytes (of_nat (length p))"
  obtain s1 r1 where h: "write_all ?h s = (s1, r1)" by force
  obtain s2 r2 where b: "write_all p s1 = (s2, r2)" by force
  note hp = write_all_prefix [OF h] and bp = write_all_prefix [OF b]
  show ?thesis
  proof (cases r1)
    case (Inl e)
    with send Inr h have "s' = s1" by (simp add: send_json_def io_bind_def Let_def)
    with hp Inr show ?thesis by (force simp: frame_def)
  next
    case h1: (Inr u)
    with send Inr h b have "s' = s2 \<or> s' = fst (flush s2)"
      by (auto simp: send_json_def io_bind_def Let_def split: sum.splits)
    then have eq: "inp s' = inp s2" "outp s' = outp s2"
      by (auto simp: flush_def split: option.splits)
    from hp h1 have "outp s1 = outp s @ ?h" "inp s1 = inp s" by auto
    with bp eq Inr show ?thesis by (force simp: frame_def)
  qed
qed

section \<open>The codec's contract\<close>

text \<open>
  C27: Receiving succeeds exactly when the unread bytes start with the frame of a payload of at
  most 4 MiB that decodes; it consumes that frame and not one byte more, whatever follows, and
  touches nothing but the unread input.
\<close>
theorem recv_json_correct:
  "recv_json de s = (s', Inr m) \<longleftrightarrow>
     (\<exists>p. length p \<le> MAX_MSG_BYTES \<and> inp s = frame p @ inp s' \<and> s' = s\<lparr>inp := inp s'\<rparr> \<and> de p = Inr m)"
proof
  assume "recv_json de s = (s', Inr m)"
  then obtain p where g: "split_frame (inp s) = Some (p, inp s')"
    and r: "s' = s\<lparr>inp := inp s'\<rparr>" "de p = Inr m"
    by (metis recv_json_Inr)
  from fr.get_sound [OF g] r show "\<exists>p. length p \<le> MAX_MSG_BYTES \<and> inp s = frame p @ inp s'
      \<and> s' = s\<lparr>inp := inp s'\<rparr> \<and> de p = Inr m" by metis
next
  assume "\<exists>p. length p \<le> MAX_MSG_BYTES \<and> inp s = frame p @ inp s' \<and> s' = s\<lparr>inp := inp s'\<rparr> \<and> de p = Inr m"
  then obtain p where p: "length p \<le> MAX_MSG_BYTES" "inp s = frame p @ inp s'"
    "s' = s\<lparr>inp := inp s'\<rparr>" "de p = Inr m" by blast
  then have "split_frame (inp s) = Some (p, inp s')" by (simp add: fr.get_put)
  then have "recv_json de s = (s\<lparr>inp := inp s'\<rparr>, de p)" by (rule recv_json_split_frame)
  with p(3,4) show "recv_json de s = (s', Inr m)" by metis
qed

text \<open>
  C28: Whatever is sent in at most 4 MiB is received: the peer reads back the message that was
  sent and is left with exactly the bytes that follow it, so the messages of one stream are
  never confused.
\<close>
theorem send_recv_roundtrip:
  assumes "ser m = Inr p" and "de p = Inr m" and "length p \<le> MAX_MSG_BYTES" and "accepts s (frame p)"
  shows "\<exists>s' sent. send_json ser m s = (s', Inr ()) \<and> outp s' = outp s @ sent
    \<and> (\<forall>t rest. recv_json de (t\<lparr>inp := sent @ rest\<rparr>) = (t\<lparr>inp := rest\<rparr>, Inr m))"
proof -
  have "recv_json de (t\<lparr>inp := frame p @ rest\<rparr>) = (t\<lparr>inp := rest\<rparr>, Inr m)" for t rest
    using recv_json_split_frame [of "t\<lparr>inp := frame p @ rest\<rparr>" p rest de] assms
    by (simp add: fr.get_put)
  with send_json_ok [of ser m p s] assms show ?thesis by force
qed

definition sample_stream :: stream where
  "sample_stream =
     \<lparr>inp = [], rerr = ''eof'', outp = [], room = 10000000, werr = ''broken pipe'', flush_err = None\<rparr>"

theorem send_recv_roundtrip_witness:
  "\<exists>s' sent. send_json Inr [7, 8] sample_stream = (s', Inr ()) \<and> outp s' = outp sample_stream @ sent
    \<and> (\<forall>t rest. recv_json Inr (t\<lparr>inp := sent @ rest\<rparr>) = (t\<lparr>inp := rest\<rparr>, Inr [7, 8]))"
  by (rule send_recv_roundtrip [of Inr "[7, 8]" "[7, 8]" Inr sample_stream])
    (simp_all add: accepts_def sample_stream_def MAX_MSG_BYTES_def frame_def)

text \<open>
  C29: The sender checks no length: a payload \<open>p\<close> of more than 4 MiB is sent in full and reported as
  sent, but no receiver reads it as a whole. The length on the wire is that of the payload
  modulo 2^32. If this exceeds the limit, as it does for every payload between 4 MiB and 4 GiB,
  the receiver refuses it after the four bytes of the length, with the whole payload still
  unread; if a longer payload wraps to a length within the limit, the receiver raises no size
  error, takes the first bytes of the payload for the message, and leaves the others unread.
\<close>
theorem send_json_oversized:
  assumes "ser m = Inr p" and "MAX_MSG_BYTES < length p" and "accepts s (frame p)"
  shows "\<exists>s' sent. send_json ser m s = (s', Inr ()) \<and> outp s' = outp s @ sent
    \<and> (\<forall>t rest. recv_json de (t\<lparr>inp := sent @ rest\<rparr>)
         = (let n = length p mod 2 ^ 32 in
            if MAX_MSG_BYTES < n then (t\<lparr>inp := p @ rest\<rparr>, Inl (frame_too_large n))
            else (t\<lparr>inp := drop n p @ rest\<rparr>, de (take n p))))
    \<and> (length p < 2 ^ 32 \<longrightarrow> MAX_MSG_BYTES < length p mod 2 ^ 32)"
proof -
  have n: "unat (of_nat (length p) :: u32) = length p mod 2 ^ 32" by (simp add: unat_of_nat)
  have "recv_json de (t\<lparr>inp := frame p @ rest\<rparr>)
      = (let n = length p mod 2 ^ 32 in
         if MAX_MSG_BYTES < n then (t\<lparr>inp := p @ rest\<rparr>, Inl (frame_too_large n))
         else (t\<lparr>inp := drop n p @ rest\<rparr>, de (take n p)))" for t rest
  proof -
    have "length p mod 2 ^ 32 \<le> length p" by (rule mod_less_eq_dividend)
    then show ?thesis
      by (simp add: recv_json_def io_bind_def read_exact_def frame_def n Let_def io_fail_def io_lift_def
          trans_le_add1 del: unat_of_nat)
  qed
  moreover have "MAX_MSG_BYTES < length p mod 2 ^ 32" if "length p < 2 ^ 32"
    using that assms(2) by simp
  ultimately show ?thesis using send_json_ok [of ser m p s] assms(1,3) by auto
qed

text \<open>A payload of 2^32 + 1 bytes, of which the receiver takes one for the message.\<close>

lemma sample_oversized:
  "MAX_MSG_BYTES < length (replicate 4294967297 (0 :: u8))"
  "accepts (sample_stream\<lparr>room := 5000000000\<rparr>) (frame (replicate 4294967297 0))"
  by (simp_all only: length_replicate accepts_def sample_stream_def MAX_MSG_BYTES_def frame_def
      length_append length_to_be_bytes, simp_all)

theorem send_json_oversized_witness:
  "\<exists>s' sent. send_json (\<lambda>_. Inr (replicate 4294967297 0)) () (sample_stream\<lparr>room := 5000000000\<rparr>) = (s', Inr ())
    \<and> (\<forall>t. snd (recv_json (Inr :: u8 list \<Rightarrow> u8 list result) (t\<lparr>inp := sent\<rparr>)) = Inr [0])"
proof -
  let ?p = "replicate 4294967297 (0 :: u8)"
  have n: "length ?p mod 2 ^ 32 = 1" "take 1 ?p = [0]"
    by (simp_all only: length_replicate take_replicate) simp_all
  obtain s' sent where send: "send_json (\<lambda>_. Inr ?p) () (sample_stream\<lparr>room := 5000000000\<rparr>) = (s', Inr ())"
    and recv: "\<And>t rest. recv_json (Inr :: u8 list \<Rightarrow> u8 list result) (t\<lparr>inp := sent @ rest\<rparr>)
         = (let n = length ?p mod 2 ^ 32 in
            if MAX_MSG_BYTES < n then (t\<lparr>inp := ?p @ rest\<rparr>, Inl (frame_too_large n))
            else (t\<lparr>inp := drop n ?p @ rest\<rparr>, Inr (take n ?p)))"
    using send_json_oversized [of "\<lambda>_. Inr ?p" "()" ?p, OF refl sample_oversized] by blast
  have "snd (recv_json (Inr :: u8 list \<Rightarrow> u8 list result) (t\<lparr>inp := sent\<rparr>)) = Inr [0]" for t
    using recv [where t = t and rest = "[]"] unfolding n Let_def MAX_MSG_BYTES_def append_Nil2 by (simp del: take_replicate)
  with send show ?thesis by blast
qed

end
