(* ===== verification/Host_Config.thy ===== *)
theory Host_Config imports Codec begin

text \<open>
  The host's configuration (\<^verbatim>\<open>apps/rust-apps/authn-scope-server/src/config.rs\<close>): the records of
  the JSON file, the parser of selector strings and the checks of \<^verbatim>\<open>HostConfig::from_file\<close>.
  Reading the file and parsing JSON are the functions \<open>read_file\<close> and \<open>parse_json\<close>. The second
  part specifies selector strings as lists of field assignments and relates the parser to it.
\<close>

section \<open>Records\<close>

record identity_policy =
  pol_selector :: string
  ttl_minutes :: u32

record vm_entry =
  vm_cid :: u32
  vm_ip :: "string option"
  identities :: "(string, identity_policy) hashmap"

record host_config =
  ca_cert_path :: string
  ca_key_path :: string
  server_port :: u32
  vms :: "(string, vm_entry) hashmap"
  peer_port :: u32

definition default_server_port :: u32 where
  "default_server_port = 900"

definition default_peer_port :: u32 where
  "default_peer_port = 901"

section \<open>The selector parser\<close>

text \<open>The local variables of \<^verbatim>\<open>parse_selector\<close>.\<close>

record sel_state =
  st_unix :: unix_selector
  st_systemd :: systemd_selector
  has_unix :: bool
  has_systemd :: bool

definition sel_init :: sel_state where
  "sel_init =
     \<lparr>st_unix = unix_default, st_systemd = systemd_default, has_unix = False, has_systemd = False\<rparr>"

text \<open>The body of the loop over the comma-separated parts.\<close>

definition parse_part :: "sel_state \<Rightarrow> string \<Rightarrow> anyhow + sel_state" where
  "parse_part st raw =
     (let part = trim raw in
      if part = [] then Inr st
      else let subparts = splitn 3 CHR '':'' part in
      if length subparts < 3
      then Inl (Msg (''Invalid selector component: '' @ quoted part))
      else let domain = subparts ! 0; key = subparts ! 1; value = subparts ! 2 in
      if domain = ''unix'' \<and> key = ''user''
      then Inr (st\<lparr>st_unix := (st_unix st)\<lparr>user := Some value\<rparr>, has_unix := True\<rparr>)
      else if domain = ''unix'' \<and> key = ''group''
      then Inr (st\<lparr>st_unix := (st_unix st)\<lparr>group := Some value\<rparr>, has_unix := True\<rparr>)
      else if domain = ''unix'' \<and> key = ''bin''
      then Inr (st\<lparr>st_unix := (st_unix st)\<lparr>bin_path := Some value\<rparr>, has_unix := True\<rparr>)
      else if domain = ''systemd'' \<and> key = ''unitname''
      then Inr (st\<lparr>st_systemd := (st_systemd st)\<lparr>unitname := Some value\<rparr>, has_systemd := True\<rparr>)
      else if domain = ''systemd'' \<and> key = ''unitpath''
      then Inr (st\<lparr>st_systemd := (st_systemd st)\<lparr>unitpath := Some value\<rparr>, has_systemd := True\<rparr>)
      else Inl (Msg (''Unknown selector component: '' @ quoted part)))"

fun parse_parts :: "sel_state \<Rightarrow> string list \<Rightarrow> anyhow + sel_state" where
  "parse_parts st [] = Inr st"
| "parse_parts st (p # ps) = rbind (parse_part st p) (\<lambda>st'. parse_parts st' ps)"

definition bin_needs_owner :: anyhow where
  "bin_needs_owner =
     Msg (''if bin-path is specified then it must be attached to a user:group ''
          @ ''(both unix:user and unix:group must be present)'')"

definition parse_selector :: "identity_policy \<Rightarrow> anyhow + selector_config" where
  "parse_selector self =
     rbind (parse_parts sel_init (split_on CHR '','' (pol_selector self))) (\<lambda>st.
       let ux = st_unix st in
       if bin_path ux \<noteq> None \<and> (user ux = None \<or> group ux = None) then Inl bin_needs_owner
       else Inr \<lparr>unix = (if has_unix st then Some ux else None),
                 systemd = (if has_systemd st then Some (st_systemd st) else None)\<rparr>)"

section \<open>Loading\<close>

text \<open>The validation loops over the virtual machines and over their workloads.\<close>

fun validate_identities :: "string \<Rightarrow> (string, identity_policy) hashmap \<Rightarrow> anyhow + unit" where
  "validate_identities vm_name [] = Inr ()"
| "validate_identities vm_name ((workload_name, policy) # rest) =
     rbind (map_err (\<lambda>e. Msg (''VM '' @ quoted vm_name @ '' workload '' @ quoted workload_name
                              @ '' selector error: '' @ anyhow_to_string e))
                    (parse_selector policy))
       (\<lambda>_. validate_identities vm_name rest)"

fun validate_vms :: "(string, vm_entry) hashmap \<Rightarrow> anyhow + unit" where
  "validate_vms [] = Inr ()"
| "validate_vms ((vm_name, vm) # rest) =
     rbind (validate_identities vm_name (identities vm)) (\<lambda>_. validate_vms rest)"

definition port_too_high :: "u32 \<Rightarrow> anyhow" where
  "port_too_high p = Msg (''server_port must be less than 1000, got '' @ show_u32 p)"

definition host_config_from_file ::
  "(string \<Rightarrow> anyhow + string) \<Rightarrow> (string \<Rightarrow> anyhow + host_config) \<Rightarrow> string
   \<Rightarrow> anyhow + host_config" where
  "host_config_from_file read_file parse_json path =
     rbind (read_file path) (\<lambda>data.
     rbind (parse_json data) (\<lambda>cfg.
     if server_port cfg \<ge> 1000 then Inl (port_too_high (server_port cfg))
     else rbind (validate_vms (vms cfg)) (\<lambda>_. Inr cfg)))"

section \<open>Selector strings as assignments\<close>

text \<open>
  The specification: a selector string is a list of components, each assigning a value to one of
  five fields; the last assignment to a field counts, and a domain is present when one of its
  fields is assigned.
\<close>

datatype sel_field = UnixUser | UnixGroup | UnixBin | SystemdUnitname | SystemdUnitpath

fun field_prefix :: "sel_field \<Rightarrow> string \<times> string" where
  "field_prefix UnixUser = (''unix'', ''user'')"
| "field_prefix UnixGroup = (''unix'', ''group'')"
| "field_prefix UnixBin = (''unix'', ''bin'')"
| "field_prefix SystemdUnitname = (''systemd'', ''unitname'')"
| "field_prefix SystemdUnitpath = (''systemd'', ''unitpath'')"

definition render_component :: "sel_field \<times> string \<Rightarrow> string" where
  "render_component c =
     (case c of (f, v) \<Rightarrow>
        (case field_prefix f of (d, k) \<Rightarrow> d @ CHR '':'' # k @ CHR '':'' # v))"

definition selector_of :: "(sel_field \<times> string) list \<Rightarrow> selector_config" where
  "selector_of cs =
     (let val = map_of (rev cs) in
      \<lparr>unix = (if val UnixUser = None \<and> val UnixGroup = None \<and> val UnixBin = None then None
               else Some \<lparr>user = val UnixUser, group = val UnixGroup, bin_path = val UnixBin\<rparr>),
       systemd = (if val SystemdUnitname = None \<and> val SystemdUnitpath = None then None
               else Some \<lparr>unitpath = val SystemdUnitpath, unitname = val SystemdUnitname\<rparr>)\<rparr>)"

definition bin_has_owner :: "(sel_field \<times> string) list \<Rightarrow> bool" where
  "bin_has_owner cs \<longleftrightarrow>
     (UnixBin \<in> fst ` set cs \<longrightarrow> UnixUser \<in> fst ` set cs \<and> UnixGroup \<in> fst ` set cs)"

text \<open>The non-empty trimmed parts of a selector string.\<close>

definition selector_parts :: "string \<Rightarrow> string list" where
  "selector_parts s = filter (\<lambda>p. p \<noteq> []) (map trim (split_on CHR '','' s))"

text \<open>One assignment, and what the parser's state is after a list of them.\<close>

fun assign :: "sel_state \<Rightarrow> sel_field \<times> string \<Rightarrow> sel_state" where
  "assign st (UnixUser, v) =
     st\<lparr>st_unix := (st_unix st)\<lparr>user := Some v\<rparr>, has_unix := True\<rparr>"
| "assign st (UnixGroup, v) =
     st\<lparr>st_unix := (st_unix st)\<lparr>group := Some v\<rparr>, has_unix := True\<rparr>"
| "assign st (UnixBin, v) =
     st\<lparr>st_unix := (st_unix st)\<lparr>bin_path := Some v\<rparr>, has_unix := True\<rparr>"
| "assign st (SystemdUnitname, v) =
     st\<lparr>st_systemd := (st_systemd st)\<lparr>unitname := Some v\<rparr>, has_systemd := True\<rparr>"
| "assign st (SystemdUnitpath, v) =
     st\<lparr>st_systemd := (st_systemd st)\<lparr>unitpath := Some v\<rparr>, has_systemd := True\<rparr>"

lemma field_prefix_no_colon:
  "field_prefix f = (d, k) \<Longrightarrow> CHR '':'' \<notin> set d \<and> CHR '':'' \<notin> set k"
  by (cases f) auto

lemma splitn_render_component:
  "field_prefix f = (d, k) \<Longrightarrow> splitn 3 CHR '':'' (render_component (f, v)) = [d, k, v]"
  using field_prefix_no_colon by (simp add: render_component_def splitn_three)

lemma render_component_nonempty [simp]: "render_component c \<noteq> []"
  by (cases c; cases "fst c") (auto simp: render_component_def)

lemma field_prefix_inject: "field_prefix f = field_prefix g \<longleftrightarrow> f = g"
  by (cases f; cases g) auto

lemma render_component_inject [simp]: "render_component c = render_component c' \<longleftrightarrow> c = c'"
proof
  assume eq: "render_component c = render_component c'"
  obtain f v g w where c: "c = (f, v)" "c' = (g, w)" by (cases c; cases c')
  obtain d k e l where p: "field_prefix f = (d, k)" "field_prefix g = (e, l)" by force
  from eq have "[d, k, v] = [e, l, w]"
    using splitn_render_component [OF p(1), of v] splitn_render_component [OF p(2), of w] c by simp
  with p have "field_prefix f = field_prefix g" "v = w" by simp_all
  then show "c = c'" by (simp add: c field_prefix_inject)
qed simp

lemma parse_part_component:
  assumes "trim p = render_component (f, v)"
  shows "parse_part st p = Inr (assign st (f, v))"
proof -
  obtain d k where dk: "field_prefix f = (d, k)" by force
  have "splitn 3 CHR '':'' (trim p) = [d, k, v]"
    using splitn_render_component [OF dk] assms by simp
  moreover have "trim p \<noteq> []" using assms by simp
  ultimately show ?thesis using dk by (cases f) (auto simp: parse_part_def Let_def)
qed

lemma parse_part_Inr:
  assumes "parse_part st p = Inr st'" and "trim p \<noteq> []"
  shows "\<exists>f v. trim p = render_component (f, v)"
proof -
  let ?sub = "splitn 3 CHR '':'' (trim p)"
  from assms have "\<not> length ?sub < 3" by (auto simp: parse_part_def Let_def)
  then have "length ?sub = 3" using length_splitn_le [of 3 "CHR '':''" "trim p"] by simp
  then obtain d k v where sub: "?sub = [d, k, v]"
    by (auto simp: numeral_3_eq_3 length_Suc_conv)
  from assms sub have "\<exists>f. field_prefix f = (d, k)"
    by (auto simp: parse_part_def Let_def split: if_splits intro: field_prefix.simps)
  then obtain f where "field_prefix f = (d, k)" ..
  then have "trim p = render_component (f, v)"
    using splitn_three_inv(1) [OF sub] by (simp add: render_component_def)
  then show ?thesis by blast
qed

lemma parse_part_empty: "trim p = [] \<Longrightarrow> parse_part st p = Inr st"
  by (simp add: parse_part_def)

lemma parse_parts_components:
  "parse_parts st ps = Inr st' \<longleftrightarrow>
     (\<exists>cs. filter (\<lambda>p. p \<noteq> []) (map trim ps) = map render_component cs \<and> st' = foldl assign st cs)"
proof (induction ps arbitrary: st)
  case Nil
  then show ?case by auto
next
  case (Cons p ps)
  show ?case
  proof (cases "trim p = []")
    case True
    with Cons show ?thesis by (simp add: parse_part_empty)
  next
    case ne: False
    show ?thesis
    proof (cases "\<exists>f v. trim p = render_component (f, v)")
      case True
      then obtain f v where fv: "trim p = render_component (f, v)" by blast
      from Cons.IH [of "assign st (f, v)"] fv ne show ?thesis
        by (auto simp: parse_part_component [OF fv] Cons_eq_map_conv)
    next
      case False
      with ne parse_part_Inr have "\<nexists>st'. parse_part st p = Inr st'" by blast
      moreover from False have "\<nexists>cs. trim p # filter (\<lambda>p. p \<noteq> []) (map trim ps) = map render_component cs"
        by (auto simp: Cons_eq_map_conv)
      ultimately show ?thesis using ne by auto
    qed
  qed
qed

section \<open>The parser implements the specification\<close>

lemma foldl_assign:
  "foldl assign sel_init cs =
     \<lparr>st_unix = \<lparr>user = map_of (rev cs) UnixUser, group = map_of (rev cs) UnixGroup,
                 bin_path = map_of (rev cs) UnixBin\<rparr>,
      st_systemd = \<lparr>unitpath = map_of (rev cs) SystemdUnitpath,
                    unitname = map_of (rev cs) SystemdUnitname\<rparr>,
      has_unix = (map_of (rev cs) UnixUser \<noteq> None \<or> map_of (rev cs) UnixGroup \<noteq> None
                  \<or> map_of (rev cs) UnixBin \<noteq> None),
      has_systemd = (map_of (rev cs) SystemdUnitname \<noteq> None
                  \<or> map_of (rev cs) SystemdUnitpath \<noteq> None)\<rparr>"
proof (induction cs rule: rev_induct)
  case Nil
  then show ?case by (simp add: sel_init_def unix_default_def systemd_default_def)
next
  case (snoc c cs)
  obtain f v where "c = (f, v)" by force
  with snoc show ?case by (cases f) simp_all
qed

lemma map_of_rev_None: "map_of (rev cs) f = None \<longleftrightarrow> f \<notin> fst ` set cs"
  by (simp add: map_of_eq_None_iff)

lemma parse_selector_Inr:
  "parse_selector p = Inr sel \<longleftrightarrow>
     (\<exists>cs. selector_parts (pol_selector p) = map render_component cs
         \<and> bin_has_owner cs \<and> sel = selector_of cs)"
proof -
  have bin: "(bin_path (st_unix (foldl assign sel_init cs)) \<noteq> None \<and>
      (user (st_unix (foldl assign sel_init cs)) = None \<or>
       group (st_unix (foldl assign sel_init cs)) = None)) = (\<not> bin_has_owner cs)" for cs
    unfolding foldl_assign bin_has_owner_def using map_of_rev_None [of cs] by simp
  have res: "\<lparr>unix = (if has_unix (foldl assign sel_init cs)
                 then Some (st_unix (foldl assign sel_init cs)) else None),
       systemd = (if has_systemd (foldl assign sel_init cs)
                 then Some (st_systemd (foldl assign sel_init cs)) else None)\<rparr> = selector_of cs" for cs
    by (auto simp: foldl_assign selector_of_def Let_def)
  have "parse_selector p = Inr sel \<longleftrightarrow>
      (\<exists>cs. selector_parts (pol_selector p) = map render_component cs \<and>
        (let st = foldl assign sel_init cs; ux = st_unix st in
         if bin_path ux \<noteq> None \<and> (user ux = None \<or> group ux = None) then Inl bin_needs_owner
         else Inr \<lparr>unix = (if has_unix st then Some ux else None),
                   systemd = (if has_systemd st then Some (st_systemd st) else None)\<rparr>) = Inr sel)"
    by (auto simp: parse_selector_def parse_parts_components selector_parts_def Let_def)
  also have "\<dots> \<longleftrightarrow> (\<exists>cs. selector_parts (pol_selector p) = map render_component cs \<and>
        (if \<not> bin_has_owner cs then Inl bin_needs_owner else Inr (selector_of cs)) = Inr sel)"
    by (simp only: Let_def bin res)
  finally show ?thesis by auto
qed

text \<open>
  C23: A selector string is accepted exactly when every non-empty trimmed part is one of the five
  component forms and a binary path comes with a user and a group, whatever the order of the
  parts; the result holds for each field the last value assigned to it, and a domain is present
  exactly when one of its fields is assigned.
\<close>
theorem parse_selector_correct:
  "parse_selector p = Inr sel \<longleftrightarrow>
     (\<exists>cs. selector_parts (pol_selector p) = map render_component cs
         \<and> bin_has_owner cs \<and> sel = selector_of cs)"
  by (rule parse_selector_Inr)

lemma parse_selector_bin_owner:
  assumes "parse_selector p = Inr sel" and "unix sel = Some u" and "bin_path u \<noteq> None"
  shows "user u \<noteq> None \<and> group u \<noteq> None"
  using assms
  by (auto simp: parse_selector_def Let_def split: if_splits)

text \<open>A string without components, such as the empty string, parses to a selector without domains.\<close>

lemma parse_selector_no_parts:
  "selector_parts (pol_selector p) = [] \<Longrightarrow> parse_selector p = Inr \<lparr>unix = None, systemd = None\<rparr>"
  using parse_selector_Inr [of p "\<lparr>unix = None, systemd = None\<rparr>"]
  by (auto simp: bin_has_owner_def selector_of_def intro!: exI [of _ "[]"])

section \<open>Errors\<close>

definition bad_component :: "string \<Rightarrow> anyhow" where
  "bad_component part =
     (if length (splitn 3 CHR '':'' part) < 3
      then Msg (''Invalid selector component: '' @ quoted part)
      else Msg (''Unknown selector component: '' @ quoted part))"

lemma parse_part_bad:
  assumes "trim p \<noteq> []" and "\<nexists>c. trim p = render_component c"
  shows "parse_part st p = Inl (bad_component (trim p))"
proof -
  have "\<nexists>st'. parse_part st p = Inr st'"
    using assms parse_part_Inr by (metis surj_pair)
  then show ?thesis
    by (auto simp: parse_part_def bad_component_def Let_def split: if_splits)
qed

lemma parse_parts_bad:
  assumes "filter (\<lambda>p. p \<noteq> []) (map trim ps) = map render_component cs @ bad # rest"
    and "\<nexists>c. bad = render_component c"
  shows "parse_parts st ps = Inl (bad_component bad)"
  using assms(1)
proof (induction ps arbitrary: st cs)
  case Nil
  then show ?case by simp
next
  case (Cons p ps)
  show ?case
  proof (cases "trim p = []")
    case True
    with Cons show ?thesis by (simp add: parse_part_empty)
  next
    case ne: False
    show ?thesis
    proof (cases cs)
      case Nil
      with Cons.prems ne have "trim p = bad" by simp
      with assms(2) ne parse_part_bad show ?thesis by (metis parse_parts.simps(2) rbind_simps(1))
    next
      case (Cons c cs')
      then obtain f v where "trim p = render_component (f, v)"
        and "filter (\<lambda>p. p \<noteq> []) (map trim ps) = map render_component cs' @ bad # rest"
        using Cons.prems ne by (cases c) auto
      with Cons.IH show ?thesis by (simp add: parse_part_component)
    qed
  qed
qed

text \<open>
  The first part that is not a component is what the error names: a part with fewer than two
  colons is reported as invalid, any other as unknown.
\<close>
theorem parse_selector_first_error:
  assumes "selector_parts (pol_selector p) = map render_component cs @ bad # rest"
    and "\<nexists>c. bad = render_component c"
  shows "parse_selector p = Inl (bad_component bad)"
  using parse_parts_bad [OF assms(1) [unfolded selector_parts_def] assms(2)]
  by (simp add: parse_selector_def)

lemma render_component_two_colons: "2 \<le> length (filter (\<lambda>x. x = CHR '':'') (render_component c))"
  by (cases c; cases "fst c") (simp_all add: render_component_def)

lemma sample_trims: "trim ''oops'' = ''oops''" "trim ''x'' = ''x''"
  by (rule trim_trimmed, simp add: trimmed_def ws_encodings_def starts_with_def)+

theorem parse_selector_first_error_witness:
  "parse_selector \<lparr>pol_selector = ''oops,x'', ttl_minutes = 1\<rparr> = Inl (bad_component ''oops'')"
proof (rule parse_selector_first_error [of _ "[]" _ "[''x'']"])
  show "\<nexists>c. ''oops'' = render_component c"
  proof
    assume "\<exists>c. ''oops'' = render_component c"
    then obtain c where "''oops'' = render_component c" by blast
    with render_component_two_colons [of c] show False by (auto dest: sym)
  qed
qed (simp add: selector_parts_def sample_trims)

section \<open>Printing and parsing\<close>

text \<open>The string form of a parsed selector, its components in the order of the struct.\<close>

definition opt_component :: "sel_field \<Rightarrow> string option \<Rightarrow> (sel_field \<times> string) list" where
  "opt_component f v = (case v of None \<Rightarrow> [] | Some x \<Rightarrow> [(f, x)])"

definition assignments :: "selector_config \<Rightarrow> (sel_field \<times> string) list" where
  "assignments sel =
     (case unix sel of None \<Rightarrow> []
      | Some u \<Rightarrow> opt_component UnixUser (user u) @ opt_component UnixGroup (group u)
                  @ opt_component UnixBin (bin_path u)) @
     (case systemd sel of None \<Rightarrow> []
      | Some d \<Rightarrow> opt_component SystemdUnitname (unitname d)
                  @ opt_component SystemdUnitpath (unitpath d))"

definition render_selector :: "selector_config \<Rightarrow> string" where
  "render_selector sel = join CHR '','' (map render_component (assignments sel))"

text \<open>
  What a selector from a string looks like: a domain that is present has a field, and a binary
  path has its owner. A value survives the round trip when it has no comma and no white space
  at its end.
\<close>

definition sel_wf :: "selector_config \<Rightarrow> bool" where
  "sel_wf sel \<longleftrightarrow> unix sel \<noteq> Some unix_default \<and> systemd sel \<noteq> Some systemd_default \<and>
     (\<forall>u. unix sel = Some u \<longrightarrow> bin_path u \<noteq> None \<longrightarrow> user u \<noteq> None \<and> group u \<noteq> None)"

definition clean_value :: "string \<Rightarrow> bool" where
  "clean_value v \<longleftrightarrow> CHR '','' \<notin> set v \<and> (\<forall>w \<in> set ws_encodings. \<not> starts_with (rev w) (rev v))"

lemma map_of_opt_component [simp]:
  "map_of (rev (opt_component f v)) g = (if g = f then v else None)"
  by (simp add: opt_component_def split: option.splits)

lemma map_of_assignments:
  "map_of (rev (assignments sel)) UnixUser = Option.bind (unix sel) user"
  "map_of (rev (assignments sel)) UnixGroup = Option.bind (unix sel) group"
  "map_of (rev (assignments sel)) UnixBin = Option.bind (unix sel) bin_path"
  "map_of (rev (assignments sel)) SystemdUnitname = Option.bind (systemd sel) unitname"
  "map_of (rev (assignments sel)) SystemdUnitpath = Option.bind (systemd sel) unitpath"
  by (auto simp: assignments_def map_add_def split: option.splits)

lemma unix_eq_default:
  "u = unix_default \<longleftrightarrow> user u = None \<and> group u = None \<and> bin_path u = None"
  by (cases u) (simp add: unix_default_def)

lemma systemd_eq_default: "d = systemd_default \<longleftrightarrow> unitname d = None \<and> unitpath d = None"
  by (cases d) (auto simp: systemd_default_def)

lemma selector_of_assignments:
  assumes "sel_wf sel"
  shows "selector_of (assignments sel) = sel"
proof -
  have "unix (selector_of (assignments sel)) = unix sel"
    using assms
    by (cases "unix sel") (auto simp: selector_of_def Let_def map_of_assignments sel_wf_def unix_eq_default)
  moreover have "systemd (selector_of (assignments sel)) = systemd sel"
    using assms
    by (cases "systemd sel")
      (auto simp: selector_of_def Let_def map_of_assignments sel_wf_def systemd_eq_default)
  ultimately show ?thesis by (cases sel) (simp add: selector_of_def Let_def)
qed

lemma bin_has_owner_assignments: "sel_wf sel \<Longrightarrow> bin_has_owner (assignments sel)"
  by (cases "unix sel"; cases "systemd sel")
    (auto simp: sel_wf_def bin_has_owner_def assignments_def opt_component_def split: option.splits)

lemma ws_encodings_no_colon: "w \<in> set ws_encodings \<Longrightarrow> CHR '':'' \<notin> set w"
  by (simp add: ws_encodings_def) (elim disjE; simp)

lemma ws_encodings_first: "w \<in> set ws_encodings \<Longrightarrow> w \<noteq> [] \<and> hd w \<noteq> CHR ''u'' \<and> hd w \<noteq> CHR ''s''"
  by (simp add: ws_encodings_def) (elim disjE; simp)

lemma trimmed_component:
  assumes "clean_value v"
  shows "trimmed (render_component (f, v))"
proof -
  obtain pre where pre: "render_component (f, v) = pre @ CHR '':'' # v"
    by (cases f) (auto simp: render_component_def intro: that [of "_ @ _ # _"] that)
  have first: "hd (render_component (f, v)) \<in> {CHR ''u'', CHR ''s''}"
    by (cases f) (simp_all add: render_component_def)
  have "\<not> starts_with w (render_component (f, v))" if "w \<in> set ws_encodings" for w
    using ws_encodings_first [OF that] first by (cases w) (auto dest!: starts_withD)
  moreover have "\<not> starts_with (rev w) (rev (pre @ CHR '':'' # v))" if w: "w \<in> set ws_encodings" for w
  proof
    assume "starts_with (rev w) (rev (pre @ CHR '':'' # v))"
    then have take: "take (length w) (rev v @ CHR '':'' # rev pre) = rev w"
      by (simp add: starts_with_def)
    show False
    proof (cases "length w \<le> length v")
      case True
      with take have "starts_with (rev w) (rev v)" by (simp add: starts_with_def)
      with assms w show False by (simp add: clean_value_def)
    next
      case False
      then have "CHR '':'' \<in> set (take (length w) (rev v @ CHR '':'' # rev pre))"
        by (simp add: take_Cons')
      with take ws_encodings_no_colon [OF w] show False by (metis set_rev)
    qed
  qed
  ultimately show ?thesis by (simp add: trimmed_def pre)
qed

lemma render_component_no_comma: "clean_value v \<Longrightarrow> CHR '','' \<notin> set (render_component (f, v))"
  by (cases f) (auto simp: render_component_def clean_value_def)

lemma selector_parts_render:
  assumes "\<forall>(f, v) \<in> set cs. clean_value v"
  shows "selector_parts (join CHR '','' (map render_component cs)) = map render_component cs"
proof (cases "cs = []")
  case True
  have "trim [] = []" using set_trim [of "[]"] by simp
  with True show ?thesis by (simp add: selector_parts_def)
next
  case False
  from assms have "\<forall>p \<in> set (map render_component cs). CHR '','' \<notin> set p"
    using render_component_no_comma by fastforce
  with False have "split_on CHR '','' (join CHR '','' (map render_component cs)) = map render_component cs"
    by (simp add: split_on_join)
  moreover from assms have "map trim (map render_component cs) = map render_component cs"
    using trim_trimmed trimmed_component by fastforce
  ultimately show ?thesis by (simp add: selector_parts_def del: map_map)
qed

text \<open>
  C24: Printing a well-formed selector and parsing the string gives the selector back: the
  string form of the host configuration loses nothing.
\<close>
theorem parse_render_selector:
  assumes "sel_wf sel" and "\<forall>(f, v) \<in> set (assignments sel). clean_value v"
    and "pol_selector p = render_selector sel"
  shows "parse_selector p = Inr sel"
  unfolding parse_selector_Inr
  using assms selector_parts_render [OF assms(2)]
  by (auto simp: render_selector_def selector_of_assignments bin_has_owner_assignments
      intro!: exI [of _ "assignments sel"])

definition sample_selector :: selector_config where
  "sample_selector =
     \<lparr>unix = Some \<lparr>user = Some ''alice'', group = None, bin_path = None\<rparr>,
      systemd = Some \<lparr>unitpath = None, unitname = Some ''db:1''\<rparr>\<rparr>"

theorem parse_render_selector_witness:
  "parse_selector \<lparr>pol_selector = render_selector sample_selector, ttl_minutes = 1\<rparr> = Inr sample_selector"
  by (rule parse_render_selector)
    (simp_all add: sample_selector_def sel_wf_def unix_default_def systemd_default_def
      assignments_def opt_component_def clean_value_def ws_encodings_def starts_with_def)

section \<open>Validated configurations\<close>

definition selectors_ok :: "host_config \<Rightarrow> bool" where
  "selectors_ok cfg \<longleftrightarrow>
     (\<forall>(vm_name, vm) \<in> set (vms cfg). \<forall>(name, policy) \<in> set (identities vm).
        \<exists>sel. parse_selector policy = Inr sel)"

lemma validate_identities_ok:
  "validate_identities vm_name ids = Inr () \<longleftrightarrow>
     (\<forall>(name, policy) \<in> set ids. \<exists>sel. parse_selector policy = Inr sel)"
  by (induction ids) auto

lemma validate_vms_ok: "validate_vms ms = Inr () \<longleftrightarrow>
    (\<forall>(vm_name, vm) \<in> set ms. \<forall>(name, policy) \<in> set (identities vm).
        \<exists>sel. parse_selector policy = Inr sel)"
  by (induction ms) (auto simp: validate_identities_ok)

lemma host_config_from_file_Inr:
  "host_config_from_file read_file parse_json path = Inr cfg \<longleftrightarrow>
     (\<exists>data. read_file path = Inr data \<and> parse_json data = Inr cfg)
     \<and> unat (server_port cfg) < 1000 \<and> selectors_ok cfg"
proof -
  have port: "server_port c \<ge> 1000 \<longleftrightarrow> \<not> unat (server_port c) < 1000" for c
    by (simp add: word_le_nat_alt not_less)
  have "selectors_ok cfg \<longleftrightarrow> validate_vms (vms cfg) = Inr ()"
    by (simp add: selectors_ok_def validate_vms_ok)
  then show ?thesis by (auto simp: host_config_from_file_def port split: if_splits)
qed

text \<open>
  C25: A host configuration is loaded exactly when the file is readable, is the JSON of it, has a
  server port below 1000 and only selectors that parse: the daemon never runs with a
  configuration that fails one of its checks.
\<close>
theorem host_config_from_file_correct:
  "host_config_from_file read_file parse_json path = Inr cfg \<longleftrightarrow>
     (\<exists>data. read_file path = Inr data \<and> parse_json data = Inr cfg)
     \<and> unat (server_port cfg) < 1000 \<and> selectors_ok cfg"
  by (rule host_config_from_file_Inr)

end
