(* ===== verification/Policy.thy ===== *)
theory Policy imports Host_Config begin

text \<open>
  Policy lookup (\<^verbatim>\<open>apps/rust-apps/authn-scope-server/src/policy.rs\<close>). The locale
  \<open>policy_oracle\<close> is the interface the connection handler relies on: what the answer of a lookup
  says about the registrations of the configuration.
\<close>

record policy_decision =
  dec_vm_name :: string
  dec_vm_cid :: u32
  dec_ip :: "string option"
  dec_validity_seconds :: u32

definition resolve ::
  "bool \<Rightarrow> host_config \<Rightarrow> string \<Rightarrow> string \<Rightarrow> policy_decision option result" where
  "resolve checks config vm_name identity =
     (case map_of (vms config) vm_name of
        None \<Rightarrow> Inr None
      | Some vm_entry \<Rightarrow>
          (case map_of (identities vm_entry) identity of
             None \<Rightarrow> Inr None
           | Some policy \<Rightarrow>
               rbind (mul_u32 checks (ttl_minutes policy) 60) (\<lambda>validity.
               Inr (Some \<lparr>dec_vm_name = vm_name, dec_vm_cid = vm_cid vm_entry,
                          dec_ip = vm_ip vm_entry, dec_validity_seconds = validity\<rparr>))))"

section \<open>Registrations\<close>

text \<open>
  The specification: identity \<open>ident\<close> with policy \<open>pol\<close> is registered under the name \<open>vm\<close> of a
  machine with context identifier \<open>cid\<close> and address \<open>ip\<close>.
\<close>

definition registration ::
  "host_config \<Rightarrow> string \<Rightarrow> string \<Rightarrow> (u32 \<times> string option \<times> identity_policy) option" where
  "registration cfg vm ident =
     Option.bind (map_of (vms cfg) vm) (\<lambda>entry.
       map_option (\<lambda>pol. (vm_cid entry, vm_ip entry, pol)) (map_of (identities entry) ident))"

definition registered :: "host_config \<Rightarrow> string \<Rightarrow> string \<Rightarrow> u32 \<Rightarrow> bool" where
  "registered cfg vm ident cid \<longleftrightarrow> (\<exists>ip pol. registration cfg vm ident = Some (cid, ip, pol))"

locale policy_oracle =
  fixes ask :: "string \<Rightarrow> string \<Rightarrow> 'd option result"
    and cid_of :: "'d \<Rightarrow> u32"
    and reg :: "string \<Rightarrow> string \<Rightarrow> u32 \<Rightarrow> bool"
  assumes ask_Some: "ask vm ident = Inr (Some d) \<Longrightarrow> reg vm ident (cid_of d)"
    and ask_None: "ask vm ident = Inr None \<longleftrightarrow> (\<forall>c. \<not> reg vm ident c)"
    and ask_never_bails: "ask vm ident \<noteq> Inl (Bail e)"
    and reg_functional: "reg vm ident c \<Longrightarrow> reg vm ident c' \<Longrightarrow> c = c'"
begin

text \<open>The handler's check: a decision whose identifier is the peer's.\<close>

lemma admitted_registered: "ask vm ident = Inr (Some d) \<Longrightarrow> cid_of d = peer \<Longrightarrow> reg vm ident peer"
  using ask_Some by blast

lemma admitted_iff:
  "ask vm ident \<noteq> Inl Panic \<Longrightarrow>
    (\<exists>d. ask vm ident = Inr (Some d) \<and> cid_of d = peer) \<longleftrightarrow> reg vm ident peer"
proof
  assume "ask vm ident \<noteq> Inl Panic" and r: "reg vm ident peer"
  moreover from r have "ask vm ident \<noteq> Inr None" by (simp add: ask_None) blast
  ultimately obtain d where d: "ask vm ident = Inr (Some d)"
    using ask_never_bails by (cases "ask vm ident") (auto, metis fault.exhaust)
  with r ask_Some reg_functional show "\<exists>d. ask vm ident = Inr (Some d) \<and> cid_of d = peer" by blast
qed (use ask_Some in blast)

lemma impostor_refused:
  "ask vm ident = Inr (Some d) \<Longrightarrow> \<not> reg vm ident peer \<Longrightarrow> cid_of d \<noteq> peer"
  using ask_Some by blast

end

lemma resolve_registration:
  "resolve checks cfg vm ident =
     (case registration cfg vm ident of
        None \<Rightarrow> Inr None
      | Some (cid, ip, pol) \<Rightarrow>
          rbind (mul_u32 checks (ttl_minutes pol) 60) (\<lambda>validity.
          Inr (Some \<lparr>dec_vm_name = vm, dec_vm_cid = cid, dec_ip = ip,
                     dec_validity_seconds = validity\<rparr>)))"
  by (auto simp: resolve_def registration_def split: option.splits)

lemma mul_u32_not_Bail [simp]: "mul_u32 checks a b \<noteq> Inl (Bail e)"
  by (simp add: mul_u32_def)

interpretation pol: policy_oracle "resolve checks cfg" dec_vm_cid "registered cfg"
proof unfold_locales
  fix vm ident d
  assume "resolve checks cfg vm ident = Inr (Some d)"
  then show "registered cfg vm ident (dec_vm_cid d)"
    by (auto simp: resolve_registration registered_def split: option.splits)
next
  fix vm ident
  show "resolve checks cfg vm ident = Inr None \<longleftrightarrow> (\<forall>c. \<not> registered cfg vm ident c)"
    by (auto simp: resolve_registration registered_def split: option.splits)
next
  fix vm ident e
  show "resolve checks cfg vm ident \<noteq> Inl (Bail e)"
    by (auto simp: resolve_registration rbind_eq_Inl split: option.splits)
next
  fix vm ident c c'
  assume "registered cfg vm ident c" "registered cfg vm ident c'"
  then show "c = c'" by (auto simp: registered_def)
qed

section \<open>Lookup results\<close>

lemma unat_mul_60: "unat (t * 60 :: u32) = (60 * unat t) mod 2 ^ 32"
  by (simp add: unat_word_ariths mult.commute)

lemma mul_u32_60:
  "mul_u32 checks t 60 = Inr v \<longleftrightarrow>
     unat v = (60 * unat t) mod 2 ^ 32 \<and> (checks \<longrightarrow> 60 * unat t < 2 ^ 32)"
proof -
  have "v = t * 60 \<longleftrightarrow> unat v = (60 * unat t) mod 2 ^ 32"
    by (simp only: word_unat_eq_iff unat_mul_60)
  moreover have "unat t * unat (60 :: u32) = 60 * unat t" by simp
  ultimately show ?thesis unfolding mul_u32_def by (auto simp only: not_le split: if_splits)
qed

lemma mul_u32_60_panic: "mul_u32 checks t 60 = Inl Panic \<longleftrightarrow> checks \<and> 2 ^ 32 \<le> 60 * unat t"
  by (simp add: mul_u32_def mult.commute)

text \<open>
  A lookup answers exactly for registered pairs and copies the machine's name, identifier
  and address; the validity is the policy's minutes in seconds modulo \<open>2^32\<close>, and with overflow
  checks a wrapped value is never returned.
\<close>
theorem resolve_correct:
  "resolve checks cfg vm ident = Inr (Some d) \<longleftrightarrow>
     (\<exists>pol. registration cfg vm ident = Some (dec_vm_cid d, dec_ip d, pol) \<and> dec_vm_name d = vm
        \<and> unat (dec_validity_seconds d) = (60 * unat (ttl_minutes pol)) mod 2 ^ 32
        \<and> (checks \<longrightarrow> 60 * unat (ttl_minutes pol) < 2 ^ 32))"
  unfolding mul_u32_60 [symmetric]
  by (cases d) (auto simp: resolve_registration split: option.splits)

text \<open>
  C30: Lifetimes of up to 71582788 minutes (about 136 years) are exact in either build; one
  minute more, which the configuration loader accepts, gives a certificate of 44 seconds in a
  release build and a panic in a debug build.
\<close>
theorem resolve_ttl_wraps:
  assumes "registration cfg vm ident = Some (cid, ip, pol)"
  shows "(unat (ttl_minutes pol) \<le> 71582788 \<longrightarrow>
      (\<exists>d. resolve checks cfg vm ident = Inr (Some d)
        \<and> unat (dec_validity_seconds d) = 60 * unat (ttl_minutes pol)))
    \<and> (ttl_minutes pol = 71582789 \<longrightarrow>
      (\<exists>d. resolve False cfg vm ident = Inr (Some d) \<and> dec_validity_seconds d = 44)
      \<and> resolve True cfg vm ident = Inl Panic)"
proof (intro conjI impI)
  assume "unat (ttl_minutes pol) \<le> 71582788"
  then have "60 * unat (ttl_minutes pol) < 2 ^ 32" by simp
  then have "mul_u32 checks (ttl_minutes pol) 60 = Inr (ttl_minutes pol * 60)"
    and "unat (ttl_minutes pol * 60) = 60 * unat (ttl_minutes pol)"
    unfolding mul_u32_60 unat_mul_60 by simp_all
  with assms show "\<exists>d. resolve checks cfg vm ident = Inr (Some d)
      \<and> unat (dec_validity_seconds d) = 60 * unat (ttl_minutes pol)"
    by (simp add: resolve_registration)
qed (use assms in \<open>auto simp: resolve_registration mul_u32_def\<close>)

definition sample_policy :: identity_policy where
  "sample_policy = \<lparr>pol_selector = ''unix:user:alice'', ttl_minutes = 71582789\<rparr>"

definition sample_config :: host_config where
  "sample_config =
     \<lparr>ca_cert_path = ''/ca.crt'', ca_key_path = ''/ca.key'', server_port = 900,
      vms = [(''vm'', \<lparr>vm_cid = 3, vm_ip = None, identities = [(''service-a'', sample_policy)]\<rparr>)],
      peer_port = 901\<rparr>"

theorem resolve_ttl_wraps_witness:
  "\<exists>d. resolve False sample_config ''vm'' ''service-a'' = Inr (Some d) \<and> dec_validity_seconds d = 44"
  using resolve_ttl_wraps [of sample_config "''vm''" "''service-a''" 3 None sample_policy False]
  by (simp add: sample_config_def registration_def) (simp add: sample_policy_def)

theorem resolve_correct_witness:
  "resolve False sample_config ''vm'' ''service-a'' =
     Inr (Some \<lparr>dec_vm_name = ''vm'', dec_vm_cid = 3, dec_ip = None, dec_validity_seconds = 44\<rparr>)"
  unfolding resolve_correct by (simp add: registration_def sample_config_def) (simp add: sample_policy_def)

end
