(* ===== verification/Host_Fs.thy ===== *)
theory Host_Fs imports Rust_Str begin

text \<open>
  The file operations of \<^verbatim>\<open>std::fs\<close> that the program uses, on a store of files with contents and
  permission bits. Each operation consults a fault oracle, so that every operation of a run may
  fail independently of the others; a failing write may leave a truncated file behind. The field
  \<open>history\<close> records the store after every operation: what another process could have seen.
\<close>

record stored_file =
  content :: string
  mode :: nat

text \<open>
  A fault is the operating system's message and, for a write that got as far as truncating the
  file, how many characters reached it. New files get the mode \<open>new_mode\<close> (0666 without the umask).
\<close>

record fs =
  files :: "string \<Rightarrow> stored_file option"
  new_mode :: nat
  op_no :: nat
  faults :: "nat \<Rightarrow> (string \<times> nat option) option"
  history :: "(string \<Rightarrow> stored_file option) list"

definition enoent :: string where
  "enoent = ''No such file or directory (os error 2)''"

text \<open>The next operation's number, store and result; the store is appended to the history.\<close>

definition fs_done :: "(string \<Rightarrow> stored_file option) \<Rightarrow> 'r \<Rightarrow> fs \<Rightarrow> fs \<times> 'r" where
  "fs_done store r w =
     (w\<lparr>files := store, op_no := Suc (op_no w), history := history w @ [store]\<rparr>, r)"

definition fs_fault :: "fs \<Rightarrow> (string \<times> nat option) option" where
  "fs_fault w = faults w (op_no w)"

definition fs_read_to_string :: "string \<Rightarrow> (fs, string, string) eio" where
  "fs_read_to_string path w =
     fs_done (files w)
       (case fs_fault w of
          Some (e, n) \<Rightarrow> Inl e
        | None \<Rightarrow> (case files w path of None \<Rightarrow> Inl enoent | Some f \<Rightarrow> Inr (content f))) w"

text \<open>\<open>Path::exists\<close> answers false when the file cannot be inspected.\<close>

definition fs_exists :: "string \<Rightarrow> (fs, 'e, bool) eio" where
  "fs_exists path w = fs_done (files w) (Inr (fs_fault w = None \<and> files w path \<noteq> None)) w"

definition fs_remove_file :: "string \<Rightarrow> (fs, string, unit) eio" where
  "fs_remove_file path w =
     (case fs_fault w of
        Some (e, n) \<Rightarrow> fs_done (files w) (Inl e) w
      | None \<Rightarrow> (case files w path of
            None \<Rightarrow> fs_done (files w) (Inl enoent) w
          | Some f \<Rightarrow> fs_done ((files w)(path := None)) (Inr ()) w))"

text \<open>Directories are not part of the store: creating them succeeds or fails.\<close>

definition fs_create_dir_all :: "string \<Rightarrow> (fs, string, unit) eio" where
  "fs_create_dir_all path w =
     fs_done (files w) (case fs_fault w of Some (e, n) \<Rightarrow> Inl e | None \<Rightarrow> Inr ()) w"

definition mode_for_write :: "fs \<Rightarrow> string \<Rightarrow> nat" where
  "mode_for_write w path = (case files w path of None \<Rightarrow> new_mode w | Some f \<Rightarrow> mode f)"

definition fs_write :: "string \<Rightarrow> string \<Rightarrow> (fs, string, unit) eio" where
  "fs_write path text w =
     (let put = (\<lambda>t. (files w)(path := Some \<lparr>content = t, mode = mode_for_write w path\<rparr>)) in
      case fs_fault w of
        Some (e, None) \<Rightarrow> fs_done (files w) (Inl e) w
      | Some (e, Some n) \<Rightarrow> fs_done (put (take n text)) (Inl e) w
      | None \<Rightarrow> fs_done (put text) (Inr ()) w)"

definition fs_set_permissions :: "string \<Rightarrow> nat \<Rightarrow> (fs, string, unit) eio" where
  "fs_set_permissions path m w =
     (case fs_fault w of
        Some (e, n) \<Rightarrow> fs_done (files w) (Inl e) w
      | None \<Rightarrow> (case files w path of
            None \<Rightarrow> fs_done (files w) (Inl enoent) w
          | Some f \<Rightarrow> fs_done ((files w)(path := Some (f\<lparr>mode := m\<rparr>))) (Inr ()) w))"

text \<open>
  \<open>Path::parent\<close>, as far as whether there is one: a path has a parent when it has a component
  beyond the root. Components are the non-empty pieces between slashes; a dot counts only as the
  first piece of a relative path. The parent itself is used for creating directories only.
\<close>

definition path_components :: "string \<Rightarrow> string list" where
  "path_components p =
     (case split_on CHR ''/'' p of
        [] \<Rightarrow> []
      | c # cs \<Rightarrow> (if c = [] then [] else [c]) @ filter (\<lambda>x. x \<noteq> [] \<and> x \<noteq> ''.'') cs)"

definition path_parent :: "string \<Rightarrow> string option" where
  "path_parent p =
     (case path_components p of
        [] \<Rightarrow> None
      | c # cs \<Rightarrow> Some ((if starts_with ''/'' p then ''/'' else []) @ join CHR ''/'' (butlast (c # cs))))"

lemmas fs_op_defs = fs_read_to_string_def fs_exists_def fs_remove_file_def fs_create_dir_all_def
  fs_write_def fs_set_permissions_def fs_done_def fs_fault_def

text \<open>No operation changes the oracle or the mode of new files; each extends the history.\<close>

definition fs_ext :: "fs \<Rightarrow> fs \<Rightarrow> bool" where
  "fs_ext w w' \<longleftrightarrow> new_mode w' = new_mode w \<and> faults w' = faults w \<and> op_no w \<le> op_no w'
     \<and> (\<exists>h. history w' = history w @ h)"

lemma fs_ext_refl [simp]: "fs_ext w w"
  by (simp add: fs_ext_def)

lemma fs_ext_trans: "fs_ext a b \<Longrightarrow> fs_ext b c \<Longrightarrow> fs_ext a c"
  by (auto simp: fs_ext_def)

lemma fs_done_ext: "fs_done store r w = (w', r') \<Longrightarrow> fs_ext w w' \<and> files w' = store \<and> r' = r"
  by (auto simp: fs_done_def fs_ext_def)

text \<open>What each operation did when it succeeded.\<close>

lemma fs_read_to_string_Inr: "fs_read_to_string p w = (w', Inr t) \<Longrightarrow>
    fs_ext w w' \<and> files w' = files w \<and> (\<exists>f. files w p = Some f \<and> content f = t)"
  by (auto simp: fs_read_to_string_def dest!: fs_done_ext split: option.splits prod.splits)

lemma fs_exists_result: "fs_exists p w = (w', r) \<Longrightarrow>
    fs_ext w w' \<and> files w' = files w \<and> (\<exists>b. r = Inr b \<and> (b \<longrightarrow> files w p \<noteq> None))"
  by (auto simp: fs_exists_def dest!: fs_done_ext)

lemma fs_remove_file_result: "fs_remove_file p w = (w', r) \<Longrightarrow>
    fs_ext w w' \<and> (files w' = files w \<or> files w' = (files w)(p := None))"
  by (auto simp: fs_remove_file_def dest!: fs_done_ext split: option.splits prod.splits)

lemma fs_create_dir_all_result: "fs_create_dir_all p w = (w', r) \<Longrightarrow>
    fs_ext w w' \<and> files w' = files w"
  by (auto simp: fs_create_dir_all_def dest!: fs_done_ext split: option.splits prod.splits)

lemma fs_write_Inr: "fs_write p t w = (w', Inr u) \<Longrightarrow>
    fs_ext w w' \<and> files w' = (files w)(p := Some \<lparr>content = t, mode = mode_for_write w p\<rparr>)
    \<and> last (history w') = files w' \<and> history w' \<noteq> []"
  by (auto simp: fs_write_def Let_def fs_done_def fs_ext_def split: option.splits prod.splits)

lemma fs_set_permissions_Inr: "fs_set_permissions p m w = (w', Inr u) \<Longrightarrow>
    fs_ext w w' \<and> (\<exists>f. files w p = Some f \<and> files w' = (files w)(p := Some (f\<lparr>mode := m\<rparr>)))"
  by (auto simp: fs_set_permissions_def dest!: fs_done_ext split: option.splits prod.splits)

end
