(* ===== verification/Pki.thy ===== *)
theory Pki imports Rust_Str begin

text \<open>
  The data and functions of the certificate libraries the program calls (\<^verbatim>\<open>rcgen\<close>,
  \<^verbatim>\<open>rustls-pemfile\<close>, \<^verbatim>\<open>x509-parser\<close>). Their code is not part of the repository: the data is
  what the program reads and writes of it, and the functions are the fields of the parameter
  records \<open>rcgen\<close> and \<open>x509\<close>, about which nothing is assumed here.
\<close>

section \<open>Certificate parameters\<close>

datatype dn_type = CommonName | OrganizationName | OtherDn string
datatype key_usage = DigitalSignature | KeyCertSign | CrlSign | OtherKeyUsage nat
datatype ext_key_usage = ServerAuth | ClientAuth | OtherExtKeyUsage string
datatype basic_constraints = Unconstrained | Constrained u8
datatype is_ca = NoCa | ExplicitNoCa | Ca basic_constraints

text \<open>An IP address is its 4 or 16 bytes.\<close>

datatype san_type = DnsName string | IpAddress "u8 list" | OtherSan string

text \<open>
  The fields of \<^verbatim>\<open>rcgen::CertificateParams\<close> that the program sets, times in seconds since the
  epoch, and \<open>rest_params\<close> for all the fields it never touches.
\<close>

record cert_params =
  distinguished_name :: "(dn_type \<times> string) list"
  is_ca_field :: is_ca
  key_usages :: "key_usage list"
  extended_key_usages :: "ext_key_usage list"
  subject_alt_names :: "san_type list"
  not_before :: int
  not_after :: int
  rest_params :: "u8 list"

text \<open>A parsed signing request: its parameters and the public key it certifies.\<close>

record csr =
  csr_params :: cert_params
  csr_public_key :: "u8 list"

text \<open>The values of the common names of a distinguished name, in order.\<close>

definition common_names :: "(dn_type \<times> string) list \<Rightarrow> string list" where
  "common_names dn = map snd (filter (\<lambda>(t, v). t = CommonName) dn)"

section \<open>The libraries\<close>

text \<open>
  \<open>'k\<close> is the type of key pairs and \<open>'c\<close> that of issued certificates. Key generation is given the
  random seed it draws. Errors are the text the library displays.
\<close>

record ('k, 'c) rcgen =
  generate_for :: "nat \<Rightarrow> string + 'k"
  kp_from_pem :: "string \<Rightarrow> string + 'k"
  kp_serialize_pem :: "'k \<Rightarrow> string"
  kp_serialize_der :: "'k \<Rightarrow> u8 list"
  params_default :: cert_params
  self_signed :: "cert_params \<Rightarrow> 'k \<Rightarrow> string + 'c"
  from_ca_cert_pem :: "string \<Rightarrow> string + cert_params"
  crt_pem :: "'c \<Rightarrow> string"
  crt_der :: "'c \<Rightarrow> u8 list"
  csr_from_pem :: "string \<Rightarrow> string + csr"
  signed_by :: "csr \<Rightarrow> 'c \<Rightarrow> 'k \<Rightarrow> string + 'c"
  serialize_request :: "cert_params \<Rightarrow> 'k \<Rightarrow> string + u8 list"
  request_pem :: "u8 list \<Rightarrow> string + string"
  ia5_string :: "string \<Rightarrow> string + string"
  pem_certs :: "string \<Rightarrow> (string + u8 list) list"

text \<open>What the verifying side reads of a certificate.\<close>

record x509_cert =
  x_public_key :: "u8 list"
  x_common_names :: "string option list"
  x_not_before :: int
  x_not_after :: int

record x509 =
  parse_x509_pem :: "string \<Rightarrow> string + u8 list"
  parse_x509_certificate :: "u8 list \<Rightarrow> string + x509_cert"
  verify_signature :: "x509_cert \<Rightarrow> u8 list \<Rightarrow> string + unit"

end
