(* ===== verification/Samples.thy ===== *)
theory Samples imports Host_Fs Pki begin

text \<open>
  Concrete instances of the parameters, on which the theorems with hypotheses are applied to
  show that their hypotheses can be met together. Nothing else depends on them.
\<close>

definition sample_params :: cert_params where
  "sample_params =
     \<lparr>distinguished_name = [], is_ca_field = NoCa, key_usages = [], extended_key_usages = [],
      subject_alt_names = [], not_before = 0, not_after = 0, rest_params = []\<rparr>"

text \<open>
  Key pairs are strings; a request's text is the common name it asks for; a certificate is the
  signed request, printed as its common name if it has exactly one.
\<close>

definition sample_rcgen :: "(string, csr) rcgen" where
  "sample_rcgen =
     \<lparr>generate_for = (\<lambda>seed. Inr ''key''),
      kp_from_pem = Inr,
      kp_serialize_pem = (\<lambda>k. k),
      kp_serialize_der = (\<lambda>k. [1]),
      params_default = sample_params,
      self_signed = (\<lambda>p k. Inr \<lparr>csr_params = p, csr_public_key = [1]\<rparr>),
      from_ca_cert_pem = (\<lambda>pem. Inr sample_params),
      crt_pem = (\<lambda>c. case common_names (distinguished_name (csr_params c)) of [cn] \<Rightarrow> cn | _ \<Rightarrow> []),
      crt_der = (\<lambda>c. [2]),
      csr_from_pem = (\<lambda>pem. Inr \<lparr>csr_params =
                        sample_params\<lparr>distinguished_name := [(CommonName, pem)]\<rparr>,
                        csr_public_key = [3]\<rparr>),
      signed_by = (\<lambda>c issuer k. Inr c),
      serialize_request = (\<lambda>p k. Inr []),
      request_pem = (\<lambda>der. Inr ''csr''),
      ia5_string = Inr,
      pem_certs = (\<lambda>pem. [Inr [2]])\<rparr>"

definition sample_cert :: x509_cert where
  "sample_cert =
     \<lparr>x_public_key = [1], x_common_names = [Some ''mallory''], x_not_before = 0, x_not_after = 0\<rparr>"

definition sample_x509 :: x509 where
  "sample_x509 =
     \<lparr>parse_x509_pem = (\<lambda>pem. Inr (map of_char pem)),
      parse_x509_certificate = (\<lambda>der. Inr sample_cert),
      verify_signature = (\<lambda>c k. Inr ())\<rparr>"

lemma sample_x509_decodes: "parse_x509_pem sample_x509 pem = Inr (map of_char pem)"
  "parse_x509_certificate sample_x509 der = Inr sample_cert"
  "verify_signature sample_x509 c k = Inr ()"
  by (simp_all add: sample_x509_def)

text \<open>An empty file store without faults, where new files are world-readable (mode 0644).\<close>

definition sample_fs :: fs where
  "sample_fs =
     \<lparr>files = (\<lambda>_. None), new_mode = 6 * 64 + 4 * 8 + 4, op_no = 0, faults = (\<lambda>_. None),
      history = []\<rparr>"

end
