(* ===== verification/Ca.thy ===== *)
theory Ca imports Samples begin

text \<open>
  The certificate authority's key material (\<^verbatim>\<open>libs/rust-libs/authn-scope-ca/src/ca.rs\<close> and
  \<^verbatim>\<open>error.rs\<close>): loading it from disk, generating it, and rebuilding the issuer for signing.
\<close>

section \<open>Errors\<close>

datatype ca_error =
    KeyNotFound string string
  | CertNotFound string string
  | KeyParseFailed string
  | CertParseFailed string
  | RcgenError string
  | RingError string
  | Io string

fun ca_error_to_string :: "ca_error \<Rightarrow> string" where
  "ca_error_to_string (KeyNotFound path source) =
     ''CA key file not found at '' @ path @ '': '' @ source"
| "ca_error_to_string (CertNotFound path source) =
     ''CA cert file not found at '' @ path @ '': '' @ source"
| "ca_error_to_string (KeyParseFailed e) = ''failed to parse CA key PEM: '' @ e"
| "ca_error_to_string (CertParseFailed e) = ''failed to parse CA cert PEM: '' @ e"
| "ca_error_to_string (RcgenError e) = ''certificate generation error: '' @ e"
| "ca_error_to_string (RingError e) = ''ring crypto error: '' @ e"
| "ca_error_to_string (Io e) = ''I/O error: '' @ e"

section \<open>Loading and generating\<close>

record certificate_authority =
  ca_key_pem :: string
  ca_cert_pem :: string
  ca_cert_der :: "u8 list"
  ca_key_der :: "u8 list"

definition pem_to_der :: "('k, 'c) rcgen \<Rightarrow> string \<Rightarrow> u8 list option" where
  "pem_to_der R pem =
     (case pem_certs R pem of
        [] \<Rightarrow> None
      | r # _ \<Rightarrow> (case r of Inl e \<Rightarrow> None | Inr c \<Rightarrow> Some c))"

text \<open>Mode 0600 in octal.\<close>

definition mode_0600 :: nat where
  "mode_0600 = 6 * 8 * 8"

definition set_mode_600 :: "string \<Rightarrow> (fs, ca_error, unit) eio" where
  "set_mode_600 path = io_map_err Io (fs_set_permissions path mode_0600)"

definition ca_load ::
  "('k, 'c) rcgen \<Rightarrow> string \<Rightarrow> string \<Rightarrow> (fs, ca_error, certificate_authority) eio" where
  "ca_load R cert_path key_path =
     io_bind (io_map_err (CertNotFound cert_path) (fs_read_to_string cert_path)) (\<lambda>cert_pem.
     io_bind (io_map_err (KeyNotFound key_path) (fs_read_to_string key_path)) (\<lambda>key_pem.
     io_bind (io_lift (map_err KeyParseFailed (kp_from_pem R key_pem))) (\<lambda>key_pair.
     let key_der = kp_serialize_der R key_pair in
     io_bind (io_lift (case pem_to_der R cert_pem of
                 None \<Rightarrow> Inl (CertParseFailed ''no CERTIFICATE block found'')
               | Some der \<Rightarrow> Inr der)) (\<lambda>cert_der.
     io_ok \<lparr>ca_key_pem = key_pem, ca_cert_pem = cert_pem, ca_cert_der = cert_der,
             ca_key_der = key_der\<rparr>))))"

text \<open>The parameters of the root certificate: ten years from 2024-01-01 to 2034-01-01 (UTC).\<close>

definition root_params :: "('k, 'c) rcgen \<Rightarrow> cert_params" where
  "root_params R =
     (params_default R)
       \<lparr>distinguished_name := [(CommonName, ''authn-scope-ca''), (OrganizationName, ''authn-scope'')],
        is_ca_field := Ca (Constrained 1),
        key_usages := [KeyCertSign, CrlSign, DigitalSignature],
        not_before := 1704067200,
        not_after := 2019686400\<rparr>"

text \<open>\<open>if path.exists() { let _ = fs::remove_file(path); }\<close>\<close>

definition remove_if_exists :: "string \<Rightarrow> (fs, ca_error, unit) eio" where
  "remove_if_exists path =
     io_bind (fs_exists path) (\<lambda>there.
     if there then io_ignore (fs_remove_file path) else io_ok ())"

definition create_parent :: "string \<Rightarrow> (fs, ca_error, unit) eio" where
  "create_parent path =
     (case path_parent path of
        None \<Rightarrow> io_ok ()
      | Some parent \<Rightarrow> io_map_err Io (fs_create_dir_all parent))"

text \<open>From the key generation on: the part of \<open>init\<close> after the existing files are dealt with.\<close>

definition ca_generate ::
  "('k, 'c) rcgen \<Rightarrow> nat \<Rightarrow> string \<Rightarrow> string \<Rightarrow> (fs, ca_error, certificate_authority) eio" where
  "ca_generate R seed cert_path key_path =
     io_bind (io_lift (map_err RcgenError (generate_for R seed))) (\<lambda>key_pair.
     io_bind (io_lift (map_err RcgenError (self_signed R (root_params R) key_pair))) (\<lambda>cert.
     let cert_pem = crt_pem R cert;
         key_pem = kp_serialize_pem R key_pair;
         cert_der = crt_der R cert;
         key_der = kp_serialize_der R key_pair in
     io_bind (create_parent cert_path) (\<lambda>_.
     io_bind (create_parent key_path) (\<lambda>_.
     io_bind (io_map_err Io (fs_write cert_path cert_pem)) (\<lambda>_.
     io_bind (io_map_err Io (fs_write key_path key_pem)) (\<lambda>_.
     io_bind (set_mode_600 key_path) (\<lambda>_.
     io_ok \<lparr>ca_key_pem = key_pem, ca_cert_pem = cert_pem, ca_cert_der = cert_der,
             ca_key_der = key_der\<rparr>)))))))"

definition ca_init ::
  "('k, 'c) rcgen \<Rightarrow> nat \<Rightarrow> string \<Rightarrow> string \<Rightarrow> bool
   \<Rightarrow> (fs, ca_error, certificate_authority) eio" where
  "ca_init R seed cert_path key_path idempotent =
     (let fresh =
        io_bind (if \<not> idempotent
                 then io_bind (remove_if_exists cert_path) (\<lambda>_. remove_if_exists key_path)
                 else io_ok ()) (\<lambda>_.
        ca_generate R seed cert_path key_path) in
      if idempotent
      then io_bind (fs_exists cert_path) (\<lambda>c.
           if c
           then io_bind (fs_exists key_path) (\<lambda>k.
                if k then ca_load R cert_path key_path else fresh)
           else fresh)
      else fresh)"

section \<open>The issuer used for signing\<close>

definition ca_key_pair :: "('k, 'c) rcgen \<Rightarrow> certificate_authority \<Rightarrow> ca_error + 'k" where
  "ca_key_pair R self = map_err KeyParseFailed (kp_from_pem R (ca_key_pem self))"

definition ca_rcgen_cert :: "('k, 'c) rcgen \<Rightarrow> certificate_authority \<Rightarrow> ca_error + 'c" where
  "ca_rcgen_cert R self =
     rbind (ca_key_pair R self) (\<lambda>key_pair.
     rbind (map_err CertParseFailed (from_ca_cert_pem R (ca_cert_pem self))) (\<lambda>params.
     map_err RcgenError (self_signed R params key_pair)))"

section \<open>Key files\<close>

lemma remove_if_exists_result:
  assumes "remove_if_exists p w = (w', r)"
  shows "fs_ext w w' \<and> r = Inr () \<and> (files w' = files w \<or> files w' = (files w)(p := None))"
proof -
  obtain w1 b where e: "fs_exists p w = (w1, (Inr b :: ca_error + bool))"
    by (auto simp: fs_exists_def fs_done_def)
  obtain w2 r2 where d: "fs_remove_file p w1 = (w2, r2)" by force
  have "(w', r) = (if b then w2 else w1, Inr ())"
    using assms e d by (simp add: remove_if_exists_def io_bind_def io_ignore_def io_ok_def split: if_splits)
  with fs_exists_result [OF e] fs_remove_file_result [OF d] show ?thesis
    by (auto intro: fs_ext_trans)
qed

lemma create_parent_result:
  assumes "create_parent p w = (w', r)"
  shows "fs_ext w w' \<and> files w' = files w"
proof (cases "path_parent p")
  case None
  with assms show ?thesis by (auto simp: create_parent_def io_ok_def)
next
  case (Some d)
  obtain w1 r1 where c: "fs_create_dir_all d w = (w1, r1)" by force
  with assms Some have "w' = w1" by (auto simp: create_parent_def io_map_err_def)
  with fs_create_dir_all_result [OF c] show ?thesis by simp
qed

text \<open>
  What a successful generation leaves behind. The history of the store contains a moment at
  which the key file exists with the mode that writing it gave it.
\<close>

lemma ca_generate_Inr:
  assumes "ca_generate R seed cert_path key_path w = (w', Inr ca)"
  shows "(\<exists>kp crt. generate_for R seed = Inr kp \<and> self_signed R (root_params R) kp = Inr crt
      \<and> ca = \<lparr>ca_key_pem = kp_serialize_pem R kp, ca_cert_pem = crt_pem R crt,
             ca_cert_der = crt_der R crt, ca_key_der = kp_serialize_der R kp\<rparr>)
    \<and> fs_ext w w'
    \<and> (\<exists>mid \<in> set (drop (length (history w)) (history w')).
         mid key_path = Some \<lparr>content = ca_key_pem ca, mode = mode_for_write w key_path\<rparr>)
    \<and> files w' = (files w)
         (cert_path := Some \<lparr>content = ca_cert_pem ca, mode = mode_for_write w cert_path\<rparr>,
          key_path := Some \<lparr>content = ca_key_pem ca, mode = mode_0600\<rparr>)"
proof -
  from assms obtain kp crt w1 u1 w2 u2 w3 u3 w4 u4 u5 where
    gen: "generate_for R seed = Inr kp" and crt: "self_signed R (root_params R) kp = Inr crt"
    and p1: "create_parent cert_path w = (w1, Inr u1)"
    and p2: "create_parent key_path w1 = (w2, Inr u2)"
    and wc: "fs_write cert_path (crt_pem R crt) w2 = (w3, Inr u3)"
    and wk: "fs_write key_path (kp_serialize_pem R kp) w3 = (w4, Inr u4)"
    and sm: "fs_set_permissions key_path mode_0600 w4 = (w', Inr u5)"
    and ca: "ca = \<lparr>ca_key_pem = kp_serialize_pem R kp, ca_cert_pem = crt_pem R crt,
           ca_cert_der = crt_der R crt, ca_key_der = kp_serialize_der R kp\<rparr>"
    by (auto simp: ca_generate_def io_bind_eq_Inr io_lift_def Let_def set_mode_600_def io_ok_def)
  note steps = create_parent_result [OF p1] create_parent_result [OF p2] fs_write_Inr [OF wc]
    fs_write_Inr [OF wk] fs_set_permissions_Inr [OF sm]
  have nm: "new_mode w2 = new_mode w" "new_mode w3 = new_mode w"
    using steps by (auto simp: fs_ext_def)
  have ext: "fs_ext w w3" "fs_ext w3 w4" "fs_ext w4 w'"
    using steps fs_ext_trans by blast+
  obtain h where h4: "history w4 = history w3 @ h" using ext(2) by (auto simp: fs_ext_def)
  have "h \<noteq> []" using wk h4 by (auto simp: fs_write_def fs_done_def Let_def split: option.splits prod.splits)
  then have "files w4 \<in> set h" using steps(4) h4 by (metis last_appendR last_in_set)
  moreover obtain h0 h' where "history w3 = history w @ h0" "history w' = history w4 @ h'"
    using ext by (auto simp: fs_ext_def)
  ultimately have mid: "files w4 \<in> set (drop (length (history w)) (history w'))"
    using h4 by auto
  define store where "store = (files w)
    (cert_path := Some \<lparr>content = ca_cert_pem ca, mode = mode_for_write w cert_path\<rparr>)"
  have f2: "files w2 = files w" using steps(1,2) by simp
  then have "mode_for_write w2 cert_path = mode_for_write w cert_path"
    using nm by (simp add: mode_for_write_def split: option.splits)
  with steps(3) f2 have f3: "files w3 = store" by (simp add: store_def ca)
  then have "mode_for_write w3 key_path = mode_for_write w key_path"
    using nm by (simp add: mode_for_write_def store_def split: option.splits)
  with steps(4) f3 have f4:
    "files w4 = store(key_path := Some \<lparr>content = ca_key_pem ca, mode = mode_for_write w key_path\<rparr>)"
    by (simp add: ca)
  with steps(5) have f5: "files w' = store(key_path := Some \<lparr>content = ca_key_pem ca, mode = mode_0600\<rparr>)"
    by auto
  have "fs_ext w w'" using ext fs_ext_trans by blast
  moreover have "files w4 key_path = Some \<lparr>content = ca_key_pem ca, mode = mode_for_write w key_path\<rparr>"
    using f4 by simp
  ultimately show ?thesis using gen crt ca mid f5 unfolding store_def by blast
qed

lemma ca_init_fresh:
  assumes "ca_init R seed cert_path key_path False w = (w', r)"
  shows "\<exists>w1. ca_generate R seed cert_path key_path w1 = (w', r) \<and> fs_ext w w1
    \<and> (\<forall>p. files w1 p = files w p \<or> p \<in> {cert_path, key_path} \<and> files w1 p = None)"
proof -
  obtain wa ra where a: "remove_if_exists cert_path w = (wa, ra)" by force
  obtain wb rb where b: "remove_if_exists key_path wa = (wb, rb)" by force
  note ra = remove_if_exists_result [OF a] and rb = remove_if_exists_result [OF b]
  with a b assms have "ca_generate R seed cert_path key_path wb = (w', r)"
    by (simp add: ca_init_def io_bind_def Let_def)
  moreover have "fs_ext w wb" using ra rb fs_ext_trans by blast
  ultimately show ?thesis using ra rb by (intro exI [of _ wb]) (auto split: if_splits)
qed

text \<open>A generation on the empty sample store.\<close>

definition sample_ca :: certificate_authority where
  "sample_ca = \<lparr>ca_key_pem = ''key'', ca_cert_pem = ''authn-scope-ca'', ca_cert_der = [2],
                ca_key_der = [1]\<rparr>"

definition sample_init :: "fs \<times> (ca_error + certificate_authority)" where
  "sample_init = ca_init sample_rcgen 0 ''c.pem'' ''k.pem'' False sample_fs"

lemma sample_init_ok:
  "ca_init sample_rcgen 0 ''c.pem'' ''k.pem'' False sample_fs = (fst sample_init, Inr sample_ca)"
proof -
  have "snd sample_init = Inr sample_ca" by code_simp
  then show ?thesis by (metis prod.collapse sample_init_def)
qed

text \<open>
  C31: After a successful \<open>--genkey\<close> start, whatever files there were and whatever operations
  failed on the way, the key file holds the authority's key with mode 0600, the certificate file
  its certificate, and no other file has changed.
\<close>
theorem ca_init_key_protected:
  assumes "ca_init R seed cert_path key_path False w = (w', Inr ca)" and "cert_path \<noteq> key_path"
  shows "files w' key_path = Some \<lparr>content = ca_key_pem ca, mode = mode_0600\<rparr>
    \<and> map_option content (files w' cert_path) = Some (ca_cert_pem ca)
    \<and> (\<forall>p. p \<notin> {cert_path, key_path} \<longrightarrow> files w' p = files w p)"
proof -
  from ca_init_fresh [OF assms(1)] obtain w1
    where g: "ca_generate R seed cert_path key_path w1 = (w', Inr ca)"
      and f: "\<forall>p. files w1 p = files w p \<or> p \<in> {cert_path, key_path} \<and> files w1 p = None"
    by blast
  from ca_generate_Inr [OF g] assms(2) f show ?thesis by auto
qed

theorem ca_init_key_protected_witness:
  "files (fst sample_init) ''k.pem'' = Some \<lparr>content = ''key'', mode = mode_0600\<rparr>"
  using ca_init_key_protected [OF sample_init_ok] by (simp add: sample_ca_def)

text \<open>
  C32: Loading the files that a successful generation wrote gives the same authority back,
  provided the libraries read what they wrote and the two reads do not fail.
\<close>
theorem ca_load_after_init:
  assumes "ca_init R seed cert_path key_path False w = (w', Inr ca)" and "cert_path \<noteq> key_path"
    and "kp_from_pem R (ca_key_pem ca) = Inr kp" and "kp_serialize_der R kp = ca_key_der ca"
    and "pem_certs R (ca_cert_pem ca) = Inr (ca_cert_der ca) # others"
    and "faults w' (op_no w') = None" and "faults w' (Suc (op_no w')) = None"
  shows "\<exists>w''. ca_load R cert_path key_path w' = (w'', Inr ca) \<and> files w'' = files w'"
proof -
  from ca_init_fresh [OF assms(1)] obtain w1
    where g: "ca_generate R seed cert_path key_path w1 = (w', Inr ca)" by blast
  from ca_generate_Inr [OF g] assms(2)
  have "\<exists>f. files w' cert_path = Some f \<and> content f = ca_cert_pem ca"
    and "files w' key_path = Some \<lparr>content = ca_key_pem ca, mode = mode_0600\<rparr>"
    by auto
  with assms show ?thesis
    by (cases ca)
      (auto simp: ca_load_def io_bind_def io_map_err_def io_lift_def io_ok_def fs_read_to_string_def
        fs_done_def fs_fault_def pem_to_der_def Let_def)
qed

theorem ca_load_after_init_witness:
  "\<exists>w''. ca_load sample_rcgen ''c.pem'' ''k.pem'' (fst sample_init) = (w'', Inr sample_ca)"
proof -
  have "faults (fst sample_init) (op_no (fst sample_init)) = None
      \<and> faults (fst sample_init) (Suc (op_no (fst sample_init))) = None"
    by code_simp
  moreover have "kp_from_pem sample_rcgen (ca_key_pem sample_ca) = Inr ''key''"
    and "kp_serialize_der sample_rcgen ''key'' = ca_key_der sample_ca"
    and "pem_certs sample_rcgen (ca_cert_pem sample_ca) = [Inr (ca_cert_der sample_ca)]"
    by (simp_all add: sample_rcgen_def sample_ca_def)
  ultimately have "\<exists>w''. ca_load sample_rcgen ''c.pem'' ''k.pem'' (fst sample_init) = (w'', Inr sample_ca)
      \<and> files w'' = files (fst sample_init)"
    by (intro ca_load_after_init [OF sample_init_ok]) simp_all
  then show ?thesis by blast
qed

text \<open>
  C33: While a key is generated, another process can see the key file with the default mode
  of new files (0644 under the usual umask): the code writes the key first and restricts the
  mode afterwards.
\<close>
theorem ca_init_key_window:
  assumes "ca_init R seed cert_path key_path False w = (w', Inr ca)" and "cert_path \<noteq> key_path"
    and "files w key_path = None"
  shows "\<exists>seen \<in> set (drop (length (history w)) (history w')).
    seen key_path = Some \<lparr>content = ca_key_pem ca, mode = new_mode w\<rparr>"
proof -
  from ca_init_fresh [OF assms(1)] obtain w1
    where g: "ca_generate R seed cert_path key_path w1 = (w', Inr ca)" and e: "fs_ext w w1"
      and f: "\<forall>p. files w1 p = files w p \<or> p \<in> {cert_path, key_path} \<and> files w1 p = None"
    by blast
  from f assms(3) have none: "files w1 key_path = None" by (metis option.distinct(1))
  from e have h: "length (history w) \<le> length (history w1)" "new_mode w1 = new_mode w"
    by (auto simp: fs_ext_def)
  from none h(2) have "mode_for_write w1 key_path = new_mode w" by (simp add: mode_for_write_def)
  with ca_generate_Inr [OF g]
  have "\<exists>seen \<in> set (drop (length (history w1)) (history w')).
      seen key_path = Some \<lparr>content = ca_key_pem ca, mode = new_mode w\<rparr>" by simp
  with set_drop_subset_set_drop [OF h(1), of "history w'"] show ?thesis by blast
qed

theorem ca_init_key_window_witness:
  "\<exists>seen \<in> set (history (fst sample_init)).
     seen ''k.pem'' = Some \<lparr>content = ''key'', mode = 6 * 64 + 4 * 8 + 4\<rparr>"
  using ca_init_key_window [OF sample_init_ok] by (simp add: sample_fs_def sample_ca_def)

lemma fs_read_files: "fs_read_to_string p w = (w', r) \<Longrightarrow> files w' = files w"
  by (auto simp: fs_read_to_string_def fs_done_def)

lemma ca_load_files: "ca_load R cp kp w = (w', r) \<Longrightarrow> files w' = files w"
  by (auto simp: ca_load_def io_bind_cases io_map_err_def io_lift_def io_ok_def Let_def
      dest!: fs_read_files split: prod.splits)

text \<open>
  An idempotent initialisation over two existing files changes neither: it loads them.
\<close>
theorem ca_init_idempotent_keeps_files:
  assumes "files w cert_path \<noteq> None" and "files w key_path \<noteq> None"
    and "faults w (op_no w) = None" and "faults w (Suc (op_no w)) = None"
    and "ca_init R seed cert_path key_path True w = (w', r)"
  shows "files w' = files w \<and> (\<exists>w1. files w1 = files w \<and> ca_load R cert_path key_path w1 = (w', r))"
proof -
  obtain w1 where c: "fs_exists cert_path w = (w1, (Inr True :: ca_error + bool))"
    and w1: "files w1 = files w" "faults w1 = faults w" "op_no w1 = Suc (op_no w)"
    using assms(1,3) by (auto simp: fs_exists_def fs_done_def fs_fault_def)
  obtain w2 where k: "fs_exists key_path w1 = (w2, (Inr True :: ca_error + bool))"
    and w2: "files w2 = files w"
    using assms(2,4) w1 by (auto simp: fs_exists_def fs_done_def fs_fault_def)
  have "ca_load R cert_path key_path w2 = (w', r)"
    using assms(5) by (simp add: ca_init_def Let_def io_bind_def c k)
  with w2 ca_load_files show ?thesis by metis
qed

theorem ca_init_idempotent_keeps_files_witness:
  "files (fst (ca_init sample_rcgen 1 ''c.pem'' ''k.pem'' True (fst sample_init)))
     = files (fst sample_init)"
proof -
  have "files (fst sample_init) ''c.pem'' \<noteq> None" "files (fst sample_init) ''k.pem'' \<noteq> None"
    by code_simp+
  moreover have "faults (fst sample_init) (op_no (fst sample_init)) = None
      \<and> faults (fst sample_init) (Suc (op_no (fst sample_init))) = None"
    by code_simp
  ultimately show ?thesis
    using ca_init_idempotent_keeps_files by (metis prod.collapse)
qed

end
