(* ===== verification/Ip_Addr.thy ===== *)
theory Ip_Addr imports Rust_Str begin

text \<open>
  \<^verbatim>\<open>str::parse::<std::net::IpAddr>\<close> of Rust's standard library, which the signer uses for the
  address of a machine: a dotted quad, or eight groups of hexadecimal digits with at most one
  \<open>::\<close> and possibly a trailing dotted quad. A reader returns the value and the rest of the input,
  or nothing, and then no input counts as consumed.
\<close>

definition hex_val :: "char \<Rightarrow> nat option" where
  "hex_val c =
     (let n = of_char c :: nat in
      if 48 \<le> n \<and> n \<le> 57 then Some (n - 48)
      else if 97 \<le> n \<and> n \<le> 102 then Some (n - 87)
      else if 65 \<le> n \<and> n \<le> 70 then Some (n - 55)
      else None)"

definition radix_val :: "nat \<Rightarrow> char \<Rightarrow> nat option" where
  "radix_val radix c =
     (case hex_val c of None \<Rightarrow> None | Some d \<Rightarrow> if d < radix then Some d else None)"

text \<open>All leading digits of a radix, as values, and the rest.\<close>

fun take_digits :: "nat \<Rightarrow> string \<Rightarrow> nat list \<times> string" where
  "take_digits radix [] = ([], [])"
| "take_digits radix (c # cs) =
     (case radix_val radix c of
        None \<Rightarrow> ([], c # cs)
      | Some d \<Rightarrow> (case take_digits radix cs of (ds, rest) \<Rightarrow> (d # ds, rest)))"

text \<open>
  \<open>read_number(radix, Some(max_digits), allow_zero_prefix)\<close> for a number below \<open>bound\<close>.
\<close>

definition read_number ::
  "nat \<Rightarrow> nat \<Rightarrow> bool \<Rightarrow> nat \<Rightarrow> string \<Rightarrow> (nat \<times> string) option" where
  "read_number radix max_digits allow_zero_prefix bound s =
     (case take_digits radix s of
        (ds, rest) \<Rightarrow>
          let n = foldl (\<lambda>a d. a * radix + d) 0 ds in
          if ds = [] \<or> length ds > max_digits then None
          else if \<not> allow_zero_prefix \<and> hd ds = 0 \<and> length ds > 1 then None
          else if n < bound then Some (n, rest) else None)"

text \<open>\<open>read_separator(sep, index, inner)\<close>: the separator is read before every item but the first.\<close>

definition read_separator ::
  "char \<Rightarrow> nat \<Rightarrow> (string \<Rightarrow> ('a \<times> string) option) \<Rightarrow> string \<Rightarrow> ('a \<times> string) option" where
  "read_separator sep index inner s =
     (if index = 0 then inner s
      else (case s of [] \<Rightarrow> None | c # cs \<Rightarrow> if c = sep then inner cs else None))"

definition read_octet :: "nat \<Rightarrow> string \<Rightarrow> (nat \<times> string) option" where
  "read_octet i = read_separator CHR ''.'' i (read_number 10 3 False 256)"

definition read_ipv4 :: "string \<Rightarrow> (u8 list \<times> string) option" where
  "read_ipv4 s =
     (case read_octet 0 s of None \<Rightarrow> None | Some (a, s1) \<Rightarrow>
     (case read_octet 1 s1 of None \<Rightarrow> None | Some (b, s2) \<Rightarrow>
     (case read_octet 2 s2 of None \<Rightarrow> None | Some (c, s3) \<Rightarrow>
     (case read_octet 3 s3 of None \<Rightarrow> None | Some (d, s4) \<Rightarrow>
        Some ([of_nat a, of_nat b, of_nat c, of_nat d], s4)))))"

text \<open>
  \<open>read_groups\<close> into a slice of length \<open>limit\<close>, from index \<open>i\<close> on: the bytes read (two per
  group), whether they end with a dotted quad, and the rest.
\<close>

function read_groups :: "nat \<Rightarrow> nat \<Rightarrow> string \<Rightarrow> u8 list \<times> bool \<times> string" where
  "read_groups limit i s =
     (if i \<ge> limit then ([], False, s)
      else case (if i < limit - 1 then read_separator CHR '':'' i read_ipv4 s else None) of
        Some (v4, rest) \<Rightarrow> (v4, True, rest)
      | None \<Rightarrow> (case read_separator CHR '':'' i (read_number 16 4 True 65536) s of
            None \<Rightarrow> ([], False, s)
          | Some (g, rest) \<Rightarrow> (case read_groups limit (Suc i) rest of
                (bs, v4, rest') \<Rightarrow> (of_nat (g div 256) # of_nat (g mod 256) # bs, v4, rest'))))"
  by pat_completeness auto
termination
  by (relation "measure (\<lambda>(limit, i, s). limit - i)") auto

declare read_groups.simps [simp del]

definition read_ipv6 :: "string \<Rightarrow> (u8 list \<times> string) option" where
  "read_ipv6 s =
     (case read_groups 8 0 s of
        (head, head_ipv4, rest) \<Rightarrow>
          if length head = 16 then Some (head, rest)
          else if head_ipv4 then None
          else if starts_with ''::'' rest
          then (case read_groups (8 - (length head div 2 + 1)) 0 (drop 2 rest) of
                  (tail, _, rest') \<Rightarrow>
                    Some (head @ replicate (16 - length head - length tail) 0 @ tail, rest'))
          else None)"

definition addr_parse_error :: string where
  "addr_parse_error = ''invalid IP address syntax''"

definition parse_ip :: "string \<Rightarrow> string + u8 list" where
  "parse_ip s =
     (case (case read_ipv4 s of Some r \<Rightarrow> Some r | None \<Rightarrow> read_ipv6 s) of
        Some (bytes, []) \<Rightarrow> Inr bytes
      | _ \<Rightarrow> Inl addr_parse_error)"

lemmas parse_ip_eval = parse_ip_def read_ipv4_def read_ipv6_def read_octet_def read_separator_def
  read_number_def radix_val_def hex_val_def Let_def read_groups.simps starts_with_def

lemma parse_ip_examples:
  "parse_ip ''127.0.0.1'' = Inr [127, 0, 0, 1]"
  "parse_ip ''10.0.0.256'' = Inl addr_parse_error"
  "parse_ip ''10.0.0.05'' = Inl addr_parse_error"
  "parse_ip ''10.0.0'' = Inl addr_parse_error"
  "parse_ip ''::1'' = Inr (replicate 14 0 @ [0, 1])"
  "parse_ip ''fe80::1:2'' = Inr ([0xFE, 0x80] @ replicate 10 0 @ [0, 1, 0, 2])"
  "parse_ip ''::ffff:1.2.3.4'' = Inr (replicate 10 0 @ [255, 255, 1, 2, 3, 4])"
  "parse_ip [] = Inl addr_parse_error"
  by (simp_all add: parse_ip_eval)

end
