(* ===== verification/Signing.thy ===== *)
theory Signing imports Ca Ip_Addr begin

text \<open>
  Issuing a leaf certificate (\<^verbatim>\<open>libs/rust-libs/authn-scope-ca/src/signing.rs\<close>).
\<close>

record signing_request =
  sr_csr_pem :: string
  sr_identity :: string
  sr_vm_name :: string
  sr_cid :: u32
  sr_ip :: "string option"
  sr_validity_seconds :: u32

text \<open>The subject alternative names: the identity and, if the policy has one, the address.\<close>

definition build_sans :: "('k, 'c) rcgen \<Rightarrow> string \<Rightarrow> string option \<Rightarrow> ca_error + san_type list" where
  "build_sans R identity ip =
     rbind (map_err CertParseFailed (ia5_string R identity)) (\<lambda>dns_name.
     case ip of
       None \<Rightarrow> Inr [DnsName dns_name]
     | Some ip_str \<Rightarrow>
         rbind (map_err (\<lambda>e. CertParseFailed (''invalid IP address '' @ quoted ip_str @ '': '' @ e))
                 (parse_ip ip_str)) (\<lambda>ip_addr.
         Inr [DnsName dns_name, IpAddress ip_addr]))"

text \<open>\<open>now\<close> is the clock's time in seconds.\<close>

definition sign_csr ::
  "('k, 'c) rcgen \<Rightarrow> int \<Rightarrow> certificate_authority \<Rightarrow> signing_request \<Rightarrow> ca_error + string" where
  "sign_csr R now ca req =
     rbind (map_err RcgenError (csr_from_pem R (sr_csr_pem req))) (\<lambda>parsed.
     rbind (build_sans R (sr_identity req) (sr_ip req)) (\<lambda>sans.
     let params = (csr_params parsed)
           \<lparr>key_usages := [DigitalSignature],
            extended_key_usages := [ServerAuth, ClientAuth],
            subject_alt_names := sans,
            not_before := now,
            not_after := now + uint (sr_validity_seconds req)\<rparr> in
     rbind (ca_rcgen_cert R ca) (\<lambda>ca_cert.
     rbind (ca_key_pair R ca) (\<lambda>ca_kp.
     rbind (map_err RcgenError (signed_by R (parsed\<lparr>csr_params := params\<rparr>) ca_cert ca_kp)) (\<lambda>leaf.
     Inr (crt_pem R leaf))))))"

section \<open>What an issued certificate says\<close>

text \<open>The parameters a certificate is signed with, given the parsed request.\<close>

definition leaf_params :: "csr \<Rightarrow> san_type list \<Rightarrow> int \<Rightarrow> u32 \<Rightarrow> csr" where
  "leaf_params parsed sans now validity =
     parsed\<lparr>csr_params := (csr_params parsed)
       \<lparr>key_usages := [DigitalSignature], extended_key_usages := [ServerAuth, ClientAuth],
        subject_alt_names := sans, not_before := now, not_after := now + uint validity\<rparr>\<rparr>"

text \<open>
  \<open>issues R now ca req pem leaf parsed\<close>: the text \<open>pem\<close> is that of the certificate \<open>leaf\<close>, signed by
  the authority over the parameters of the request \<open>parsed\<close> and the policy's names and times.
\<close>

definition issues ::
  "('k, 'c) rcgen \<Rightarrow> int \<Rightarrow> certificate_authority \<Rightarrow> signing_request \<Rightarrow> string \<Rightarrow> 'c \<Rightarrow> csr \<Rightarrow> bool"
  where
  "issues R now ca req pem leaf parsed \<longleftrightarrow>
     csr_from_pem R (sr_csr_pem req) = Inr parsed \<and> pem = crt_pem R leaf
     \<and> (\<exists>sans ca_cert kp. build_sans R (sr_identity req) (sr_ip req) = Inr sans
         \<and> ca_rcgen_cert R ca = Inr ca_cert \<and> ca_key_pair R ca = Inr kp
         \<and> signed_by R (leaf_params parsed sans now (sr_validity_seconds req)) ca_cert kp = Inr leaf)"

lemma leaf_params_simps:
  "key_usages (csr_params (leaf_params parsed sans now validity)) = [DigitalSignature]"
  "extended_key_usages (csr_params (leaf_params parsed sans now validity)) = [ServerAuth, ClientAuth]"
  "subject_alt_names (csr_params (leaf_params parsed sans now validity)) = sans"
  "not_before (csr_params (leaf_params parsed sans now validity)) = now"
  "not_after (csr_params (leaf_params parsed sans now validity)) = now + uint validity"
  "distinguished_name (csr_params (leaf_params parsed sans now validity))
     = distinguished_name (csr_params parsed)"
  "is_ca_field (csr_params (leaf_params parsed sans now validity)) = is_ca_field (csr_params parsed)"
  "rest_params (csr_params (leaf_params parsed sans now validity)) = rest_params (csr_params parsed)"
  "csr_public_key (leaf_params parsed sans now validity) = csr_public_key parsed"
  by (simp_all add: leaf_params_def)

lemma sign_csr_Inr:
  "sign_csr R now ca req = Inr pem \<longleftrightarrow> (\<exists>leaf parsed. issues R now ca req pem leaf parsed)"
  by (auto simp: sign_csr_def issues_def leaf_params_def Let_def)

lemma build_sans_Inr:
  "build_sans R identity ip = Inr sans \<longleftrightarrow>
     (\<exists>dns. ia5_string R identity = Inr dns \<and>
       (case ip of None \<Rightarrow> sans = [DnsName dns]
        | Some a \<Rightarrow> \<exists>bytes. parse_ip a = Inr bytes \<and> sans = [DnsName dns, IpAddress bytes]))"
  by (auto simp: build_sans_def split: option.splits)

text \<open>
  C17: Every issued certificate is signed with the authority's key over: the identity as its
  first and only DNS name, the machine's address if the policy has one and no other name,
  digital signature as its only key usage, server and client authentication as its extended
  usages, and a validity of exactly the policy's seconds from the time of issue. Whatever the
  request asked for in these fields is discarded.
\<close>
theorem sign_csr_profile:
  assumes "sign_csr R now ca req = Inr pem"
  shows "\<exists>leaf csr ca_cert kp dns. pem = crt_pem R leaf
    \<and> ca_rcgen_cert R ca = Inr ca_cert \<and> ca_key_pair R ca = Inr kp
    \<and> signed_by R csr ca_cert kp = Inr leaf
    \<and> key_usages (csr_params csr) = [DigitalSignature]
    \<and> extended_key_usages (csr_params csr) = [ServerAuth, ClientAuth]
    \<and> ia5_string R (sr_identity req) = Inr dns
    \<and> (case sr_ip req of None \<Rightarrow> subject_alt_names (csr_params csr) = [DnsName dns]
        | Some a \<Rightarrow> \<exists>bytes. parse_ip a = Inr bytes
            \<and> subject_alt_names (csr_params csr) = [DnsName dns, IpAddress bytes])
    \<and> not_before (csr_params csr) = now
    \<and> not_after (csr_params csr) - not_before (csr_params csr) = uint (sr_validity_seconds req)"
proof -
  from assms obtain leaf parsed sans ca_cert kp where
    "pem = crt_pem R leaf" and sans: "build_sans R (sr_identity req) (sr_ip req) = Inr sans" and
    "ca_rcgen_cert R ca = Inr ca_cert" "ca_key_pair R ca = Inr kp"
    "signed_by R (leaf_params parsed sans now (sr_validity_seconds req)) ca_cert kp = Inr leaf"
    (is "signed_by R ?csr _ _ = _")
    by (auto simp: sign_csr_Inr issues_def)
  moreover from sans obtain dns where "ia5_string R (sr_identity req) = Inr dns"
    "case sr_ip req of None \<Rightarrow> sans = [DnsName dns]
     | Some a \<Rightarrow> \<exists>bytes. parse_ip a = Inr bytes \<and> sans = [DnsName dns, IpAddress bytes]"
    by (auto simp: build_sans_Inr)
  moreover define csr where "csr = ?csr"
  ultimately have "pem = crt_pem R leaf" "ca_rcgen_cert R ca = Inr ca_cert" "ca_key_pair R ca = Inr kp"
    "signed_by R csr ca_cert kp = Inr leaf" "ia5_string R (sr_identity req) = Inr dns"
    "case sr_ip req of None \<Rightarrow> subject_alt_names (csr_params csr) = [DnsName dns]
     | Some a \<Rightarrow> \<exists>bytes. parse_ip a = Inr bytes
         \<and> subject_alt_names (csr_params csr) = [DnsName dns, IpAddress bytes]"
    by (simp_all add: csr_def leaf_params_simps split: option.splits)
  moreover have "key_usages (csr_params csr) = [DigitalSignature]"
    "extended_key_usages (csr_params csr) = [ServerAuth, ClientAuth]"
    "not_before (csr_params csr) = now"
    "not_after (csr_params csr) - not_before (csr_params csr) = uint (sr_validity_seconds req)"
    by (simp_all add: csr_def leaf_params_simps)
  ultimately show ?thesis by blast
qed

definition sample_request :: signing_request where
  "sample_request =
     \<lparr>sr_csr_pem = ''mallory'', sr_identity = ''service-a'', sr_vm_name = ''vm'', sr_cid = 3,
      sr_ip = Some ''127.0.0.1'', sr_validity_seconds = 600\<rparr>"

lemma sample_sign_csr: "sign_csr sample_rcgen 1000 sample_ca sample_request = Inr ''mallory''"
  by code_simp

theorem sign_csr_profile_witness:
  "\<exists>leaf. ''mallory'' = crt_pem sample_rcgen leaf \<and> key_usages (csr_params leaf) = [DigitalSignature]"
  using sign_csr_profile [OF sample_sign_csr] by (auto simp: sample_rcgen_def)

text \<open>
  The subject of an issued certificate, its public key and every field the signer does not
  set are those of the request: the identity the caller was authorised for is never compared
  with the request's common name, although the comment on \<open>SigningRequest::identity\<close> says it must
  match.
\<close>
theorem sign_csr_keeps_subject:
  assumes "sign_csr R now ca req = Inr pem"
  shows "\<exists>leaf parsed csr ca_cert kp. csr_from_pem R (sr_csr_pem req) = Inr parsed
    \<and> pem = crt_pem R leaf \<and> signed_by R csr ca_cert kp = Inr leaf
    \<and> distinguished_name (csr_params csr) = distinguished_name (csr_params parsed)
    \<and> is_ca_field (csr_params csr) = is_ca_field (csr_params parsed)
    \<and> rest_params (csr_params csr) = rest_params (csr_params parsed)
    \<and> csr_public_key csr = csr_public_key parsed"
proof -
  from assms obtain leaf parsed sans ca_cert kp where
    csr: "csr_from_pem R (sr_csr_pem req) = Inr parsed" "pem = crt_pem R leaf"
    "signed_by R (leaf_params parsed sans now (sr_validity_seconds req)) ca_cert kp = Inr leaf"
    (is "signed_by R ?csr _ _ = _")
    by (auto simp: sign_csr_Inr issues_def)
  have "distinguished_name (csr_params ?csr) = distinguished_name (csr_params parsed)"
    "is_ca_field (csr_params ?csr) = is_ca_field (csr_params parsed)"
    "rest_params (csr_params ?csr) = rest_params (csr_params parsed)"
    "csr_public_key ?csr = csr_public_key parsed"
    by (simp_all add: leaf_params_simps)
  with csr show ?thesis by blast
qed

theorem sign_csr_keeps_subject_witness:
  "\<exists>leaf. ''mallory'' = crt_pem sample_rcgen leaf
     \<and> distinguished_name (csr_params leaf) = [(CommonName, ''mallory'')]"
  using sign_csr_keeps_subject [OF sample_sign_csr] by (auto simp: sample_rcgen_def sample_request_def)

text \<open>
  The machine name and the context identifier of a signing request leave no trace in the
  certificate: two requests that differ only in them give the same result.
\<close>
theorem sign_csr_ignores_machine:
  "sign_csr R now ca (req\<lparr>sr_vm_name := v, sr_cid := c\<rparr>) = sign_csr R now ca req"
  by (simp add: sign_csr_def)

text \<open>
  Signing fails, with the error of the first step that does, exactly in the order request,
  names, issuer, key, signature; in particular an unparsable address in the configuration makes
  every request of that machine fail.
\<close>
theorem sign_csr_bad_ip:
  assumes "csr_from_pem R (sr_csr_pem req) = Inr parsed" and "ia5_string R (sr_identity req) = Inr dns"
    and "sr_ip req = Some a" and "parse_ip a = Inl e"
  shows "sign_csr R now ca req = Inl (CertParseFailed (''invalid IP address '' @ quoted a @ '': '' @ e))"
  using assms by (simp add: sign_csr_def build_sans_def)

theorem sign_csr_bad_ip_witness:
  "\<exists>e. sign_csr sample_rcgen 1000 sample_ca (sample_request\<lparr>sr_ip := Some ''10.0.0''\<rparr>)
    = Inl (CertParseFailed (''invalid IP address '' @ quoted ''10.0.0'' @ '': '' @ e))"
proof -
  have "\<exists>e. parse_ip ''10.0.0'' = Inl e" by (simp add: parse_ip_eval)
  then obtain e where "parse_ip ''10.0.0'' = Inl e" by blast
  then have "sign_csr sample_rcgen 1000 sample_ca (sample_request\<lparr>sr_ip := Some ''10.0.0''\<rparr>)
      = Inl (CertParseFailed (''invalid IP address '' @ quoted ''10.0.0'' @ '': '' @ e))"
    by (intro sign_csr_bad_ip) (simp_all add: sample_rcgen_def sample_request_def)
  then show ?thesis ..
qed

end
