(* ===== verification/Evaluator.thy ===== *)
theory Evaluator imports Signing begin

text \<open>
  Checking a peer certificate (\<^verbatim>\<open>libs/rust-libs/authn-scope-evaluator/src/lib.rs\<close>).
\<close>

datatype eval_error = X509Parse string | SignatureVerification string

record evaluator =
  ev_identity :: string

definition from_cert_pem :: "x509 \<Rightarrow> string \<Rightarrow> string \<Rightarrow> eval_error + evaluator" where
  "from_cert_pem X peer_pem trusted_pem =
     rbind (map_err (\<lambda>e. X509Parse (''CA PEM parse failed: '' @ e))
             (parse_x509_pem X trusted_pem)) (\<lambda>ca_pem.
     rbind (map_err (\<lambda>e. X509Parse (''CA cert parse failed: '' @ e))
             (parse_x509_certificate X ca_pem)) (\<lambda>ca_cert.
     let ca_pubkey = x_public_key ca_cert in
     rbind (map_err (\<lambda>e. X509Parse (''Peer PEM parse failed: '' @ e))
             (parse_x509_pem X peer_pem)) (\<lambda>peer_pem.
     rbind (map_err (\<lambda>e. X509Parse (''Peer cert parse failed: '' @ e))
             (parse_x509_certificate X peer_pem)) (\<lambda>peer_cert.
     rbind (map_err (\<lambda>e. SignatureVerification (''Signature verification failed: '' @ e))
             (verify_signature X peer_cert ca_pubkey)) (\<lambda>_.
     case x_common_names peer_cert of
       Some cn # _ \<Rightarrow> Inr \<lparr>ev_identity = cn\<rparr>
     | _ \<Rightarrow> Inl (X509Parse ''Subject Common Name (CN) is missing''))))))"

text \<open>\<open>decodes X pem crt\<close>: the text is a certificate the verifying library reads as \<open>crt\<close>.\<close>

definition decodes :: "x509 \<Rightarrow> string \<Rightarrow> x509_cert \<Rightarrow> bool" where
  "decodes X pem crt \<longleftrightarrow> (\<exists>der. parse_x509_pem X pem = Inr der \<and> parse_x509_certificate X der = Inr crt)"

lemma first_common_name:
  "(case cns of Some cn # _ \<Rightarrow> Inr \<lparr>ev_identity = cn\<rparr> | _ \<Rightarrow> Inl e) = Inr ev
     \<longleftrightarrow> (\<exists>rest. cns = Some (ev_identity ev) # rest)"
  by (cases ev) (auto split: list.splits option.splits)

lemma from_cert_pem_Inr:
  "from_cert_pem X peer_pem ca_pem = Inr ev \<longleftrightarrow>
     (\<exists>ca_cert peer_cert cns. decodes X ca_pem ca_cert \<and> decodes X peer_pem peer_cert
        \<and> verify_signature X peer_cert (x_public_key ca_cert) = Inr ()
        \<and> x_common_names peer_cert = Some (ev_identity ev) # cns)"
  unfolding from_cert_pem_def decodes_def Let_def rbind_eq_Inr map_err_eq_Inr first_common_name
  by auto

text \<open>
  The evaluator accepts exactly the certificates whose signature verifies under the trusted
  authority's public key and whose first common name is readable, and reports that name.
\<close>
theorem from_cert_pem_correct:
  "from_cert_pem X peer_pem ca_pem = Inr ev \<longleftrightarrow>
     (\<exists>ca_cert peer_cert cns. decodes X ca_pem ca_cert \<and> decodes X peer_pem peer_cert
        \<and> verify_signature X peer_cert (x_public_key ca_cert) = Inr ()
        \<and> x_common_names peer_cert = Some (ev_identity ev) # cns)"
  by (rule from_cert_pem_Inr)

text \<open>
  C34: The evaluator never looks at the validity period: a certificate that has expired, or that
  an authority issued whose own certificate has expired, is accepted like any other.
\<close>
theorem from_cert_pem_ignores_validity:
  assumes "decodes X ca_pem ca_cert" and "decodes X peer_pem peer_cert"
    and "verify_signature X peer_cert (x_public_key ca_cert) = Inr ()"
    and "x_common_names peer_cert = Some cn # cns"
    and "x_not_after peer_cert < now" and "x_not_after ca_cert < now"
  shows "from_cert_pem X peer_pem ca_pem = Inr \<lparr>ev_identity = cn\<rparr>"
  using assms by (auto simp: from_cert_pem_Inr)

theorem from_cert_pem_ignores_validity_witness:
  "from_cert_pem sample_x509 ''a'' ''b'' = Inr \<lparr>ev_identity = ''mallory''\<rparr>"
  by (rule from_cert_pem_ignores_validity [of _ _ sample_cert _ sample_cert _ "[]" 1])
    (simp_all add: sample_x509_decodes sample_cert_def decodes_def)

section \<open>Issuing and evaluating together\<close>

text \<open>
  C16: An agent that is authorised for one identity and sends a request whose common name is
  another obtains a certificate that the evaluator attributes to the other: provided the two
  libraries agree on the certificate (the reader sees the subject that was signed, and the
  authority's signature verifies), the evaluated identity is the request's common name,
  whatever the authorised identity is.
\<close>
theorem evaluated_identity_is_csr_subject:
  assumes "sign_csr R now ca req = Inr pem"
    and "csr_from_pem R (sr_csr_pem req) = Inr parsed"
    and "common_names (distinguished_name (csr_params parsed)) = cn # cns"
    and reads: "\<And>csr issuer kp leaf. signed_by R csr issuer kp = Inr leaf \<Longrightarrow> crt_pem R leaf = pem \<Longrightarrow>
        decodes X pem peer_cert \<and> x_common_names peer_cert
          = map Some (common_names (distinguished_name (csr_params csr)))"
    and "decodes X (ca_cert_pem ca) ca_cert"
    and "verify_signature X peer_cert (x_public_key ca_cert) = Inr ()"
  shows "from_cert_pem X pem (ca_cert_pem ca) = Inr \<lparr>ev_identity = cn\<rparr>"
proof -
  from assms(1,2) obtain leaf sans ca_crt kp where
    "signed_by R (leaf_params parsed sans now (sr_validity_seconds req)) ca_crt kp = Inr leaf"
    "crt_pem R leaf = pem"
    by (auto simp: sign_csr_Inr issues_def)
  from reads [OF this] have "decodes X pem peer_cert" "x_common_names peer_cert = Some cn # map Some cns"
    using assms(3) by (simp_all add: leaf_params_simps)
  with assms(5,6) show ?thesis by (auto simp: from_cert_pem_def decodes_def)
qed

theorem evaluated_identity_is_csr_subject_witness:
  "from_cert_pem sample_x509 ''mallory'' (ca_cert_pem sample_ca) = Inr \<lparr>ev_identity = ''mallory''\<rparr>"
  by (rule evaluated_identity_is_csr_subject [OF sample_sign_csr, of
        "\<lparr>csr_params = sample_params\<lparr>distinguished_name := [(CommonName, ''mallory'')]\<rparr>,
          csr_public_key = [3]\<rparr>" _ "[]" _ sample_cert sample_cert])
    (simp_all add: sample_rcgen_def sample_request_def sample_params_def common_names_def
      sample_x509_decodes sample_cert_def decodes_def del: map_map split: list.splits)

end
