(* ===== verification/Handler.thy ===== *)
theory Handler imports Policy Evaluator begin

text \<open>
  The server's connection handler (\<^verbatim>\<open>apps/rust-apps/authn-scope-server/src/handler.rs\<close>), and
  what it promises: the reply to a request as a function of the request (\<open>server_reply\<close>), which
  the handler implements over the stream, and its decision (\<open>server_verdict\<close>) with the way it is
  written on a stream that may fail anywhere (\<open>answer\<close>). Log messages are not modelled.
\<close>

section \<open>The handler\<close>

text \<open>
  What the handler is compiled and run with: whether arithmetic overflow panics, the
  certificate library, the clock, and the JSON codec of the two message types.
\<close>

record ('k, 'c) server_env =
  overflow_checks :: bool
  crypto :: "('k, 'c) rcgen"
  clock :: int
  ser_response :: "agent_response \<Rightarrow> u8 list result"
  de_request :: "u8 list \<Rightarrow> agent_request result"

definition unsupported_version :: "u32 \<Rightarrow> string" where
  "unsupported_version version =
     ''unsupported protocol version '' @ show_u32 version @ '' (expected ''
       @ show_u32 PROTOCOL_VERSION @ '')''"

definition vm_unknown :: "string \<Rightarrow> string" where
  "vm_unknown vm_name = ''VM '' @ quoted vm_name @ '' not registered in host config''"

definition cid_mismatch :: "u32 \<Rightarrow> u32 \<Rightarrow> string" where
  "cid_mismatch expected peer_cid =
     ''CID verification failed: expected '' @ show_u32 expected @ '', got peer CID '' @ show_u32 peer_cid"

definition selector_failed :: "string \<Rightarrow> anyhow \<Rightarrow> string" where
  "selector_failed name e =
     ''failed to parse selector for workload '' @ quoted name @ '': '' @ anyhow_to_string e"

definition not_authorised :: "string \<Rightarrow> string \<Rightarrow> string" where
  "not_authorised vm_name identity =
     ''VM '' @ quoted vm_name @ '' / identity '' @ quoted identity @ '' not authorised''"

text \<open>
  The loop over the identities of a machine: the message of the early return, or the workloads.
\<close>

fun build_workloads ::
  "bool \<Rightarrow> (string, identity_policy) hashmap \<Rightarrow> (string, workload_config) hashmap
   \<Rightarrow> (string + (string, workload_config) hashmap) result" where
  "build_workloads checks [] workloads = Inr (Inr workloads)"
| "build_workloads checks ((name, policy) # rest) workloads =
     rbind (mul_u32 checks (ttl_minutes policy) 60) (\<lambda>validity.
     case parse_selector policy of
       Inl e \<Rightarrow> Inr (Inl (selector_failed name e))
     | Inr selector \<Rightarrow>
         build_workloads checks rest
           (AList.update name \<lparr>wc_selector = selector, validity_seconds = validity\<rparr> workloads))"

definition handle_handshake ::
  "('k, 'c) server_env \<Rightarrow> u32 \<Rightarrow> host_config \<Rightarrow> u32 \<Rightarrow> string \<Rightarrow> (stream, unit) io" where
  "handle_handshake env peer_cid config version vm_name =
     (let send = send_json (ser_response env) in
      if version \<noteq> PROTOCOL_VERSION then send (AgentError (unsupported_version version))
      else case map_of (vms config) vm_name of
        None \<Rightarrow> send (AgentError (vm_unknown vm_name))
      | Some entry \<Rightarrow>
          if vm_cid entry \<noteq> peer_cid then send (AgentError (cid_mismatch (vm_cid entry) peer_cid))
          else io_bind (io_lift (build_workloads (overflow_checks env) (identities entry) [])) (\<lambda>r.
               case r of
                 Inl msg \<Rightarrow> send (AgentError msg)
               | Inr workloads \<Rightarrow> send (HandshakeOk workloads)))"

definition handle_cert_request ::
  "('k, 'c) server_env \<Rightarrow> u32 \<Rightarrow> host_config \<Rightarrow> certificate_authority
   \<Rightarrow> u32 \<Rightarrow> string \<Rightarrow> string \<Rightarrow> string \<Rightarrow> (stream, unit) io" where
  "handle_cert_request env peer_cid config ca version vm_name identity csr_pem =
     (let send = send_json (ser_response env) in
      if version \<noteq> PROTOCOL_VERSION then send (AgentError (unsupported_version version))
      else io_bind (io_lift (resolve (overflow_checks env) config vm_name identity)) (\<lambda>r.
        case r of
          None \<Rightarrow> send (AgentError (not_authorised vm_name identity))
        | Some decision \<Rightarrow>
            if dec_vm_cid decision \<noteq> peer_cid
            then io_fail (Bail (Msg ''CID verification failed''))
            else io_bind (io_lift (map_err
                    (\<lambda>e. Bail (Msg (''signing failed: '' @ ca_error_to_string e)))
                    (sign_csr (crypto env) (clock env) ca
                       \<lparr>sr_csr_pem = csr_pem, sr_identity = identity,
                        sr_vm_name = dec_vm_name decision, sr_cid = peer_cid,
                        sr_ip = dec_ip decision,
                        sr_validity_seconds = dec_validity_seconds decision\<rparr>))) (\<lambda>cert_pem.
                 send (CertOk cert_pem (ca_cert_pem ca)))))"

definition handle_inner ::
  "('k, 'c) server_env \<Rightarrow> u32 \<Rightarrow> host_config \<Rightarrow> certificate_authority \<Rightarrow> (stream, unit) io" where
  "handle_inner env peer_cid config ca =
     io_bind (recv_json (de_request env)) (\<lambda>req.
     case req of
       Handshake version vm_name \<Rightarrow> handle_handshake env peer_cid config version vm_name
     | CertRequest version vm_name identity csr_pem \<Rightarrow>
         handle_cert_request env peer_cid config ca version vm_name identity csr_pem)"

text \<open>A panic ends the task; the connection is dropped without an answer.\<close>

definition handle_connection ::
  "('k, 'c) server_env \<Rightarrow> u32 \<Rightarrow> host_config \<Rightarrow> certificate_authority \<Rightarrow> stream \<Rightarrow> stream" where
  "handle_connection env peer_cid config ca s =
     (case handle_inner env peer_cid config ca s of
        (s', Inr u) \<Rightarrow> s'
      | (s', Inl (Bail e)) \<Rightarrow>
          fst (send_json (ser_response env) (AgentError (anyhow_to_string e)) s')
      | (s', Inl Panic) \<Rightarrow> s')"

section \<open>The reply as a function of the request\<close>

text \<open>The workloads of a machine, by name, or nothing if a selector does not parse.\<close>

definition workload_of :: "identity_policy \<Rightarrow> workload_config option" where
  "workload_of policy =
     (case parse_selector policy of
        Inl e \<Rightarrow> None
      | Inr sel \<Rightarrow> Some \<lparr>wc_selector = sel, validity_seconds = ttl_minutes policy * 60\<rparr>)"

text \<open>The reply to a request of a peer; \<open>Inl Panic\<close> is a crash of the task.\<close>

definition handshake_reply ::
  "bool \<Rightarrow> host_config \<Rightarrow> u32 \<Rightarrow> u32 \<Rightarrow> string \<Rightarrow> agent_response result" where
  "handshake_reply checks cfg cid version vm =
     (if version \<noteq> PROTOCOL_VERSION then Inr (AgentError (unsupported_version version))
      else case map_of (vms cfg) vm of
        None \<Rightarrow> Inr (AgentError (vm_unknown vm))
      | Some entry \<Rightarrow>
          if vm_cid entry \<noteq> cid then Inr (AgentError (cid_mismatch (vm_cid entry) cid))
          else rbind (build_workloads checks (identities entry) [])
                 (\<lambda>r. Inr (case r of Inl msg \<Rightarrow> AgentError msg | Inr ws \<Rightarrow> HandshakeOk ws)))"

definition cert_reply ::
  "('k, 'c) server_env \<Rightarrow> host_config \<Rightarrow> certificate_authority \<Rightarrow> u32
   \<Rightarrow> u32 \<Rightarrow> string \<Rightarrow> string \<Rightarrow> string \<Rightarrow> agent_response result" where
  "cert_reply env cfg ca cid version vm ident csr =
     (if version \<noteq> PROTOCOL_VERSION then Inr (AgentError (unsupported_version version))
      else case registration cfg vm ident of
        None \<Rightarrow> Inr (AgentError (not_authorised vm ident))
      | Some (owner, ip, pol) \<Rightarrow>
          rbind (mul_u32 (overflow_checks env) (ttl_minutes pol) 60) (\<lambda>validity. Inr (
            if owner \<noteq> cid then AgentError ''CID verification failed''
            else case sign_csr (crypto env) (clock env) ca
                        \<lparr>sr_csr_pem = csr, sr_identity = ident, sr_vm_name = vm, sr_cid = cid,
                         sr_ip = ip, sr_validity_seconds = validity\<rparr> of
                   Inl e \<Rightarrow> AgentError (''signing failed: '' @ ca_error_to_string e)
                 | Inr pem \<Rightarrow> CertOk pem (ca_cert_pem ca))))"

definition server_reply ::
  "('k, 'c) server_env \<Rightarrow> host_config \<Rightarrow> certificate_authority \<Rightarrow> u32 \<Rightarrow> agent_request
   \<Rightarrow> agent_response result" where
  "server_reply env cfg ca cid req =
     (case req of
        Handshake version vm \<Rightarrow> handshake_reply (overflow_checks env) cfg cid version vm
      | CertRequest version vm ident csr \<Rightarrow> cert_reply env cfg ca cid version vm ident csr)"

text \<open>Reading one request and writing its reply.\<close>

definition serve :: "('k, 'c) server_env \<Rightarrow> (agent_request \<Rightarrow> agent_response result) \<Rightarrow> stream \<Rightarrow> stream"
  where
  "serve env reply s =
     (case recv_json (de_request env) s of
        (s1, Inl Panic) \<Rightarrow> s1
      | (s1, Inl (Bail e)) \<Rightarrow>
          fst (send_json (ser_response env) (AgentError (anyhow_to_string e)) s1)
      | (s1, Inr req) \<Rightarrow>
          (case reply req of
             Inl e \<Rightarrow> s1
           | Inr resp \<Rightarrow> fst (send_json (ser_response env) resp s1)))"

text \<open>
  The same decision with the two refusals that are not replies: a peer that is not the owner and a
  signing request that fails are errors of the handler (\<open>Inl (Bail e)\<close>), reported when it ends.
\<close>

definition server_verdict ::
  "('k, 'c) server_env \<Rightarrow> host_config \<Rightarrow> certificate_authority \<Rightarrow> u32 \<Rightarrow> agent_request
   \<Rightarrow> agent_response result" where
  "server_verdict env cfg ca cid req =
     (case req of
        Handshake version vm \<Rightarrow> handshake_reply (overflow_checks env) cfg cid version vm
      | CertRequest version vm ident csr \<Rightarrow>
          (if version \<noteq> PROTOCOL_VERSION then Inr (AgentError (unsupported_version version))
           else case registration cfg vm ident of
             None \<Rightarrow> Inr (AgentError (not_authorised vm ident))
           | Some (owner, ip, pol) \<Rightarrow>
               rbind (mul_u32 (overflow_checks env) (ttl_minutes pol) 60) (\<lambda>validity.
                 if owner \<noteq> cid then Inl (Bail (Msg ''CID verification failed''))
                 else case sign_csr (crypto env) (clock env) ca
                             \<lparr>sr_csr_pem = csr, sr_identity = ident, sr_vm_name = vm, sr_cid = cid,
                              sr_ip = ip, sr_validity_seconds = validity\<rparr> of
                        Inl e \<Rightarrow> Inl (Bail (Msg (''signing failed: '' @ ca_error_to_string e)))
                      | Inr pem \<Rightarrow> Inr (CertOk pem (ca_cert_pem ca)))))"

text \<open>
  How a decision is written: a crash writes nothing; an error is reported in one error frame, and
  whether that succeeds does not matter; a reply is sent, and if sending it fails (the printer, a
  write or the flush), an error frame with that failure is attempted after it.
\<close>

definition answer :: "('k, 'c) server_env \<Rightarrow> agent_response result \<Rightarrow> stream \<Rightarrow> stream" where
  "answer env verdict s =
     (case verdict of
        Inl Panic \<Rightarrow> s
      | Inl (Bail e) \<Rightarrow> fst (send_json (ser_response env) (AgentError (anyhow_to_string e)) s)
      | Inr resp \<Rightarrow>
          (case send_json (ser_response env) resp s of
             (s', Inl (Bail e)) \<Rightarrow>
               fst (send_json (ser_response env) (AgentError (anyhow_to_string e)) s')
           | (s', _) \<Rightarrow> s'))"

section \<open>The handler implements the reply\<close>

text \<open>A JSON printer that does not fail, as \<^verbatim>\<open>serde_json\<close> on these message types.\<close>

definition ser_total :: "('m \<Rightarrow> u8 list result) \<Rightarrow> bool" where
  "ser_total ser \<longleftrightarrow> (\<forall>m. \<exists>p. ser m = Inr p)"

lemma recv_json_flush_err: "recv_json de s = (s', r) \<Longrightarrow> flush_err s' = flush_err s"
  using recv_json_frame_rule [of de s s' r] by (metis stream.select_convs stream.surjective
    stream.update_convs)

lemma send_json_fails_full:
  assumes "send_json ser m s = (s', Inl f)" and "ser m = Inr p" and "flush_err s = None"
  shows "room s' = 0"
  using assms
  by (auto simp: send_json_def io_bind_def write_all_def flush_def Let_def split: if_splits)

lemma send_json_no_room: "room s = 0 \<Longrightarrow> ser m = Inr p \<Longrightarrow> fst (send_json ser m s) = s"
  by (simp add: send_json_def io_bind_def write_all_def)

text \<open>The end of \<open>handle_connection\<close>: reporting an error that is not a panic.\<close>

definition report :: "('k, 'c) server_env \<Rightarrow> stream \<times> unit result \<Rightarrow> stream" where
  "report env sr =
     (case sr of
        (s', Inr u) \<Rightarrow> s'
      | (s', Inl (Bail e)) \<Rightarrow>
          fst (send_json (ser_response env) (AgentError (anyhow_to_string e)) s')
      | (s', Inl Panic) \<Rightarrow> s')"

lemma handle_connection_report:
  "handle_connection env cid cfg ca s = report env (handle_inner env cid cfg ca s)"
  by (simp add: handle_connection_def report_def)

lemma report_simps [simp]:
  "report env (s', Inr u) = s'"
  "report env (s', Inl Panic) = s'"
  "report env (s', Inl (Bail e))
     = fst (send_json (ser_response env) (AgentError (anyhow_to_string e)) s')"
  by (simp_all add: report_def)

text \<open>After a failed write the report writes nothing more, as long as flushing does not fail.\<close>

lemma report_send:
  assumes "ser_total (ser_response env)" and "flush_err s = None"
  shows "report env (send_json (ser_response env) m s) = fst (send_json (ser_response env) m s)"
proof -
  obtain s' r where send: "send_json (ser_response env) m s = (s', r)" by force
  from assms(1) obtain q where q: "\<And>x. ser_response env x = Inr (q x)"
    unfolding ser_total_def by metis
  show ?thesis
  proof (cases r)
    case (Inl f)
    with send q assms(2) have "room s' = 0" by (auto intro: send_json_fails_full)
    with Inl send q show ?thesis by (cases f) (simp_all add: send_json_no_room)
  qed (simp add: send)
qed

lemma handle_handshake_reply:
  assumes "ser_total (ser_response env)" and "flush_err s = None"
  shows "report env (handle_handshake env cid cfg version vm s) =
    (case handshake_reply (overflow_checks env) cfg cid version vm of
       Inl f \<Rightarrow> s
     | Inr resp \<Rightarrow> fst (send_json (ser_response env) resp s))"
proof -
  have "build_workloads checks ids ws \<noteq> Inl (Bail e)" for checks ids ws e
    by (induction checks ids ws rule: build_workloads.induct)
      (auto simp: rbind_eq_Inl split: sum.splits)
  then have panic: "report env (s, Inl f) = s" if "build_workloads checks ids ws = Inl f"
    for checks ids ws f
    using that by (cases f) auto
  show ?thesis
    using report_send [OF assms] panic
    by (auto simp: handle_handshake_def handshake_reply_def Let_def io_bind_def io_lift_def
        rbind_def split: option.splits sum.splits)
qed

lemma handle_cert_request_reply:
  assumes "ser_total (ser_response env)" and "flush_err s = None"
  shows "report env (handle_cert_request env cid cfg ca version vm ident csr s) =
    (case cert_reply env cfg ca cid version vm ident csr of
       Inl f \<Rightarrow> s
     | Inr resp \<Rightarrow> fst (send_json (ser_response env) resp s))"
proof (cases "version = PROTOCOL_VERSION")
  case False
  then show ?thesis using report_send [OF assms]
    by (simp add: handle_cert_request_def cert_reply_def)
next
  case version: True
  show ?thesis
  proof (cases "registration cfg vm ident")
    case None
    with version show ?thesis using report_send [OF assms]
      by (simp add: handle_cert_request_def cert_reply_def resolve_registration)
  next
    case (Some reg)
    obtain owner ip pol where reg: "reg = (owner, ip, pol)" by (cases reg)
    show ?thesis
    proof (cases "mul_u32 (overflow_checks env) (ttl_minutes pol) 60")
      case (Inl f)
      then have "f = Panic" by (cases f) auto
      with version Some reg Inl show ?thesis
        by (simp add: handle_cert_request_def cert_reply_def resolve_registration io_fail_def)
    next
      case (Inr validity)
      with version Some reg show ?thesis using report_send [OF assms]
        by (auto simp: handle_cert_request_def cert_reply_def resolve_registration io_fail_def
            io_bind_def io_lift_def Let_def map_err_def split: sum.splits)
    qed
  qed
qed

lemma handle_connection_serve:
  assumes "ser_total (ser_response env)" and "flush_err s = None"
  shows "handle_connection env cid cfg ca s = serve env (server_reply env cfg ca cid) s"
proof -
  obtain s1 r where recv: "recv_json (de_request env) s = (s1, r)" by force
  with assms have flush: "flush_err s1 = None" by (metis recv_json_flush_err)
  show ?thesis
  proof (cases r)
    case (Inl f)
    with recv show ?thesis
      by (cases f) (simp_all add: handle_connection_report handle_inner_def serve_def io_bind_def)
  next
    case (Inr req)
    with recv handle_handshake_reply [OF assms(1) flush]
      handle_cert_request_reply [OF assms(1) flush] show ?thesis
      by (cases req)
        (simp_all add: handle_connection_report handle_inner_def serve_def io_bind_def server_reply_def)
  qed
qed

text \<open>Without any assumption on the connection or the printer: the decision and how it is written.\<close>

lemma handle_handshake_verdict:
  "handle_handshake env cid cfg version vm s =
     io_bind (io_lift (server_verdict env cfg ca cid (Handshake version vm)))
       (send_json (ser_response env)) s"
  by (auto simp: handle_handshake_def server_verdict_def handshake_reply_def Let_def io_bind_def
      io_lift_def rbind_def split: option.splits sum.splits)

lemma handle_cert_request_verdict:
  "handle_cert_request env cid cfg ca version vm ident csr s =
     io_bind (io_lift (server_verdict env cfg ca cid (CertRequest version vm ident csr)))
       (send_json (ser_response env)) s"
proof (cases "mul_u32 (overflow_checks env) (ttl_minutes (snd (snd (the (registration cfg vm ident))))) 60")
  case (Inl f)
  then show ?thesis
    by (auto simp: handle_cert_request_def server_verdict_def resolve_registration Let_def
        io_bind_def io_lift_def io_fail_def rbind_def split: option.splits)
next
  case (Inr validity)
  then show ?thesis
    by (auto simp: handle_cert_request_def server_verdict_def resolve_registration Let_def
        io_bind_def io_lift_def io_fail_def rbind_def map_err_def split: option.splits sum.splits)
qed

lemma report_answer:
  "report env (io_bind (io_lift verdict) (send_json (ser_response env)) s) = answer env verdict s"
  by (auto simp: answer_def io_bind_def io_lift_def report_def split: sum.splits fault.splits)

lemma handle_connection_answer:
  "handle_connection env cid cfg ca s =
     (case recv_json (de_request env) s of
        (s1, r) \<Rightarrow> answer env (rbind r (server_verdict env cfg ca cid)) s1)"
proof -
  obtain s1 r where recv: "recv_json (de_request env) s = (s1, r)" by force
  show ?thesis
  proof (cases r)
    case (Inl f)
    with recv show ?thesis
      by (cases f) (simp_all add: handle_connection_report handle_inner_def io_bind_def answer_def)
  next
    case (Inr req)
    with recv have "handle_connection env cid cfg ca s
        = report env (io_bind (io_lift (server_verdict env cfg ca cid req))
            (send_json (ser_response env)) s1)"
      by (cases req) (simp_all add: handle_connection_report handle_inner_def io_bind_def
          handle_handshake_verdict [where ca = ca] handle_cert_request_verdict)
    with recv Inr show ?thesis by (simp add: report_answer)
  qed
qed

text \<open>A reply whose flush fails is followed by an error frame.\<close>

lemma send_json_flush_fails:
  assumes "ser m = Inr p" and "length (frame p) \<le> room s" and "flush_err s = Some e"
  shows "send_json ser m s =
    (s\<lparr>outp := outp s @ frame p, room := room s - length (frame p)\<rparr>, Inl (Bail (Msg e)))"
  using assms
  by (auto simp: send_json_def io_bind_def write_all_def frame_def flush_def Let_def io_lift_def)

lemma answer_flush_fails:
  assumes "flush_err s = Some e" and "ser_response env resp = Inr p"
    and "ser_response env (AgentError e) = Inr q"
    and "length (frame p) + length (frame q) \<le> room s"
  shows "outp (answer env (Inr resp) s) = outp s @ frame p @ frame q"
  using assms by (simp add: answer_def send_json_flush_fails)

section \<open>What is on the wire\<close>

lemma frame_inject: "frame p = frame q \<longleftrightarrow> p = q"
proof
  assume "frame p = frame q"
  then have "drop 4 (frame p) = drop 4 (frame q)" by simp
  then show "p = q" by (simp add: frame_def)
qed simp

text \<open>A send on a connection that is not exhausted afterwards wrote its frame in full.\<close>

lemma send_json_sent:
  assumes "flush_err s = None" and "0 < room (fst (send_json ser m s))" and "ser m = Inr p"
  shows "outp (fst (send_json ser m s)) = outp s @ frame p"
proof -
  obtain s' r where send: "send_json ser m s = (s', r)" by force
  show ?thesis
  proof (cases r)
    case (Inl f)
    with send assms send_json_fails_full [of ser m s s' f p] show ?thesis by simp
  next
    case (Inr u)
    with send assms(3) send_json_Inr [of ser m s s' u] show ?thesis by auto
  qed
qed

lemma recv_json_outp: "recv_json de s = (s1, r) \<Longrightarrow> outp s1 = outp s"
  using recv_json_frame_rule [of de s s1 r] by (metis stream.select_convs stream.surjective
    stream.update_convs)

text \<open>
  If a connection that is not exhausted carries one frame more, the frame is the reply to the
  request that was read, or the report that no request could be read.
\<close>

lemma serve_sent:
  assumes total: "ser_total (ser_response env)" and flush: "flush_err s = None"
    and room: "0 < room (serve env reply s)" and sent: "outp (serve env reply s) = outp s @ frame p"
  shows "\<exists>s1 resp. ser_response env resp = Inr p \<and>
    ((\<exists>e. recv_json (de_request env) s = (s1, Inl (Bail e)) \<and> resp = AgentError (anyhow_to_string e))
     \<or> (\<exists>req. recv_json (de_request env) s = (s1, Inr req) \<and> reply req = Inr resp))"
proof -
  obtain s1 r where recv: "recv_json (de_request env) s = (s1, r)" by force
  note s1 = recv_json_outp [OF recv]
  have flush1: "flush_err s1 = None" using flush recv by (metis recv_json_flush_err)
  have fr: "frame p \<noteq> []" by (simp add: frame_def to_be_bytes_def)
  from total obtain q where q: "\<And>x. ser_response env x = Inr (q x)" unfolding ser_total_def by metis
  have step: "ser_response env resp = Inr p"
    if "serve env reply s = fst (send_json (ser_response env) resp s1)" for resp
  proof -
    from that room have "outp (serve env reply s) = outp s1 @ frame (q resp)"
      using send_json_sent [OF flush1, of "ser_response env" resp "q resp"] q by simp
    with sent s1 have "q resp = p" by (simp add: frame_inject)
    with q show ?thesis by simp
  qed
  show ?thesis
  proof (cases r)
    case (Inl f)
    show ?thesis
    proof (cases f)
      case (Bail e)
      with recv Inl step [of "AgentError (anyhow_to_string e)"] show ?thesis
        by (auto simp: serve_def)
    next
      case Panic
      with recv Inl sent s1 fr show ?thesis by (simp add: serve_def)
    qed
  next
    case (Inr req)
    show ?thesis
    proof (cases "reply req")
      case (Inl f)
      with recv Inr sent s1 fr show ?thesis by (simp add: serve_def)
    next
      case (Inr resp)
      with recv \<open>r = Inr req\<close> step [of resp] show ?thesis by (auto simp: serve_def)
    qed
  qed
qed

lemma reply_is_CertOk:
  "(case r of Inl e \<Rightarrow> AgentError (f e) | Inr pem' \<Rightarrow> CertOk pem' c) = CertOk pem a
     \<longleftrightarrow> r = Inr pem \<and> a = c"
  "(if b then AgentError msg else resp) = CertOk pem a \<longleftrightarrow> \<not> b \<and> resp = CertOk pem a"
  by (cases r; auto) simp

lemma reply_is_HandshakeOk:
  "(case r of Inl msg \<Rightarrow> AgentError msg | Inr ws' \<Rightarrow> HandshakeOk ws') = HandshakeOk ws \<longleftrightarrow> r = Inr ws"
  by (cases r) auto

lemma cert_reply_CertOk:
  "cert_reply env cfg ca cid version vm ident csr = Inr (CertOk pem ca_pem) \<longleftrightarrow>
     version = PROTOCOL_VERSION \<and> ca_pem = ca_cert_pem ca \<and>
     (\<exists>ip pol validity. registration cfg vm ident = Some (cid, ip, pol)
        \<and> mul_u32 (overflow_checks env) (ttl_minutes pol) 60 = Inr validity
        \<and> sign_csr (crypto env) (clock env) ca
            \<lparr>sr_csr_pem = csr, sr_identity = ident, sr_vm_name = vm, sr_cid = cid, sr_ip = ip,
             sr_validity_seconds = validity\<rparr> = Inr pem)"
  by (cases "registration cfg vm ident") (auto simp: cert_reply_def reply_is_CertOk)

lemma handshake_reply_not_cert: "handshake_reply checks cfg cid version vm \<noteq> Inr (CertOk c a)"
  by (auto simp: handshake_reply_def split: option.splits sum.splits)

lemma cert_reply_not_handshake:
  "cert_reply env cfg ca cid version vm ident csr \<noteq> Inr (HandshakeOk ws)"
  by (auto simp: cert_reply_def split: option.splits sum.splits)

lemma server_reply_CertOk:
  "server_reply env cfg ca cid req = Inr (CertOk pem ca_pem) \<longleftrightarrow>
     (\<exists>version vm ident csr. req = CertRequest version vm ident csr
        \<and> cert_reply env cfg ca cid version vm ident csr = Inr (CertOk pem ca_pem))"
  by (cases req) (simp_all add: server_reply_def handshake_reply_not_cert)

text \<open>The workloads that are sent to a machine.\<close>

lemma build_workloads_Inr:
  "build_workloads checks ids ws = Inr (Inr out) \<longleftrightarrow>
     (\<forall>(n, pol) \<in> set ids. workload_of pol \<noteq> None \<and> mul_u32 checks (ttl_minutes pol) 60 \<noteq> Inl Panic)
     \<and> out = fold (\<lambda>(k, v). AList.update k v) (map (\<lambda>(n, pol). (n, the (workload_of pol))) ids) ws"
proof (induction checks ids ws rule: build_workloads.induct)
  case (2 checks name pol rest ws)
  then show ?case
    by (cases "mul_u32 checks (ttl_minutes pol) 60"; cases "parse_selector pol")
      (auto simp: workload_of_def mul_u32_def split: if_splits)
qed auto

lemma build_workloads_map_of:
  assumes "build_workloads checks ids [] = Inr (Inr out)" and "hm_wf ids"
  shows "map_of out = (\<lambda>name. Option.bind (map_of ids name) workload_of)"
proof
  fix name
  let ?kvs = "map (\<lambda>(n, pol). (n, the (workload_of pol))) ids"
  from assms(2) have "distinct (map fst ?kvs)"
    by (simp add: hm_wf_def comp_def case_prod_beta)
  with assms(1) have out: "map_of out = map_of ?kvs"
    by (simp add: build_workloads_Inr hm.get_fold_put_distinct)
  have "map_of ?kvs name = map_option (\<lambda>pol. the (workload_of pol)) (map_of ids name)"
    by (simp add: map_of_map)
  moreover have "workload_of pol \<noteq> None" if "map_of ids name = Some pol" for pol
    using assms(1) map_of_SomeD [OF that] by (auto simp: build_workloads_Inr)
  ultimately show "map_of out name = Option.bind (map_of ids name) workload_of"
    by (cases "map_of ids name") (auto simp: out)
qed

section \<open>The server's promises\<close>

text \<open>
  C2: On every input and every connection the handler reads one request, takes the decision that
  is a function of the request, the configuration and the peer, and writes it: nothing for a
  crash, one error frame for an error, and otherwise the reply, followed by an error frame only
  if sending the reply failed. If the printer does not fail and the connection can be flushed,
  there is never a second frame, also where the connection breaks in the middle of a write: the
  handler reads one request and writes its reply. If flushing fails and there is room, every
  reply is written in full and then the error of the flush in a second frame.
\<close>
theorem handle_connection_correct:
  "handle_connection env cid cfg ca s =
     (case recv_json (de_request env) s of
        (s1, r) \<Rightarrow> answer env (rbind r (server_verdict env cfg ca cid)) s1)
   \<and> (ser_total (ser_response env) \<and> flush_err s = None \<longrightarrow>
        handle_connection env cid cfg ca s = serve env (server_reply env cfg ca cid) s)
   \<and> (\<forall>s1 req resp e p q.
        recv_json (de_request env) s = (s1, Inr req)
        \<and> server_verdict env cfg ca cid req = Inr resp \<and> flush_err s = Some e
        \<and> ser_response env resp = Inr p \<and> ser_response env (AgentError e) = Inr q
        \<and> length (frame p) + length (frame q) \<le> room s \<longrightarrow>
        outp (handle_connection env cid cfg ca s) = outp s @ frame p @ frame q)"
proof (intro conjI allI impI; (elim conjE)?)
  fix s1 req resp e p q
  assume recv: "recv_json (de_request env) s = (s1, Inr req)"
    and verdict: "server_verdict env cfg ca cid req = Inr resp" and e: "flush_err s = Some e"
    and ser: "ser_response env resp = Inr p" "ser_response env (AgentError e) = Inr q"
    and room: "length (frame p) + length (frame q) \<le> room s"
  have s1: "flush_err s1 = Some e" "outp s1 = outp s" "room s1 = room s"
    using recv_json_frame_rule [OF recv] e by (metis stream.select_convs stream.surjective
        stream.update_convs)+
  with recv verdict answer_flush_fails [OF s1(1) ser] room
  show "outp (handle_connection env cid cfg ca s) = outp s @ frame p @ frame q"
    by (simp add: handle_connection_answer)
qed (rule handle_connection_answer, simp only: handle_connection_serve)

text \<open>A codec on which the theorems are applied: the reply of interest is the byte 1.\<close>

definition sample_cert_ok :: agent_response where
  "sample_cert_ok = CertOk ''mallory'' (ca_cert_pem sample_ca)"

definition sample_env :: "agent_response \<Rightarrow> agent_request \<Rightarrow> (string, csr) server_env" where
  "sample_env resp req =
     \<lparr>overflow_checks = False, crypto = sample_rcgen, clock = 1000,
      ser_response = (\<lambda>m. Inr (if m = resp then [1] else [0])),
      de_request = (\<lambda>bs. Inr req)\<rparr>"

definition sample_cert_request :: agent_request where
  "sample_cert_request = CertRequest 1 ''vm'' ''service-a'' ''mallory''"

definition sample_conn :: stream where
  "sample_conn = sample_stream\<lparr>inp := frame [5]\<rparr>"

lemma sample_env_simps [simp]:
  "ser_total (ser_response (sample_env resp req))"
  "ser_response (sample_env resp req) m = Inr (if m = resp then [1] else [0])"
  "de_request (sample_env resp req) bs = Inr req"
  "overflow_checks (sample_env resp req) = False"
  "crypto (sample_env resp req) = sample_rcgen"
  "clock (sample_env resp req) = 1000"
  by (simp_all add: sample_env_def ser_total_def)

lemma sample_conn_simps [simp]: "flush_err sample_conn = None" "outp sample_conn = []"
    "room sample_conn = 10000000"
  by (simp_all add: sample_conn_def sample_stream_def)

lemma sample_recv:
  "recv_json (de_request (sample_env resp req)) sample_conn = (sample_conn\<lparr>inp := []\<rparr>, Inr req)"
proof -
  have "split_frame (inp sample_conn) = Some ([5], [])"
    using fr.get_put [of "[5]" "[]"] by (simp add: sample_conn_def MAX_MSG_BYTES_def)
  from recv_json_split_frame [OF this, of "de_request (sample_env resp req)"] show ?thesis by simp
qed

lemma sample_handled:
  assumes "server_reply (sample_env resp req) cfg ca cid req = Inr resp"
  shows "handle_connection (sample_env resp req) cid cfg ca sample_conn
    = sample_conn\<lparr>inp := [], outp := frame [1], room := 9999995\<rparr>"
proof -
  have "accepts (sample_conn\<lparr>inp := []\<rparr>) (frame [1])"
    by (simp add: accepts_def frame_def)
  with assms show ?thesis
    using send_json_ok [of "ser_response (sample_env resp req)" resp "[1]"]
    by (simp add: handle_connection_serve serve_def sample_recv frame_def)
qed

lemma sample_registration:
  "registration sample_config ''vm'' ''service-a'' = Some (3, None, sample_policy)"
  by (simp add: registration_def sample_config_def)

lemma sample_issued:
  "sign_csr sample_rcgen 1000 sample_ca
     \<lparr>sr_csr_pem = ''mallory'', sr_identity = ''service-a'', sr_vm_name = ''vm'', sr_cid = 3,
      sr_ip = None, sr_validity_seconds = v\<rparr> = Inr ''mallory''"
  by (simp add: sign_csr_def build_sans_def sample_rcgen_def sample_ca_def ca_rcgen_cert_def
      ca_key_pair_def common_names_def)

lemma sample_server_reply:
  "server_reply (sample_env sample_cert_ok sample_cert_request) sample_config sample_ca 3
     sample_cert_request = Inr sample_cert_ok"
  by (simp add: server_reply_def sample_cert_request_def cert_reply_def sample_registration
      PROTOCOL_VERSION_def sample_issued sample_cert_ok_def)

theorem handle_connection_correct_witness:
  "handle_connection (sample_env sample_cert_ok sample_cert_request) 3 sample_config sample_ca sample_conn
   = serve (sample_env sample_cert_ok sample_cert_request)
       (server_reply (sample_env sample_cert_ok sample_cert_request) sample_config sample_ca 3)
       sample_conn
   \<and> outp (handle_connection (sample_env sample_cert_ok sample_cert_request) 3 sample_config sample_ca
       (sample_conn\<lparr>flush_err := Some ''broken pipe''\<rparr>)) = frame [1] @ frame [0]"
proof
  let ?env = "sample_env sample_cert_ok sample_cert_request"
  show "handle_connection ?env 3 sample_config sample_ca sample_conn
      = serve ?env (server_reply ?env sample_config sample_ca 3) sample_conn"
    using conjunct1 [OF conjunct2 [OF handle_connection_correct [of ?env 3 sample_config sample_ca
      sample_conn]]] by simp
  let ?s = "sample_conn\<lparr>flush_err := Some ''broken pipe''\<rparr>"
  have "split_frame (inp ?s) = Some ([5], [])"
    using fr.get_put [of "[5]" "[]"] by (simp add: sample_conn_def MAX_MSG_BYTES_def)
  from recv_json_split_frame [OF this, of "de_request ?env"]
  have recv: "recv_json (de_request ?env) ?s = (?s\<lparr>inp := []\<rparr>, Inr sample_cert_request)" by simp
  have verdict: "server_verdict ?env sample_config sample_ca 3 sample_cert_request = Inr sample_cert_ok"
    by (simp add: server_verdict_def sample_cert_request_def sample_registration
        PROTOCOL_VERSION_def sample_issued sample_cert_ok_def)
  then have "recv_json (de_request ?env) ?s = (?s\<lparr>inp := []\<rparr>, Inr sample_cert_request)
      \<and> server_verdict ?env sample_config sample_ca 3 sample_cert_request = Inr sample_cert_ok
      \<and> flush_err ?s = Some ''broken pipe'' \<and> ser_response ?env sample_cert_ok = Inr [1]
      \<and> ser_response ?env (AgentError ''broken pipe'') = Inr [0]
      \<and> length (frame [1]) + length (frame [0]) \<le> room ?s"
    using recv by (simp add: sample_cert_ok_def frame_def)
  from handle_connection_correct [THEN conjunct2, THEN conjunct2, rule_format, OF this]
  show "outp (handle_connection ?env 3 sample_config sample_ca ?s) = frame [1] @ frame [0]" by simp
qed

text \<open>
  C1: A certificate leaves the server only for a registered pair: if the bytes written to a
  connection that did not break are a certificate reply, then the request read was a certificate
  request of the right version for a machine and an identity that the configuration registers
  with the context identifier of the peer, and the certificate is what the signer made of exactly
  that request.
\<close>
theorem certificate_only_if_registered:
  assumes "ser_total (ser_response env)" and "flush_err s = None"
    and "0 < room (handle_connection env cid cfg ca s)"
    and "outp (handle_connection env cid cfg ca s) = outp s @ frame p"
    and "\<And>m. ser_response env m = Inr p \<Longrightarrow> m = CertOk pem ca_pem"
  shows "\<exists>s1 vm ident csr ip validity.
    recv_json (de_request env) s = (s1, Inr (CertRequest PROTOCOL_VERSION vm ident csr))
    \<and> registered cfg vm ident cid \<and> ca_pem = ca_cert_pem ca
    \<and> sign_csr (crypto env) (clock env) ca
        \<lparr>sr_csr_pem = csr, sr_identity = ident, sr_vm_name = vm, sr_cid = cid, sr_ip = ip,
         sr_validity_seconds = validity\<rparr> = Inr pem"
proof -
  note serve = handle_connection_serve [OF assms(1,2), of cid cfg ca]
  from serve_sent [OF assms(1,2) assms(3,4) [unfolded serve]] assms(5) obtain s1 req where
    recv: "recv_json (de_request env) s = (s1, Inr req)"
    and "server_reply env cfg ca cid req = Inr (CertOk pem ca_pem)"
    by blast
  then obtain vm ident csr ip pol validity where
    "req = CertRequest PROTOCOL_VERSION vm ident csr" "ca_pem = ca_cert_pem ca"
    "registration cfg vm ident = Some (cid, ip, pol)"
    "sign_csr (crypto env) (clock env) ca
        \<lparr>sr_csr_pem = csr, sr_identity = ident, sr_vm_name = vm, sr_cid = cid, sr_ip = ip,
         sr_validity_seconds = validity\<rparr> = Inr pem"
    by (auto simp: server_reply_CertOk cert_reply_CertOk)
  with recv show ?thesis by (auto simp: registered_def)
qed

theorem certificate_only_if_registered_witness:
  "registered sample_config ''vm'' ''service-a'' 3"
proof -
  let ?env = "sample_env sample_cert_ok sample_cert_request"
  note handled = sample_handled [OF sample_server_reply, unfolded sample_cert_ok_def]
  have "\<exists>s1 vm ident csr ip validity.
      recv_json (de_request ?env) sample_conn = (s1, Inr (CertRequest PROTOCOL_VERSION vm ident csr))
      \<and> registered sample_config vm ident 3 \<and> ca_cert_pem sample_ca = ca_cert_pem sample_ca
      \<and> sign_csr (crypto ?env) (clock ?env) sample_ca
          \<lparr>sr_csr_pem = csr, sr_identity = ident, sr_vm_name = vm, sr_cid = 3, sr_ip = ip,
           sr_validity_seconds = validity\<rparr> = Inr ''mallory''"
    by (rule certificate_only_if_registered [where p = "[1]"])
      (simp_all add: handled sample_cert_ok_def split: if_splits)
  then show ?thesis by (auto simp: sample_recv sample_cert_request_def)
qed

text \<open>
  C9: A registered machine gets its certificate: a well-formed request from the registered
  context identifier, with a lifetime that fits 32 bits and a signing request the library
  accepts, is answered by exactly one frame, the certificate and the authority's own.
\<close>
theorem registered_machine_served:
  assumes "ser_total (ser_response env)" and "flush_err s = None"
    and "recv_json (de_request env) s = (s1, Inr (CertRequest PROTOCOL_VERSION vm ident csr))"
    and "registration cfg vm ident = Some (cid, ip, pol)" and "60 * unat (ttl_minutes pol) < 2 ^ 32"
    and "sign_csr (crypto env) (clock env) ca
          \<lparr>sr_csr_pem = csr, sr_identity = ident, sr_vm_name = vm, sr_cid = cid, sr_ip = ip,
           sr_validity_seconds = ttl_minutes pol * 60\<rparr> = Inr pem"
    and "ser_response env (CertOk pem (ca_cert_pem ca)) = Inr p" and "accepts s1 (frame p)"
  shows "handle_connection env cid cfg ca s =
    s1\<lparr>outp := outp s @ frame p, room := room s1 - length (frame p)\<rparr>"
proof -
  from assms(5) have "mul_u32 (overflow_checks env) (ttl_minutes pol) 60 = Inr (ttl_minutes pol * 60)"
    by (simp add: mul_u32_def mult.commute)
  with assms(4,6) have "server_reply env cfg ca cid (CertRequest PROTOCOL_VERSION vm ident csr)
      = Inr (CertOk pem (ca_cert_pem ca))"
    by (simp add: server_reply_def cert_reply_CertOk)
  with assms(3,7,8) recv_json_outp [OF assms(3)] show ?thesis
    by (simp add: handle_connection_serve [OF assms(1,2)] serve_def send_json_ok)
qed

definition sample_short_config :: host_config where
  "sample_short_config = sample_config
     \<lparr>vms := [(''vm'', \<lparr>vm_cid = 3, vm_ip = None,
        identities = [(''service-a'', sample_policy\<lparr>ttl_minutes := 10\<rparr>)]\<rparr>)]\<rparr>"

theorem registered_machine_served_witness:
  "outp (handle_connection (sample_env sample_cert_ok sample_cert_request) 3 sample_short_config
     sample_ca sample_conn) = frame [1]"
proof -
  let ?env = "sample_env sample_cert_ok sample_cert_request"
  have recv: "recv_json (de_request ?env) sample_conn
      = (sample_conn\<lparr>inp := []\<rparr>, Inr (CertRequest PROTOCOL_VERSION ''vm'' ''service-a'' ''mallory''))"
    by (simp add: sample_recv sample_cert_request_def PROTOCOL_VERSION_def)
  have "accepts (sample_conn\<lparr>inp := []\<rparr>) (frame [1])"
    by (simp add: accepts_def frame_def)
  then have "handle_connection ?env 3 sample_short_config sample_ca sample_conn =
      sample_conn\<lparr>inp := [], outp := outp sample_conn @ frame [1],
        room := room (sample_conn\<lparr>inp := []\<rparr>) - length (frame [1])\<rparr>"
    by (intro registered_machine_served [OF _ _ recv, of _ _ None
          "sample_policy\<lparr>ttl_minutes := 10\<rparr>" _ "''mallory''"])
      (simp_all add: registration_def sample_short_config_def sample_issued sample_cert_ok_def)
  then show ?thesis by simp
qed

text \<open>
  An impostor is refused: a certificate request for a pair that is not registered with the
  peer's own context identifier is answered by an error message and nothing else, whatever the
  other machines of the configuration are allowed.
\<close>
theorem impostor_gets_error:
  assumes "ser_total (ser_response env)" and "flush_err s = None"
    and "recv_json (de_request env) s = (s1, Inr (CertRequest version vm ident csr))"
    and "\<not> registered cfg vm ident cid" and "resolve (overflow_checks env) cfg vm ident \<noteq> Inl Panic"
  shows "\<exists>msg. handle_connection env cid cfg ca s
    = fst (send_json (ser_response env) (AgentError msg) s1)"
proof -
  have "\<exists>msg. cert_reply env cfg ca cid version vm ident csr = Inr (AgentError msg)"
  proof (cases "resolve (overflow_checks env) cfg vm ident")
    case (Inl f)
    with assms(5) pol.ask_never_bails show ?thesis by (cases f) auto
  next
    case (Inr d)
    with assms(4) pol.impostor_refused [of "overflow_checks env" cfg vm ident _ cid] show ?thesis
      by (cases "registration cfg vm ident")
        (auto simp: cert_reply_def resolve_registration)
  qed
  with assms(3) show ?thesis
    by (auto simp: handle_connection_serve [OF assms(1,2)] serve_def server_reply_def)
qed

theorem impostor_gets_error_witness:
  "\<exists>msg. handle_connection (sample_env sample_cert_ok sample_cert_request) 4 sample_config sample_ca
      sample_conn
    = fst (send_json (ser_response (sample_env sample_cert_ok sample_cert_request)) (AgentError msg)
        (sample_conn\<lparr>inp := []\<rparr>))"
proof -
  have recv: "recv_json (de_request (sample_env sample_cert_ok sample_cert_request)) sample_conn
      = (sample_conn\<lparr>inp := []\<rparr>, Inr (CertRequest 1 ''vm'' ''service-a'' ''mallory''))"
    by (simp add: sample_recv sample_cert_request_def)
  show ?thesis
    by (rule impostor_gets_error [OF _ _ recv])
      (simp_all add: registered_def sample_registration resolve_registration)
qed

text \<open>
  C11: A machine learns only its own workloads: a handshake reply that leaves the server goes to
  a peer whose context identifier is that of the machine it named, and holds for every identity
  of that machine, and for no other name, the parsed selector and the lifetime in seconds.
\<close>
theorem handshake_discloses_own_entry:
  assumes "ser_total (ser_response env)" and "flush_err s = None"
    and "0 < room (handle_connection env cid cfg ca s)"
    and "outp (handle_connection env cid cfg ca s) = outp s @ frame p"
    and "\<And>m. ser_response env m = Inr p \<Longrightarrow> m = HandshakeOk ws"
    and "\<And>vm entry. (vm, entry) \<in> set (vms cfg) \<Longrightarrow> hm_wf (identities entry)"
  shows "\<exists>s1 vm entry. recv_json (de_request env) s = (s1, Inr (Handshake PROTOCOL_VERSION vm))
    \<and> map_of (vms cfg) vm = Some entry \<and> vm_cid entry = cid
    \<and> map_of ws = (\<lambda>name. Option.bind (map_of (identities entry) name) workload_of)"
proof -
  note serve = handle_connection_serve [OF assms(1,2), of cid cfg ca]
  from serve_sent [OF assms(1,2) assms(3,4) [unfolded serve]] assms(5) obtain s1 req where
    recv: "recv_json (de_request env) s = (s1, Inr req)"
    and "server_reply env cfg ca cid req = Inr (HandshakeOk ws)"
    by blast
  then obtain vm where req: "req = Handshake PROTOCOL_VERSION vm"
    and reply: "handshake_reply (overflow_checks env) cfg cid PROTOCOL_VERSION vm = Inr (HandshakeOk ws)"
    by (cases req) (auto simp: server_reply_def cert_reply_not_handshake handshake_reply_def
        split: if_splits)
  then obtain entry where entry: "map_of (vms cfg) vm = Some entry" "vm_cid entry = cid"
    and build: "build_workloads (overflow_checks env) (identities entry) [] = Inr (Inr ws)"
    by (auto simp: handshake_reply_def reply_is_HandshakeOk split: option.splits if_splits)
  from assms(6) [OF map_of_SomeD [OF entry(1)]] have "hm_wf (identities entry)" .
  from build_workloads_map_of [OF build this] recv req entry show ?thesis by blast
qed

definition sample_workloads :: "(string, workload_config) hashmap" where
  "sample_workloads = [(''web'', \<lparr>wc_selector = \<lparr>unix = None, systemd = None\<rparr>, validity_seconds = 600\<rparr>)]"

definition sample_web_config :: host_config where
  "sample_web_config = sample_config
     \<lparr>vms := [(''vm'', \<lparr>vm_cid = 3, vm_ip = None,
        identities = [(''web'', \<lparr>pol_selector = [], ttl_minutes = 10\<rparr>)]\<rparr>)]\<rparr>"

lemma sample_web_reply:
  "server_reply (sample_env (HandshakeOk sample_workloads) (Handshake 1 ''vm'')) sample_web_config
     sample_ca 3 (Handshake 1 ''vm'') = Inr (HandshakeOk sample_workloads)"
proof -
  have "trim [] = []" using set_trim [of "[]"] by simp
  then have "parse_selector \<lparr>pol_selector = [], ttl_minutes = 10\<rparr> = Inr \<lparr>unix = None, systemd = None\<rparr>"
    by (simp add: parse_selector_no_parts selector_parts_def)
  then show ?thesis
    by (simp add: server_reply_def handshake_reply_def sample_web_config_def PROTOCOL_VERSION_def
        sample_workloads_def)
qed

theorem handshake_discloses_own_entry_witness:
  "\<exists>s1 vm entry.
     recv_json (de_request (sample_env (HandshakeOk sample_workloads) (Handshake 1 ''vm''))) sample_conn
       = (s1, Inr (Handshake PROTOCOL_VERSION vm))
     \<and> map_of (vms sample_web_config) vm = Some entry \<and> vm_cid entry = 3
     \<and> map_of sample_workloads = (\<lambda>name. Option.bind (map_of (identities entry) name) workload_of)"
proof -
  have "hm_wf (identities entry)" if "(vm, entry) \<in> set (vms sample_web_config)" for vm entry
    using that by (simp add: sample_web_config_def hm_wf_def)
  then show ?thesis
    by (intro handshake_discloses_own_entry [where p = "[1]" and ca = sample_ca])
      (simp_all add: sample_handled [OF sample_web_reply] split: if_splits)
qed

text \<open>
  C26: The daemon never fails a handshake of a registered machine: with a configuration that was
  loaded from a file, and lifetimes that fit, a handshake of the right version from the right
  context identifier is answered with the workloads of the machine.
\<close>
theorem loaded_config_handshake_ok:
  assumes "host_config_from_file read_file parse_json path = Inr cfg"
    and "ser_total (ser_response env)" and "flush_err s = None"
    and "recv_json (de_request env) s = (s1, Inr (Handshake PROTOCOL_VERSION vm))"
    and "map_of (vms cfg) vm = Some entry" and "vm_cid entry = cid" and "hm_wf (identities entry)"
    and "overflow_checks env \<Longrightarrow> \<forall>(n, pol) \<in> set (identities entry). 60 * unat (ttl_minutes pol) < 2 ^ 32"
  shows "\<exists>ws. handle_connection env cid cfg ca s = fst (send_json (ser_response env) (HandshakeOk ws) s1)
    \<and> map_of ws = (\<lambda>name. Option.bind (map_of (identities entry) name) workload_of)"
proof -
  have "workload_of pol \<noteq> None \<and> mul_u32 (overflow_checks env) (ttl_minutes pol) 60 \<noteq> Inl Panic"
    if "(n, pol) \<in> set (identities entry)" for n pol
  proof -
    from assms(1) have "selectors_ok cfg" by (simp add: host_config_from_file_Inr)
    with map_of_SomeD [OF assms(5)] that obtain sel where "parse_selector pol = Inr sel"
      by (fastforce simp: selectors_ok_def)
    moreover from assms(8) that have "overflow_checks env \<longrightarrow> \<not> 2 ^ 32 \<le> 60 * unat (ttl_minutes pol)"
      by fastforce
    ultimately show ?thesis by (simp add: workload_of_def mul_u32_60_panic)
  qed
  then obtain ws where ws: "build_workloads (overflow_checks env) (identities entry) [] = Inr (Inr ws)"
    using build_workloads_Inr by blast
  with assms(5,6) have "server_reply env cfg ca cid (Handshake PROTOCOL_VERSION vm) = Inr (HandshakeOk ws)"
    by (simp add: server_reply_def handshake_reply_def)
  with assms(4) have "handle_connection env cid cfg ca s
      = fst (send_json (ser_response env) (HandshakeOk ws) s1)"
    by (simp add: handle_connection_serve [OF assms(2,3)] serve_def)
  with build_workloads_map_of [OF ws assms(7)] show ?thesis by blast
qed

theorem loaded_config_handshake_ok_witness:
  "\<exists>ws. handle_connection (sample_env (HandshakeOk sample_workloads) (Handshake 1 ''vm'')) 3
        sample_web_config sample_ca sample_conn
      = fst (send_json (ser_response (sample_env (HandshakeOk sample_workloads) (Handshake 1 ''vm'')))
          (HandshakeOk ws) (sample_conn\<lparr>inp := []\<rparr>))
    \<and> map_of ws = (\<lambda>name. Option.bind
        (map_of [(''web'', \<lparr>pol_selector = [], ttl_minutes = 10\<rparr>)] name) workload_of)"
proof -
  let ?entry = "\<lparr>vm_cid = 3, vm_ip = None,
    identities = [(''web'', \<lparr>pol_selector = [], ttl_minutes = 10\<rparr>)]\<rparr>"
  have "trim [] = []" using set_trim [of "[]"] by simp
  then have "parse_selector \<lparr>pol_selector = [], ttl_minutes = 10\<rparr> = Inr \<lparr>unix = None, systemd = None\<rparr>"
    by (simp add: parse_selector_no_parts selector_parts_def)
  then have load: "host_config_from_file (\<lambda>_. Inr []) (\<lambda>_. Inr sample_web_config) []
      = Inr sample_web_config"
    by (simp add: host_config_from_file_Inr selectors_ok_def sample_web_config_def)
      (simp add: sample_config_def)
  have recv: "recv_json (de_request (sample_env (HandshakeOk sample_workloads) (Handshake 1 ''vm'')))
      sample_conn = (sample_conn\<lparr>inp := []\<rparr>, Inr (Handshake PROTOCOL_VERSION ''vm''))"
    by (simp add: sample_recv PROTOCOL_VERSION_def)
  from loaded_config_handshake_ok [OF load _ _ recv, of ?entry 3 sample_ca] show ?thesis
    by (simp add: sample_web_config_def hm_wf_def)
qed

text \<open>
  One request, one reply: on a connection that can be flushed, whatever the peer sends and whatever
  the configuration, the handler consumes what reading one message consumes and writes a prefix of the frame of one message.
\<close>
theorem one_request_one_reply:
  assumes "ser_total (ser_response env)" and "flush_err s = None"
  shows "\<exists>w. inp (handle_connection env cid cfg ca s) = inp (fst (recv_json (de_request env) s))
    \<and> outp (handle_connection env cid cfg ca s) = outp s @ w
    \<and> (w \<noteq> [] \<longrightarrow> (\<exists>resp p rest. ser_response env resp = Inr p \<and> frame p = w @ rest))"
proof -
  obtain s1 r where recv: "recv_json (de_request env) s = (s1, r)" by force
  note s1 = recv_json_outp [OF recv]
  have "serve env (server_reply env cfg ca cid) s = s1
      \<or> (\<exists>resp. serve env (server_reply env cfg ca cid) s = fst (send_json (ser_response env) resp s1))"
    using recv by (auto simp: serve_def split: sum.splits fault.splits)
  then show ?thesis
  proof
    assume "serve env (server_reply env cfg ca cid) s = s1"
    with recv s1 show ?thesis by (simp add: handle_connection_serve [OF assms])
  next
    assume "\<exists>resp. serve env (server_reply env cfg ca cid) s = fst (send_json (ser_response env) resp s1)"
    then obtain resp s2 r2 where send: "send_json (ser_response env) resp s1 = (s2, r2)"
      and res: "serve env (server_reply env cfg ca cid) s = s2"
      by (metis prod.collapse)
    from send_json_prefix [OF send] recv s1 show ?thesis
      by (auto simp: handle_connection_serve [OF assms] res)
  qed
qed

theorem one_request_one_reply_witness:
  "\<exists>w. outp (handle_connection (sample_env sample_cert_ok sample_cert_request) 3 sample_config
      sample_ca sample_conn) = outp sample_conn @ w"
  using one_request_one_reply [of "sample_env sample_cert_ok sample_cert_request" sample_conn 3
      sample_config sample_ca] by auto

end
