(* ===== verification/Server.thy ===== *)
theory Server imports Handler begin

text \<open>
  The server program (\<^verbatim>\<open>listener.rs\<close> and \<^verbatim>\<open>main.rs\<close> of
  \<^verbatim>\<open>apps/rust-apps/authn-scope-server/src\<close>): start-up from the command line to the listening
  socket, and the accept loop that checks the peer's port and hands the connection to the
  handler. Handlers run as tasks of their own; they share only the configuration and the
  authority, which nothing modifies, so each connection's result is that of its handler alone.
\<close>

section \<open>The accept loop\<close>

text \<open>What accepting yields: the peer's identifier and port and the stream, or an error.\<close>

datatype incoming = Incoming (in_cid: u32) (in_port: u32) (in_stream: stream) | AcceptError string

text \<open>
  One accepted connection, with the time its handler signs at: the stream as it is when the
  connection is closed. A connection from another port is dropped as it is.
\<close>

definition accept_connection ::
  "('k, 'c) server_env \<Rightarrow> host_config \<Rightarrow> certificate_authority \<Rightarrow> int \<Rightarrow> u32 \<Rightarrow> u32 \<Rightarrow> stream \<Rightarrow> stream" where
  "accept_connection env config ca now cid port s =
     (if port \<noteq> peer_port config then s
      else handle_connection (env\<lparr>clock := now\<rparr>) cid config ca s)"

fun listener_loop ::
  "('k, 'c) server_env \<Rightarrow> host_config \<Rightarrow> certificate_authority \<Rightarrow> (incoming \<times> int) list \<Rightarrow> stream list" where
  "listener_loop env config ca [] = []"
| "listener_loop env config ca ((AcceptError e, now) # rest) = listener_loop env config ca rest"
| "listener_loop env config ca ((Incoming cid port s, now) # rest) =
     accept_connection env config ca now cid port s # listener_loop env config ca rest"

text \<open>
  \<open>bind\<close> is the outcome of binding the listening socket to a port; after that the loop runs until
  the process is terminated, here over the connections that arrive before that.
\<close>

definition run_listener ::
  "('k, 'c) server_env \<Rightarrow> (u32 \<Rightarrow> string option) \<Rightarrow> host_config \<Rightarrow> certificate_authority
   \<Rightarrow> (incoming \<times> int) list \<Rightarrow> anyhow + stream list" where
  "run_listener env bind config ca events =
     (case bind (server_port config) of
        Some e \<Rightarrow> Inl (Msg e)
      | None \<Rightarrow> Inr (listener_loop env config ca events))"

section \<open>Start-up\<close>

record server_cli =
  cli_config :: string
  cli_genkey :: bool

definition default_config_path :: string where
  "default_config_path = ''/etc/authn-scope/host.json''"

text \<open>The process ends with an exit code, or serves until it is terminated.\<close>

datatype server_outcome = Exited nat | Served "stream list"

text \<open>
  \<open>uid\<close> is the user the process runs as, \<open>cli\<close> the parsed command line. The configuration is read
  from the same file store as the authority's files.
\<close>

definition server_main ::
  "('k, 'c) server_env \<Rightarrow> (string \<Rightarrow> anyhow + host_config) \<Rightarrow> (u32 \<Rightarrow> string option) \<Rightarrow> nat \<Rightarrow> u32
   \<Rightarrow> server_cli \<Rightarrow> (incoming \<times> int) list \<Rightarrow> fs \<Rightarrow> fs \<times> server_outcome" where
  "server_main env parse_json bind seed uid cli events w =
     (if uid \<noteq> 0 then (w, Exited 1)
      else case fs_read_to_string (cli_config cli) w of (w1, data) \<Rightarrow>
        (case host_config_from_file (\<lambda>_. map_err Msg data) parse_json (cli_config cli) of
           Inl e \<Rightarrow> (w1, Exited 1)
         | Inr cfg \<Rightarrow>
             (case (if cli_genkey cli
                    then ca_init (crypto env) seed (ca_cert_path cfg) (ca_key_path cfg) False w1
                    else ca_load (crypto env) (ca_cert_path cfg) (ca_key_path cfg) w1) of
                (w2, Inl e) \<Rightarrow> (w2, Exited 1)
              | (w2, Inr ca) \<Rightarrow>
                  (case run_listener env bind cfg ca events of
                     Inl e \<Rightarrow> (w2, Exited 1)
                   | Inr streams \<Rightarrow> (w2, Served streams)))))"

section \<open>Facts\<close>

lemma listener_loop_map:
  "listener_loop env config ca events =
     concat (map (\<lambda>(i, now). case i of AcceptError e \<Rightarrow> []
       | Incoming cid port s \<Rightarrow> [accept_connection env config ca now cid port s]) events)"
  by (induction env config ca events rule: listener_loop.induct) simp_all

lemma listener_loop_set:
  "x \<in> set (listener_loop env config ca events) \<longleftrightarrow>
     (\<exists>cid port s now. (Incoming cid port s, now) \<in> set events
        \<and> x = accept_connection env config ca now cid port s)"
  by (auto simp: listener_loop_map split: incoming.splits) force

lemma server_main_Served:
  "server_main env parse_json bind seed uid cli events w = (w', Served streams) \<longleftrightarrow>
     uid = 0 \<and> (\<exists>w1 data cfg ca. fs_read_to_string (cli_config cli) w = (w1, data)
       \<and> host_config_from_file (\<lambda>_. map_err Msg data) parse_json (cli_config cli) = Inr cfg
       \<and> (if cli_genkey cli
          then ca_init (crypto env) seed (ca_cert_path cfg) (ca_key_path cfg) False w1
          else ca_load (crypto env) (ca_cert_path cfg) (ca_key_path cfg) w1) = (w', Inr ca)
       \<and> bind (server_port cfg) = None \<and> streams = listener_loop env cfg ca events)"
  by (auto simp: server_main_def run_listener_def split: prod.splits sum.splits option.splits)

section \<open>The server's promises\<close>

text \<open>
  C19: The daemon serves only when it is safe to: it runs as root, with a configuration whose port
  is privileged and whose selectors all parse, and with the authority of the configured files,
  which without \<open>--genkey\<close> it has left as they were; otherwise it exits with code 1 and without
  having accepted a connection.
\<close>
theorem server_starts_validated:
  "\<exists>w' outcome. server_main env parse_json bind seed uid cli events w = (w', outcome) \<and>
     (outcome = Exited 1 \<or>
      (\<exists>cfg ca w1 data. outcome = Served (listener_loop env cfg ca events) \<and> uid = 0
        \<and> fs_read_to_string (cli_config cli) w = (w1, data)
        \<and> host_config_from_file (\<lambda>_. map_err Msg data) parse_json (cli_config cli) = Inr cfg
        \<and> unat (server_port cfg) < 1000 \<and> selectors_ok cfg \<and> bind (server_port cfg) = None
        \<and> (if cli_genkey cli
           then ca_init (crypto env) seed (ca_cert_path cfg) (ca_key_path cfg) False w1 = (w', Inr ca)
           else ca_load (crypto env) (ca_cert_path cfg) (ca_key_path cfg) w1 = (w', Inr ca)
             \<and> files w' = files w)))"
proof -
  obtain w' outcome where run: "server_main env parse_json bind seed uid cli events w = (w', outcome)"
    by force
  show ?thesis
  proof (cases outcome)
    case (Exited n)
    with run have "n = 1"
      by (auto simp: server_main_def split: if_splits prod.splits sum.splits)
    with run Exited show ?thesis by simp
  next
    case (Served streams)
    with run obtain w1 data cfg ca where read: "fs_read_to_string (cli_config cli) w = (w1, data)"
      and load: "host_config_from_file (\<lambda>_. map_err Msg data) parse_json (cli_config cli) = Inr cfg"
      and ca: "(if cli_genkey cli
          then ca_init (crypto env) seed (ca_cert_path cfg) (ca_key_path cfg) False w1
          else ca_load (crypto env) (ca_cert_path cfg) (ca_key_path cfg) w1) = (w', Inr ca)"
      and rest: "uid = 0" "bind (server_port cfg) = None" "streams = listener_loop env cfg ca events"
      by (auto simp: server_main_Served)
    from load have "unat (server_port cfg) < 1000" "selectors_ok cfg"
      by (simp_all add: host_config_from_file_Inr)
    moreover from read have "files w1 = files w" by (auto simp: fs_op_defs)
    then have "files w' = files w" if "\<not> cli_genkey cli"
      using that ca ca_load_files [of "crypto env"] by simp
    ultimately show ?thesis using run Served ca rest read load
      by (intro exI [of _ w'] exI [of _ outcome] conjI disjI2 exI [of _ cfg] exI [of _ ca]
          exI [of _ w1] exI [of _ data]) auto
  qed
qed

text \<open>
  C10: Whatever connections arrive, in whatever order and whatever fails in between, a certificate
  is written only to a connection that comes from the agreed port of a context identifier that
  the configuration registers for the requested machine and identity.
\<close>
theorem listener_certificates_authentic:
  assumes "ser_total (ser_response env)"
    and "s' \<in> set (listener_loop env config ca events)"
    and "\<And>cid port s now. (Incoming cid port s, now) \<in> set events \<Longrightarrow> flush_err s = None \<and> outp s = []"
    and "0 < room s'" and "outp s' = frame p"
    and "\<And>m. ser_response env m = Inr p \<Longrightarrow> m = CertOk pem ca_pem"
  shows "\<exists>cid s now s1 vm ident csr. (Incoming cid (peer_port config) s, now) \<in> set events
    \<and> recv_json (de_request env) s = (s1, Inr (CertRequest PROTOCOL_VERSION vm ident csr))
    \<and> registered config vm ident cid \<and> ca_pem = ca_cert_pem ca"
proof -
  from assms(2) obtain cid port s now where ev: "(Incoming cid port s, now) \<in> set events"
    and s': "s' = accept_connection env config ca now cid port s"
    unfolding listener_loop_set by blast
  from assms(3) [OF ev] have s: "flush_err s = None" "outp s = []" by simp_all
  have "frame p \<noteq> []" by (simp add: frame_def to_be_bytes_def)
  with s' s assms(5) have port: "port = peer_port config"
    by (auto simp: accept_connection_def split: if_splits)
  let ?env = "env\<lparr>clock := now\<rparr>"
  from s' port have h: "s' = handle_connection ?env cid config ca s" by (simp add: accept_connection_def)
  have total: "ser_total (ser_response ?env)" using assms(1) by simp
  note serve = handle_connection_serve [OF total s(1), of cid config ca]
  from serve assms(4,5) s(2) have room: "0 < room (serve ?env (server_reply ?env config ca cid) s)"
    "outp (serve ?env (server_reply ?env config ca cid) s) = outp s @ frame p"
    unfolding h by simp_all
  from serve_sent [OF total s(1) room]
  obtain s1 resp where "ser_response env resp = Inr p" and
    cases: "(\<exists>e. recv_json (de_request env) s = (s1, Inl (Bail e)) \<and> resp = AgentError (anyhow_to_string e))
     \<or> (\<exists>req. recv_json (de_request env) s = (s1, Inr req) \<and> server_reply ?env config ca cid req = Inr resp)"
    by auto
  with assms(6) have "resp = CertOk pem ca_pem" by blast
  with cases obtain req where recv: "recv_json (de_request env) s = (s1, Inr req)"
    and "server_reply ?env config ca cid req = Inr (CertOk pem ca_pem)" by auto
  then obtain vm ident csr where "req = CertRequest PROTOCOL_VERSION vm ident csr"
    "registered config vm ident cid" "ca_pem = ca_cert_pem ca"
    by (auto simp: server_reply_CertOk cert_reply_CertOk registered_def)
  with ev port recv show ?thesis by blast
qed

theorem listener_certificates_authentic_witness:
  "registered sample_config ''vm'' ''service-a'' 3"
proof -
  let ?env = "sample_env sample_cert_ok sample_cert_request"
  let ?events = "[(AcceptError ''interrupted'', 0), (Incoming 3 7 sample_conn, 0),
      (Incoming 3 901 sample_conn, 1000)] :: (incoming \<times> int) list"
  let ?s' = "sample_conn\<lparr>inp := [], outp := frame [1], room := 9999995\<rparr>"
  have env: "?env\<lparr>clock := 1000\<rparr> = ?env" by (simp add: sample_env_def)
  have port: "peer_port sample_config = 901" by (simp add: sample_config_def)
  have mem: "?s' \<in> set (listener_loop ?env sample_config sample_ca ?events)"
    using sample_handled [OF sample_server_reply] by (simp add: accept_connection_def port env)
  have "\<exists>cid s now s1 vm ident csr. (Incoming cid (peer_port sample_config) s, now) \<in> set ?events
    \<and> recv_json (de_request ?env) s = (s1, Inr (CertRequest PROTOCOL_VERSION vm ident csr))
    \<and> registered sample_config vm ident cid \<and> ca_cert_pem sample_ca = ca_cert_pem sample_ca"
    by (rule listener_certificates_authentic [OF _ mem, where p = "[1]" and pem = "''mallory''"])
      (auto simp: sample_cert_ok_def split: if_splits)
  then show ?thesis by (auto simp: sample_recv sample_cert_request_def sample_config_def)
qed

end
