(* ===== verification/Agent_Os.thy ===== *)
theory Agent_Os imports Codec begin

text \<open>
  The operating system under the guest agent: vsock sockets, sleeping and the connections the
  agent makes, and the retry loops of \<^verbatim>\<open>apps/rust-apps/authn-scope-agent/src/client.rs\<close>. Every
  system call consults an oracle, so each may fail on its own. The locale \<open>retry_body\<close> bounds a
  retry loop by a bound on its body; every loop of the agent interprets it.
\<close>

section \<open>The system\<close>

record os_error =
  addr_in_use :: bool
  os_text :: string

text \<open>
  \<open>next_fd\<close> is the descriptor the next \<open>socket\<close> call returns; \<open>bound\<close> are the local ports of the
  sockets; \<open>outcomes\<close> gives the error of each numbered system call, if any, and \<open>peers\<close> the peer's
  side of each numbered connection. Logs: connections made (local port, peer identifier, peer
  port), streams as they were when closed, \<open>socket\<close> calls and milliseconds slept.
\<close>

record agent_os =
  next_fd :: nat
  open_fds :: "nat set"
  bound :: "nat \<Rightarrow> u32 option"
  calls :: nat
  outcomes :: "nat \<Rightarrow> os_error option"
  peers :: "nat \<Rightarrow> stream"
  dials :: "(u32 option \<times> u32 \<times> u32) list"
  finished :: "stream list"
  tries :: nat
  slept :: nat

type_synonym ('e, 'a) syscall = "(agent_os, 'e, 'a) eio"

definition syscall :: "(agent_os \<Rightarrow> agent_os \<times> 'a) \<Rightarrow> (os_error, 'a) syscall" where
  "syscall effect w =
     (let w1 = w\<lparr>calls := Suc (calls w)\<rparr> in
      case outcomes w (calls w) of
        Some e \<Rightarrow> (w1, Inl e)
      | None \<Rightarrow> (case effect w1 of (w2, x) \<Rightarrow> (w2, Inr x)))"

definition sys_socket :: "(os_error, nat) syscall" where
  "sys_socket w =
     syscall (\<lambda>w. (w\<lparr>next_fd := Suc (next_fd w), open_fds := insert (next_fd w) (open_fds w)\<rparr>,
                   next_fd w)) (w\<lparr>tries := Suc (tries w)\<rparr>)"

definition sys_bind :: "nat \<Rightarrow> u32 \<Rightarrow> (os_error, unit) syscall" where
  "sys_bind fd port = syscall (\<lambda>w. (w\<lparr>bound := (bound w)(fd := Some port)\<rparr>, ()))"

definition sys_connect :: "nat \<Rightarrow> u32 \<Rightarrow> u32 \<Rightarrow> (os_error, stream) syscall" where
  "sys_connect fd cid port =
     syscall (\<lambda>w. (w\<lparr>dials := dials w @ [(bound w fd, cid, port)]\<rparr>, peers w (length (dials w))))"

definition sys_close :: "nat \<Rightarrow> agent_os \<Rightarrow> agent_os" where
  "sys_close fd w = w\<lparr>open_fds := open_fds w - {fd}, bound := (bound w)(fd := None)\<rparr>"

text \<open>Registering a connected socket with the runtime, \<^verbatim>\<open>VsockStream::new\<close>.\<close>

definition sys_register :: "(os_error, unit) syscall" where
  "sys_register = syscall (\<lambda>w. (w, ()))"

definition sleep_ms :: "nat \<Rightarrow> agent_os \<Rightarrow> agent_os" where
  "sleep_ms n w = w\<lparr>slept := slept w + n\<rparr>"

text \<open>A connection, open until it is dropped with the bytes exchanged so far.\<close>

record conn =
  conn_fd :: nat
  conn_stream :: stream

definition drop_conn :: "conn \<Rightarrow> stream \<Rightarrow> agent_os \<Rightarrow> agent_os" where
  "drop_conn c s w = sys_close (conn_fd c) (w\<lparr>finished := finished w @ [s]\<rparr>)"

section \<open>Retry loops\<close>

text \<open>
  One round of a \<open>loop\<close>: leave with a result, or an error after which the loop sleeps and
  continues as long as \<open>attempts < limit\<close> and leaves with the error otherwise.
\<close>

datatype 'a round = Done "'a result" | Again fault

function retry ::
  "nat \<Rightarrow> nat \<Rightarrow> (agent_os \<Rightarrow> agent_os \<times> 'a round) \<Rightarrow> nat \<Rightarrow> (agent_os, 'a) io" where
  "retry limit pause body attempts w =
     (case body w of
        (w1, Done r) \<Rightarrow> (w1, r)
      | (w1, Again e) \<Rightarrow>
          if attempts < limit then retry limit pause body (Suc attempts) (sleep_ms pause w1)
          else (w1, Inl e))"
  by pat_completeness auto
termination
  by (relation "measure (\<lambda>(limit, pause, body, attempts, w). limit - attempts)") auto

declare retry.simps [simp del]

text \<open>
  What a loop body promises to the loop around it: at most \<open>k\<close> socket calls and \<open>n\<close> milliseconds
  asleep, no descriptor left open but those of a result, and only connections that are \<open>ok\<close>.
\<close>

definition dials_ok :: "(u32 option \<times> u32 \<times> u32 \<Rightarrow> bool) \<Rightarrow> agent_os \<Rightarrow> agent_os \<Rightarrow> bool" where
  "dials_ok ok w w' \<longleftrightarrow> (\<exists>ds. dials w' = dials w @ ds \<and> (\<forall>d \<in> set ds. ok d))"

text \<open>A system in which the next descriptor is fresh.\<close>

definition os_wf :: "agent_os \<Rightarrow> bool" where
  "os_wf w \<longleftrightarrow> (\<forall>fd \<in> open_fds w. fd < next_fd w)"

definition within ::
  "nat \<Rightarrow> nat \<Rightarrow> (u32 option \<times> u32 \<times> u32 \<Rightarrow> bool) \<Rightarrow> nat set \<Rightarrow> agent_os \<Rightarrow> agent_os \<Rightarrow> bool" where
  "within k n ok fds w w' \<longleftrightarrow>
     tries w' \<le> tries w + k \<and> slept w' \<le> slept w + n \<and> dials_ok ok w w'
     \<and> open_fds w' = open_fds w \<union> fds \<and> open_fds w \<inter> fds = {} \<and> os_wf w' \<and> next_fd w \<le> next_fd w'
     \<and> outcomes w' = outcomes w \<and> peers w' = peers w"

lemma dials_ok_refl [simp]: "dials_ok ok w w"
  by (simp add: dials_ok_def)

lemma dials_ok_trans: "dials_ok ok u v \<Longrightarrow> dials_ok ok v w \<Longrightarrow> dials_ok ok u w"
  by (force simp: dials_ok_def)

lemma within_trans:
  "within k n ok A u v \<Longrightarrow> within k' n' ok B v w \<Longrightarrow> within (k + k') (n + n') ok (A \<union> B) u w"
  by (auto simp: within_def intro: dials_ok_trans)

lemma within_mono: "within k n ok A u v \<Longrightarrow> k \<le> k' \<Longrightarrow> n \<le> n' \<Longrightarrow> within k' n' ok A u v"
  by (auto simp: within_def)

lemma within_sleep: "os_wf w \<Longrightarrow> within 0 n ok {} w (sleep_ms n w)"
  by (simp add: within_def sleep_ms_def dials_ok_def os_wf_def)

locale retry_body =
  fixes body :: "agent_os \<Rightarrow> agent_os \<times> 'a round"
    and owns :: "'a \<Rightarrow> nat set"
    and k :: nat and n :: nat
    and ok :: "u32 option \<times> u32 \<times> u32 \<Rightarrow> bool"
  assumes body_ok: "os_wf w \<Longrightarrow> body w = (w', Done (Inr x)) \<Longrightarrow> within k n ok (owns x) w w'"
    and body_done: "os_wf w \<Longrightarrow> body w = (w', Done (Inl e)) \<Longrightarrow> within k n ok {} w w'"
    and body_again: "os_wf w \<Longrightarrow> body w = (w', Again e) \<Longrightarrow> within k n ok {} w w'"
begin

text \<open>The descriptors that a result keeps open.\<close>

definition keeps :: "'a result \<Rightarrow> nat set" where
  "keeps r = (case r of Inl e \<Rightarrow> {} | Inr x \<Rightarrow> owns x)"

lemma body_step: "os_wf w \<Longrightarrow> body w = (w', Done r) \<Longrightarrow> within k n ok (keeps r) w w'"
  by (cases r) (simp_all add: keeps_def body_ok body_done)

lemma retry_from:
  assumes "attempts \<le> limit" and "os_wf w" and "retry limit pause body attempts w = (w', r)"
  shows "within ((limit + 1 - attempts) * k)
    ((limit + 1 - attempts) * n + (limit - attempts) * pause) ok (keeps r) w w'"
  using assms
proof (induction "limit - attempts" arbitrary: attempts w)
  case 0
  obtain w1 b where b: "body w = (w1, b)" by force
  have "within k n ok (keeps r) w w'"
  proof (cases b)
    case (Done r')
    with b "0.prems"(3) have "w' = w1" "r = r'" by (simp_all add: retry.simps)
    with Done b "0.prems"(2) show ?thesis by (simp add: body_step)
  next
    case (Again e)
    with b "0.prems"(3) "0.hyps" have "w' = w1" "r = Inl e" by (simp_all add: retry.simps split: if_splits)
    with Again b "0.prems"(2) show ?thesis by (simp add: body_again keeps_def)
  qed
  then show ?case using "0.hyps" "0.prems"(1) by simp
next
  case (Suc d)
  from Suc.hyps(2) have lt: "attempts < limit" by simp
  obtain w1 b where b: "body w = (w1, b)" by force
  let ?K = "(limit + 1 - attempts) * k" and ?N = "(limit + 1 - attempts) * n + (limit - attempts) * pause"
  have suc: "limit + 1 - attempts = Suc (limit - attempts)" using lt by simp
  then have more: "k \<le> ?K" "n \<le> ?N" by simp_all
  show ?case
  proof (cases b)
    case (Done r')
    with b Suc.prems(3) have "w' = w1" "r = r'" by (simp_all add: retry.simps)
    with Done b Suc.prems(2) have "within k n ok (keeps r) w w'" by (simp add: body_step)
    then show ?thesis using more by (rule within_mono)
  next
    case (Again e)
    with b Suc.prems(2) have w1: "within k n ok {} w w1" by (simp add: body_again)
    then have "os_wf w1" by (simp add: within_def)
    then have sleep: "within 0 pause ok {} w1 (sleep_ms pause w1)" by (rule within_sleep)
    then have wf: "os_wf (sleep_ms pause w1)" by (simp add: within_def)
    from Again b lt Suc.prems(3) have
      rest: "retry limit pause body (Suc attempts) (sleep_ms pause w1) = (w', r)"
      by (simp add: retry.simps [of limit pause body attempts])
    from Suc.hyps(2) have "d = limit - Suc attempts" by simp
    from Suc.hyps(1) [OF this _ wf rest] lt
    have "within ((limit - attempts) * k) ((limit - attempts) * n + (limit - Suc attempts) * pause) ok
        (keeps r) (sleep_ms pause w1) w'"
      by simp
    from within_trans [OF within_trans [OF w1 sleep] this]
    have total: "within (k + (limit - attempts) * k)
        (n + pause + ((limit - attempts) * n + (limit - Suc attempts) * pause)) ok (keeps r) w w'"
      by simp
    have "limit - attempts = Suc (limit - Suc attempts)" using lt by simp
    then have "(limit - attempts) * pause = pause + (limit - Suc attempts) * pause" by simp
    with suc show ?thesis by (intro within_mono [OF total]) simp_all
  qed
qed

lemma retry_within:
  assumes "os_wf w" and "retry limit pause body 0 w = (w', r)"
  shows "within ((limit + 1) * k) ((limit + 1) * n + limit * pause) ok (keeps r) w w'"
  using retry_from [of 0 limit w pause w' r] assms by simp

end

lemma retry_Inr:
  "retry limit pause body attempts w = (w', Inr x) \<Longrightarrow> \<exists>v. body v = (w', Done (Inr x))"
proof (induction limit pause body attempts w rule: retry.induct)
  case (1 limit pause body attempts w)
  obtain w1 b where b: "body w = (w1, b)" by force
  show ?case
  proof (cases b)
    case (Done r)
    with b "1.prems" have "body w = (w', Done (Inr x))" by (simp add: retry.simps)
    then show ?thesis ..
  next
    case (Again e)
    with b "1.prems" have "attempts < limit"
      and "retry limit pause body (Suc attempts) (sleep_ms pause w1) = (w', Inr x)"
      by (simp_all add: retry.simps [of limit pause body attempts] split: if_splits)
    with "1.IH" b Again show ?thesis by metis
  qed
qed

text \<open>
  Persistence: if the first \<open>j\<close> rounds ask for another and the next one succeeds, the loop
  succeeds, as long as \<open>j\<close> does not exceed the limit.
\<close>

fun rounds_again :: "(agent_os \<Rightarrow> agent_os \<times> 'a round) \<Rightarrow> nat \<Rightarrow> nat \<Rightarrow> agent_os \<Rightarrow> agent_os option" where
  "rounds_again body pause 0 w = Some w"
| "rounds_again body pause (Suc j) w =
     (case body w of
        (w1, Done r) \<Rightarrow> None
      | (w1, Again e) \<Rightarrow> rounds_again body pause j (sleep_ms pause w1))"

lemma retry_succeeds:
  assumes "rounds_again body pause j w = Some w1" and "body w1 = (w2, Done r)"
    and "attempts + j \<le> limit"
  shows "retry limit pause body attempts w = (w2, r)"
  using assms
proof (induction j arbitrary: w attempts)
  case 0
  then show ?case by (simp add: retry.simps)
next
  case (Suc j)
  from Suc.prems(1) obtain v e where v: "body w = (v, Again e)"
    "rounds_again body pause j (sleep_ms pause v) = Some w1"
    by (auto split: prod.splits round.splits)
  from Suc.IH [OF v(2) Suc.prems(2)] Suc.prems(3) v(1) show ?case
    by (simp add: retry.simps [of limit pause body attempts])
qed

end
