(* ===== verification/Agent_Connect.thy ===== *)
theory Agent_Connect imports Agent_Os begin

text \<open>
  The agent's configuration (\<^verbatim>\<open>apps/rust-apps/authn-scope-agent/src/config.rs\<close>) and start-up
  (\<^verbatim>\<open>client.rs\<close>): dialling the host from the privileged client port, the boot-time handshake and
  the listener that then occupies the client port.
\<close>

section \<open>Configuration\<close>

record agent_config =
  agent_vm_name :: string
  agent_server_port :: u32
  client_port :: u32
  workload_api_socket :: "string option"

definition agent_default_server_port :: u32 where
  "agent_default_server_port = 900"

definition default_client_port :: u32 where
  "default_client_port = 901"

definition agent_config_from_file ::
  "(string \<Rightarrow> anyhow + string) \<Rightarrow> (string \<Rightarrow> anyhow + agent_config) \<Rightarrow> string
   \<Rightarrow> anyhow + agent_config" where
  "agent_config_from_file read_file parse_json path =
     rbind (read_file path) (\<lambda>data.
     rbind (parse_json data) (\<lambda>cfg.
     if agent_server_port cfg \<ge> 1000
     then Inl (Msg (''server_port must be less than 1000, got '' @ show_u32 (agent_server_port cfg)))
     else Inr cfg))"

section \<open>Dialling\<close>

text \<open>The result of \<^verbatim>\<open>setsockopt\<close> is ignored.\<close>

definition sys_setsockopt :: "agent_os \<Rightarrow> agent_os" where
  "sys_setsockopt w = fst (syscall (\<lambda>w. (w, ())) w)"

definition connect_round :: "u32 \<Rightarrow> u32 \<Rightarrow> u32 \<Rightarrow> agent_os \<Rightarrow> agent_os \<times> conn round" where
  "connect_round host_cid port local_port w =
     (case sys_socket w of
        (w1, Inl e) \<Rightarrow> (w1, Done (Inl (Bail (Msg (os_text e)))))
      | (w1, Inr socket) \<Rightarrow>
          (case sys_bind socket local_port (sys_setsockopt w1) of
             (w2, Inr _) \<Rightarrow>
               (case sys_connect socket host_cid port w2 of
                  (w3, Inr stream) \<Rightarrow>
                    (case sys_register w3 of
                       (w4, Inr _) \<Rightarrow> (w4, Done (Inr \<lparr>conn_fd = socket, conn_stream = stream\<rparr>))
                     | (w4, Inl e) \<Rightarrow> (sys_close socket w4, Done (Inl (Bail (Msg (os_text e))))))
                | (w3, Inl e) \<Rightarrow>
                    (sys_close socket w3,
                     Done (Inl (Bail (Msg (''vsock connect failed: '' @ os_text e))))))
           | (w2, Inl e) \<Rightarrow>
               let w3 = sys_close socket w2;
                   err = Bail (Context (''binding vsock client socket to local port ''
                                          @ show_u32 local_port) (Msg (os_text e)))
               in (w3, if addr_in_use e then Again err else Done (Inl err))))"

definition connect_with_local_port :: "u32 \<Rightarrow> u32 \<Rightarrow> u32 \<Rightarrow> (agent_os, conn) io" where
  "connect_with_local_port host_cid port local_port =
     retry 10 100 (connect_round host_cid port local_port) 0"

section \<open>The handshake\<close>

text \<open>The environment variable \<^verbatim>\<open>VSOCK_HOST_CID\<close> and the JSON codec.\<close>

record agent_env =
  host_cid_var :: "string option"
  ser_request :: "agent_request \<Rightarrow> u8 list result"
  de_response :: "u8 list \<Rightarrow> agent_response result"

definition VMADDR_CID_HOST :: u32 where
  "VMADDR_CID_HOST = 2"

definition host_cid :: "agent_env \<Rightarrow> u32" where
  "host_cid env =
     (case Option.bind (host_cid_var env) parse_u32 of None \<Rightarrow> VMADDR_CID_HOST | Some c \<Rightarrow> c)"

text \<open>
  Sending a request and receiving the response on a connection, which is dropped on every path.
\<close>

definition exchange ::
  "agent_env \<Rightarrow> string \<Rightarrow> string \<Rightarrow> agent_request \<Rightarrow> conn \<Rightarrow> (agent_os, agent_response) io" where
  "exchange env sending receiving req c w =
     (case io_context sending (send_json (ser_request env) req) (conn_stream c) of
        (s1, Inl e) \<Rightarrow> (drop_conn c s1 w, Inl e)
      | (s1, Inr _) \<Rightarrow>
          (case io_context receiving (recv_json (de_response env)) s1 of
             (s2, r) \<Rightarrow> (drop_conn c s2 w, r)))"

definition handshake_round :: "agent_env \<Rightarrow> agent_config \<Rightarrow> agent_os \<Rightarrow> agent_os \<times> conn round" where
  "handshake_round env config w =
     (case connect_with_local_port (host_cid env) (agent_server_port config) (client_port config) w of
        (w1, Inr c) \<Rightarrow> (w1, Done (Inr c))
      | (w1, Inl e) \<Rightarrow> (w1, Again (with_context ''handshake vsock connection failed'' e)))"

definition perform_handshake ::
  "agent_env \<Rightarrow> agent_config \<Rightarrow> (agent_os, (string, workload_config) hashmap) io" where
  "perform_handshake env config =
     io_bind (retry 15 500 (handshake_round env config) 0) (\<lambda>c.
     io_bind (exchange env ''sending handshake request'' ''receiving handshake response''
                (Handshake PROTOCOL_VERSION (agent_vm_name config)) c) (\<lambda>resp.
     case resp of
       HandshakeOk workloads \<Rightarrow> io_ok workloads
     | AgentError message \<Rightarrow> io_fail (Bail (Msg (''Handshake rejected by server: '' @ message)))
     | CertOk _ _ \<Rightarrow> io_fail (Bail (Msg ''Unexpected handshake response from server''))))"

section \<open>The listener on the client port\<close>

definition sys_listen :: "u32 \<Rightarrow> (os_error, nat) syscall" where
  "sys_listen port w =
     syscall (\<lambda>w. (w\<lparr>next_fd := Suc (next_fd w), open_fds := insert (next_fd w) (open_fds w),
                     bound := (bound w)(next_fd w := Some port)\<rparr>, next_fd w))
       (w\<lparr>tries := Suc (tries w)\<rparr>)"

definition listen_round :: "u32 \<Rightarrow> string \<Rightarrow> agent_os \<Rightarrow> agent_os \<times> nat round" where
  "listen_round port failure w =
     (case sys_listen port w of
        (w1, Inr l) \<Rightarrow> (w1, Done (Inr l))
      | (w1, Inl e) \<Rightarrow> (w1, Again (Bail (Context failure (Msg (os_text e))))))"

definition bind_listener :: "u32 \<Rightarrow> string \<Rightarrow> (agent_os, nat) io" where
  "bind_listener port failure = retry 10 100 (listen_round port failure) 0"

record cached_credential =
  cached_creds :: x509_credentials
  fetched_at :: nat

text \<open>The mutexes of the state are the subject of another theory; here each field is its content.\<close>

record agent_state =
  cache :: "(string, cached_credential) hashmap"
  listener :: "nat option"
  workloads :: "(string, workload_config) hashmap"

text \<open>
  \<open>run_agent\<close> up to its main loop, which only sleeps: the state it keeps, and the socket of the
  Workload API server that it spawns.
\<close>

definition run_agent ::
  "agent_env \<Rightarrow> agent_config \<Rightarrow> (agent_os, agent_state \<times> string option) io" where
  "run_agent env config =
     io_bind (perform_handshake env config) (\<lambda>ws.
     io_bind (bind_listener (client_port config)
                (''binding persistent listener to client port '' @ show_u32 (client_port config)
                 @ '' to secure it'')) (\<lambda>l.
     io_ok (\<lparr>cache = [], listener = Some l, workloads = ws\<rparr>, workload_api_socket config)))"

section \<open>Bounds\<close>

lemmas sys_defs = sys_socket_def sys_bind_def sys_connect_def sys_close_def sys_register_def
  sys_setsockopt_def sys_listen_def syscall_def

lemma connect_round_within:
  assumes "os_wf w" and "connect_round cid port lp w = (w', b)"
  shows "within 1 0 (\<lambda>d. d = (Some lp, cid, port))
    (case b of Done (Inr c) \<Rightarrow> {conn_fd c} | _ \<Rightarrow> {}) w w'"
  using assms
  by (auto simp: connect_round_def sys_defs within_def dials_ok_def os_wf_def Let_def less_Suc_eq
      split: option.splits if_splits)

interpretation dial: retry_body "connect_round cid port lp" "\<lambda>c. {conn_fd c}" 1 0
  "\<lambda>d. d = (Some lp, cid, port)"
  by unfold_locales (auto dest: connect_round_within)

lemma connect_within:
  assumes "os_wf w" and "connect_with_local_port cid port lp w = (w', r)"
  shows "within 11 1000 (\<lambda>d. d = (Some lp, cid, port)) (case r of Inl e \<Rightarrow> {} | Inr c \<Rightarrow> {conn_fd c}) w w'"
  using dial.retry_within [OF assms(1), of 10 100 cid port lp w' r] assms(2)
  by (cases r) (simp_all add: connect_with_local_port_def dial.keeps_def)

interpretation greet: retry_body "handshake_round env config" "\<lambda>c. {conn_fd c}" 11 1000
  "\<lambda>d. d = (Some (client_port config), host_cid env, agent_server_port config)"
  by unfold_locales
    (auto simp: handshake_round_def split: prod.splits sum.splits dest: connect_within)

interpretation guard: retry_body "listen_round port failure" "\<lambda>l. {l}" 1 0 "\<lambda>d. False"
  by unfold_locales
    (auto simp: listen_round_def sys_defs within_def dials_ok_def os_wf_def Let_def less_Suc_eq
      split: option.splits)

text \<open>An exchange closes the connection whatever its result.\<close>

lemma drop_conn_within:
  assumes "within k n ok {conn_fd c} w w1"
  shows "within k n ok {} w (drop_conn c s w1)"
  using assms by (auto simp: drop_conn_def sys_close_def within_def dials_ok_def os_wf_def)

lemma exchange_drops: "exchange env a b req c w = (w', r) \<Longrightarrow> \<exists>s. w' = drop_conn c s w"
  by (auto simp: exchange_def split: prod.splits sum.splits)

lemma exchange_Inr:
  assumes "exchange env a b req c w = (w', Inr resp)"
  shows "\<exists>s1 s2. send_json (ser_request env) req (conn_stream c) = (s1, Inr ())
    \<and> recv_json (de_response env) s1 = (s2, Inr resp) \<and> w' = drop_conn c s2 w"
  using assms
  by (auto simp: exchange_def split: prod.splits sum.splits)

lemma exchange_within:
  assumes "within k n ok {conn_fd c} w w1" and "exchange env a b req c w1 = (w', r)"
  shows "within k n ok {} w w'"
  using exchange_drops [OF assms(2)] drop_conn_within [OF assms(1)] by blast

lemma perform_handshake_within:
  assumes "os_wf w" and "perform_handshake env config w = (w', r)"
  shows "within 176 23500 (\<lambda>d. d = (Some (client_port config), host_cid env, agent_server_port config))
    {} w w'"
proof -
  let ?ok = "\<lambda>d. d = (Some (client_port config), host_cid env, agent_server_port config)"
  obtain w1 r1 where dial: "retry 15 500 (handshake_round env config) 0 w = (w1, r1)" by force
  from greet.retry_within [OF assms(1) dial]
  have within: "within 176 23500 ?ok (greet.keeps r1) w w1" by simp
  show ?thesis
  proof (cases r1)
    case (Inl e)
    with dial assms(2) have "w' = w1" by (simp add: perform_handshake_def io_bind_def)
    with within Inl show ?thesis by (simp add: greet.keeps_def)
  next
    case (Inr c)
    with within have c: "within 176 23500 ?ok {conn_fd c} w w1" by (simp add: greet.keeps_def)
    obtain w2 r2 where ex: "exchange env ''sending handshake request'' ''receiving handshake response''
        (Handshake PROTOCOL_VERSION (agent_vm_name config)) c w1 = (w2, r2)" by force
    with dial Inr assms(2) have "w' = w2"
      by (auto simp: perform_handshake_def io_bind_def io_ok_def io_fail_def
          split: sum.splits agent_response.splits)
    with exchange_within [OF c ex] show ?thesis by simp
  qed
qed

lemma bind_listener_Inr:
  assumes "bind_listener port failure w = (w', Inr l)"
  shows "bound w' l = Some port"
proof -
  from retry_Inr [OF assms [unfolded bind_listener_def]] obtain v where
    "listen_round port failure v = (w', Done (Inr l))" ..
  then show ?thesis by (auto simp: listen_round_def sys_defs Let_def split: option.splits)
qed

section \<open>Start-up\<close>

text \<open>
  C35: The handshake gives up in bounded time and leaks nothing: it makes at most 176 sockets and
  sleeps at most 23.5 seconds, every connection it makes goes from the client port to the host's
  server port, and whatever its result, the same descriptors are open as before.
\<close>
theorem handshake_bounded:
  assumes "os_wf w" and "perform_handshake env config w = (w', r)"
  shows "tries w' \<le> tries w + 176 \<and> slept w' \<le> slept w + 23500 \<and> open_fds w' = open_fds w
    \<and> (\<exists>ds. dials w' = dials w @ ds
        \<and> set ds \<subseteq> {(Some (client_port config), host_cid env, agent_server_port config)})"
  using perform_handshake_within [OF assms] unfolding within_def dials_ok_def by auto

text \<open>
  The handshake is persistent: if up to fifteen rounds of dialling fail, half a second apart,
  and the next one connects to a host that takes the request and answers with workloads, the
  handshake succeeds with exactly these.
\<close>
theorem handshake_persistent:
  assumes "rounds_again (handshake_round env config) 500 j w = Some w1" and "j \<le> 15"
    and "handshake_round env config w1 = (w2, Done (Inr c))"
    and "send_json (ser_request env) (Handshake PROTOCOL_VERSION (agent_vm_name config)) (conn_stream c)
      = (s1, Inr ())"
    and "recv_json (de_response env) s1 = (s2, Inr (HandshakeOk ws))"
  shows "perform_handshake env config w = (drop_conn c s2 w2, Inr ws)"
proof -
  from assms(1,2,3) have "retry 15 500 (handshake_round env config) 0 w = (w2, Inr c)"
    by (intro retry_succeeds) simp_all
  moreover from assms(4,5) have "exchange env a b (Handshake PROTOCOL_VERSION (agent_vm_name config)) c w2
      = (drop_conn c s2 w2, Inr (HandshakeOk ws))" for a b
    by (simp add: exchange_def io_context_def)
  ultimately show ?thesis by (simp add: perform_handshake_def io_bind_def io_ok_def)
qed

lemma run_agent_port:
  assumes "os_wf w" and "run_agent env config w = (w', r)"
  shows "os_wf w' \<and> (case r of
      Inl e \<Rightarrow> open_fds w' = open_fds w
    | Inr (st, sock) \<Rightarrow> \<exists>l. listener st = Some l \<and> bound w' l = Some (client_port config)
        \<and> l \<notin> open_fds w \<and> open_fds w' = insert l (open_fds w) \<and> cache st = []
        \<and> sock = workload_api_socket config)"
proof -
  let ?f = "''binding persistent listener to client port '' @ show_u32 (client_port config)
     @ '' to secure it''"
  obtain w1 r1 where hs: "perform_handshake env config w = (w1, r1)" by force
  note w1 = perform_handshake_within [OF assms(1) hs]
  then have wf: "os_wf w1" and fds: "open_fds w1 = open_fds w" by (simp_all add: within_def)
  show ?thesis
  proof (cases r1)
    case (Inl e)
    with hs assms(2) fds wf show ?thesis by (auto simp: run_agent_def io_bind_def)
  next
    case (Inr ws)
    obtain w2 r2 where l: "bind_listener (client_port config) ?f w1 = (w2, r2)" by force
    from guard.retry_within [OF wf l [unfolded bind_listener_def]]
    have "os_wf w2" "open_fds w2 = open_fds w1 \<union> guard.keeps r2" "open_fds w1 \<inter> guard.keeps r2 = {}"
      by (simp_all add: within_def)
    with hs Inr l assms(2) fds bind_listener_Inr [of "client_port config" ?f w1 w2] show ?thesis
      by (cases r2) (auto simp: run_agent_def io_bind_def io_ok_def guard.keeps_def)
  qed
qed

text \<open>
  C36: An agent that starts holds its client port: the listener it keeps is open and bound to the
  configured port, and nothing else is left open; an agent that fails to start leaves no
  descriptor open.
\<close>
theorem run_agent_secures_port:
  assumes "os_wf w" and "run_agent env config w = (w', r)"
  shows "case r of
      Inl e \<Rightarrow> open_fds w' = open_fds w
    | Inr (st, sock) \<Rightarrow> \<exists>l. listener st = Some l \<and> bound w' l = Some (client_port config)
        \<and> l \<notin> open_fds w \<and> open_fds w' = insert l (open_fds w) \<and> cache st = []
        \<and> sock = workload_api_socket config"
  using run_agent_port [OF assms] by blast

section \<open>A sample start\<close>

definition sample_agent_config :: agent_config where
  "sample_agent_config =
     \<lparr>agent_vm_name = ''vm'', agent_server_port = 900, client_port = 901, workload_api_socket = None\<rparr>"

text \<open>The first bind finds the port in use, every later call succeeds; the host answers.\<close>

definition sample_os :: agent_os where
  "sample_os =
     \<lparr>next_fd = 3, open_fds = {0, 1, 2}, bound = (\<lambda>_. None), calls = 0,
      outcomes = (\<lambda>n. if n = 2 then Some \<lparr>addr_in_use = True, os_text = ''busy''\<rparr> else None),
      peers = (\<lambda>_. sample_stream\<lparr>inp := [0, 0, 0, 1, 5]\<rparr>), dials = [], finished = [], tries = 0,
      slept = 0\<rparr>"

definition sample_agent_env :: "agent_response \<Rightarrow> agent_env" where
  "sample_agent_env resp =
     \<lparr>host_cid_var = None, ser_request = (\<lambda>_. Inr [5]), de_response = (\<lambda>_. Inr resp)\<rparr>"

lemma sample_os_wf: "os_wf sample_os"
  by (simp add: os_wf_def sample_os_def)

lemma sample_exchange:
  "send_json (ser_request (sample_agent_env resp)) req (sample_stream\<lparr>inp := [0, 0, 0, 1, 5]\<rparr>)
     = (sample_stream\<lparr>inp := [0, 0, 0, 1, 5], outp := frame [5], room := 9999995\<rparr>, Inr ())"
  "recv_json (de_response (sample_agent_env resp))
     (sample_stream\<lparr>inp := [0, 0, 0, 1, 5], outp := frame [5], room := 9999995\<rparr>)
     = (sample_stream\<lparr>inp := [], outp := frame [5], room := 9999995\<rparr>, Inr resp)"
proof -
  have bytes: "frame [5] = [0, 0, 0, 1, 5]" by (simp add: frame_def to_be_bytes_def)
  show "send_json (ser_request (sample_agent_env resp)) req (sample_stream\<lparr>inp := [0, 0, 0, 1, 5]\<rparr>)
     = (sample_stream\<lparr>inp := [0, 0, 0, 1, 5], outp := frame [5], room := 9999995\<rparr>, Inr ())"
    using send_json_ok [of "ser_request (sample_agent_env resp)" req "[5]"
        "sample_stream\<lparr>inp := [0, 0, 0, 1, 5]\<rparr>"]
    by (simp add: sample_agent_env_def sample_stream_def accepts_def bytes)
  have "split_frame [0, 0, 0, 1, 5] = Some ([5], [])"
    using fr.get_put [of "[5]" "[]"] by (simp add: bytes MAX_MSG_BYTES_def)
  then show "recv_json (de_response (sample_agent_env resp))
     (sample_stream\<lparr>inp := [0, 0, 0, 1, 5], outp := frame [5], room := 9999995\<rparr>)
     = (sample_stream\<lparr>inp := [], outp := frame [5], room := 9999995\<rparr>, Inr resp)"
    using recv_json_split_frame [of "sample_stream\<lparr>inp := [0, 0, 0, 1, 5], outp := frame [5],
        room := 9999995\<rparr>" "[5]" "[]" "de_response (sample_agent_env resp)"]
    by (simp add: sample_agent_env_def)
qed

definition sample_conn1 :: conn where
  "sample_conn1 = \<lparr>conn_fd = 4, conn_stream = sample_stream\<lparr>inp := [0, 0, 0, 1, 5]\<rparr>\<rparr>"

definition sample_os1 :: agent_os where
  "sample_os1 = sample_os
     \<lparr>next_fd := 5, open_fds := {0, 1, 2, 4}, bound := (\<lambda>_. None)(4 := Some 901), calls := 8,
      dials := [(Some 901, 2, 900)], tries := 2, slept := 100\<rparr>"

lemma sample_round:
  "connect_with_local_port 2 900 901 sample_os = (sample_os1, Inr sample_conn1)"
proof -
  let ?w = "sample_os\<lparr>next_fd := 4, calls := 3, tries := 1, slept := 100\<rparr>"
  have first: "connect_round 2 900 901 sample_os
      = (sample_os\<lparr>next_fd := 4, calls := 3, tries := 1\<rparr>,
         Again (Bail (Context (''binding vsock client socket to local port '' @ show_u32 901)
           (Msg ''busy''))))"
    by (auto simp: connect_round_def sys_defs sample_os_def Let_def)
  have second: "connect_round 2 900 901 ?w = (sample_os1, Done (Inr sample_conn1))"
    by (auto simp: connect_round_def sys_defs sample_os_def sample_os1_def sample_conn1_def Let_def)
  show ?thesis
    using first second by (simp add: connect_with_local_port_def retry.simps sleep_ms_def sample_os_def)
qed

lemma sample_handshake_round:
  "handshake_round (sample_agent_env resp) sample_agent_config sample_os
     = (sample_os1, Done (Inr sample_conn1))"
  by (simp add: handshake_round_def sample_agent_env_def sample_agent_config_def host_cid_def
      VMADDR_CID_HOST_def sample_round)

theorem handshake_persistent_witness:
  "perform_handshake (sample_agent_env (HandshakeOk [])) sample_agent_config sample_os
   = (drop_conn sample_conn1 (sample_stream\<lparr>inp := [], outp := frame [5], room := 9999995\<rparr>) sample_os1,
      Inr [])"
  by (rule handshake_persistent [OF _ _ sample_handshake_round _ sample_exchange(2), where j = 0])
    (simp_all add: sample_exchange(1) sample_conn1_def)

theorem handshake_bounded_witness:
  "tries (fst (perform_handshake (sample_agent_env (HandshakeOk [])) sample_agent_config sample_os)) \<le> 176"
proof -
  obtain w' r where r:
    "perform_handshake (sample_agent_env (HandshakeOk [])) sample_agent_config sample_os = (w', r)"
    by force
  from handshake_bounded [OF sample_os_wf r] r show ?thesis by (simp add: sample_os_def)
qed

theorem run_agent_secures_port_witness:
  "case snd (run_agent (sample_agent_env (HandshakeOk [])) sample_agent_config sample_os) of
     Inl e \<Rightarrow> True | Inr (st, sock) \<Rightarrow> listener st \<noteq> None"
proof -
  obtain w' r where r: "run_agent (sample_agent_env (HandshakeOk [])) sample_agent_config sample_os = (w', r)"
    by force
  from run_agent_secures_port [OF sample_os_wf r] r show ?thesis by (auto split: sum.splits)
qed

end
