(* ===== verification/Agent_Creds.thy ===== *)
theory Agent_Creds imports Agent_Connect Samples begin

text \<open>
  Credentials in the agent: key and request generation (\<^verbatim>\<open>csr.rs\<close>), the request to the host over
  a connection from the client port, and the cache with its rotation threshold (\<^verbatim>\<open>client.rs\<close> of
  \<^verbatim>\<open>apps/rust-apps/authn-scope-agent/src\<close>).
\<close>

section \<open>Key and request\<close>

record generated_csr =
  gen_key_pem :: string
  gen_csr_pem :: string

definition csr_request_params :: "('k, 'c) rcgen \<Rightarrow> string \<Rightarrow> cert_params" where
  "csr_request_params R identity_name =
     (params_default R)
       \<lparr>distinguished_name := [(CommonName, identity_name), (OrganizationName, ''authn-scope'')]\<rparr>"

definition generate_csr :: "('k, 'c) rcgen \<Rightarrow> nat \<Rightarrow> string \<Rightarrow> generated_csr result" where
  "generate_csr R seed identity_name =
     map_err (\<lambda>e. Bail (Msg e))
       (rbind (generate_for R seed) (\<lambda>key.
        rbind (serialize_request R (csr_request_params R identity_name) key) (\<lambda>csr.
        rbind (request_pem R csr) (\<lambda>pem.
        Inr \<lparr>gen_key_pem = kp_serialize_pem R key, gen_csr_pem = pem\<rparr>))))"

section \<open>The request to the host\<close>

text \<open>The agent's memory and the system, and what its operations depend on.\<close>

type_synonym agent_world = "agent_os \<times> agent_state"

record ('k, 'c) agent_pki =
  agent_crypto :: "('k, 'c) rcgen"
  agent_x509 :: x509

definition on_os :: "(agent_os, 'a) io \<Rightarrow> (agent_world, 'a) io" where
  "on_os m ws = (case m (fst ws) of (w', r) \<Rightarrow> ((w', snd ws), r))"

text \<open>Replacing the listener drops the old one, which closes its socket.\<close>

definition set_listener :: "nat option \<Rightarrow> (agent_world, unit) io" where
  "set_listener l ws =
     (case ws of (w, st) \<Rightarrow>
        ((case listener st of None \<Rightarrow> w | Some old \<Rightarrow> sys_close old w, st\<lparr>listener := l\<rparr>), Inr ()))"

definition rebind_failure :: string where
  "rebind_failure = ''failed to re-bind port 901 listener after on-demand dial''"

definition request_cert_on_demand ::
  "agent_env \<Rightarrow> ('k, 'c) agent_pki \<Rightarrow> nat \<Rightarrow> agent_config \<Rightarrow> string
   \<Rightarrow> (agent_world, x509_credentials) io" where
  "request_cert_on_demand env pki seed config identity_name =
     io_bind (io_context (''CSR generation for identity '' @ quoted identity_name)
                (io_lift (generate_csr (agent_crypto pki) seed identity_name))) (\<lambda>generated.
     io_bind (set_listener None) (\<lambda>_.
     io_bind (io_context ''vsock connect on demand failed''
                (on_os (connect_with_local_port (host_cid env) (agent_server_port config)
                          (client_port config)))) (\<lambda>c.
     io_bind (on_os (exchange env ''sending CertRequest'' ''receiving AgentResponse''
                (CertRequest PROTOCOL_VERSION (agent_vm_name config) identity_name
                   (gen_csr_pem generated)) c)) (\<lambda>resp.
     io_bind (on_os (bind_listener (client_port config) rebind_failure)) (\<lambda>l.
     io_bind (set_listener (Some l)) (\<lambda>_.
     case resp of
       CertOk cert ca_pem \<Rightarrow>
         io_ok \<lparr>cred_cert_pem = cert, cred_key_pem = gen_key_pem generated, cred_ca_cert_pem = ca_pem\<rparr>
     | AgentError message \<Rightarrow>
         io_fail (Bail (Msg (''Server rejected request for '' @ quoted identity_name @ '': '' @ message)))
     | HandshakeOk _ \<Rightarrow> io_fail (Bail (Msg ''Unexpected response from host CA''))))))))"

section \<open>The cache\<close>

definition get_cert_validity_seconds :: "x509 \<Rightarrow> string \<Rightarrow> anyhow + nat" where
  "get_cert_validity_seconds X cert_pem =
     rbind (map_err (\<lambda>e. Msg (''Failed to parse PEM: '' @ e)) (parse_x509_pem X cert_pem)) (\<lambda>pem.
     rbind (map_err (\<lambda>e. Msg (''Failed to parse X.509: '' @ e)) (parse_x509_certificate X pem)) (\<lambda>x509.
     Inr (if x_not_after x509 > x_not_before x509
          then nat (x_not_after x509 - x_not_before x509) else 0)))"

text \<open>Half of a certificate's lifetime, in nanoseconds of the monotonic clock.\<close>

definition rotation_threshold :: "x509 \<Rightarrow> string \<Rightarrow> nat" where
  "rotation_threshold X cert_pem =
     (let ttl_secs = (case get_cert_validity_seconds X cert_pem of Inl e \<Rightarrow> 600 | Inr n \<Rightarrow> n)
      in (ttl_secs div 2) * 1000000000)"

text \<open>
  \<open>now\<close> and \<open>later\<close> are the clock when the cache is consulted and when new credentials are stored.
\<close>

definition get_or_fetch_credentials ::
  "agent_env \<Rightarrow> ('k, 'c) agent_pki \<Rightarrow> nat \<Rightarrow> nat \<Rightarrow> nat \<Rightarrow> agent_config \<Rightarrow> string
   \<Rightarrow> (agent_world, x509_credentials) io" where
  "get_or_fetch_credentials env pki seed now later config identity_name ws =
     (let fetch =
        io_bind (request_cert_on_demand env pki seed config identity_name) (\<lambda>creds (w, st).
          ((w, st\<lparr>cache := AList.update identity_name
                    \<lparr>cached_creds = creds, fetched_at = later\<rparr> (cache st)\<rparr>), Inr creds))
      in case map_of (cache (snd ws)) identity_name of
           None \<Rightarrow> fetch ws
         | Some cached \<Rightarrow>
             if now - fetched_at cached
                < rotation_threshold (agent_x509 pki) (cred_cert_pem (cached_creds cached))
             then (ws, Inr (cached_creds cached))
             else fetch ws)"

section \<open>Requests\<close>

text \<open>An agent's world: descriptors are sane, and the listener, if any, is an open one.\<close>

definition world_wf :: "agent_world \<Rightarrow> bool" where
  "world_wf ws \<longleftrightarrow> os_wf (fst ws) \<and>
     (case listener (snd ws) of None \<Rightarrow> True | Some l \<Rightarrow> l \<in> open_fds (fst ws))"

text \<open>The descriptors besides the listener.\<close>

definition other_fds :: "agent_world \<Rightarrow> nat set" where
  "other_fds ws = open_fds (fst ws) - (case listener (snd ws) of None \<Rightarrow> {} | Some l \<Rightarrow> {l})"

lemma set_listener_None:
  assumes "world_wf ws"
  shows "\<exists>w. set_listener None ws = ((w, (snd ws)\<lparr>listener := None\<rparr>), Inr ()) \<and> os_wf w
    \<and> open_fds w = other_fds ws"
  using assms
  by (cases ws)
    (auto simp: set_listener_def world_wf_def other_fds_def sys_close_def os_wf_def split: option.splits)

text \<open>The steps of a request after the keys are generated, up to the rebinding of the listener.\<close>

definition dial_and_exchange ::
  "agent_env \<Rightarrow> agent_config \<Rightarrow> string \<Rightarrow> string \<Rightarrow> (agent_os, agent_response) io" where
  "dial_and_exchange env config identity_name csr =
     io_bind (io_context ''vsock connect on demand failed''
                (connect_with_local_port (host_cid env) (agent_server_port config)
                   (client_port config))) (\<lambda>c.
     exchange env ''sending CertRequest'' ''receiving AgentResponse''
       (CertRequest PROTOCOL_VERSION (agent_vm_name config) identity_name csr) c)"

lemma dial_and_exchange_within:
  assumes "os_wf w" and "dial_and_exchange env config ident csr w = (w', r)"
  shows "within 11 1000 (\<lambda>d. d = (Some (client_port config), host_cid env, agent_server_port config))
    {} w w'"
proof -
  obtain w1 r1 where dial: "connect_with_local_port (host_cid env) (agent_server_port config)
      (client_port config) w = (w1, r1)" by force
  note within = connect_within [OF assms(1) dial]
  show ?thesis
  proof (cases r1)
    case (Inl e)
    with dial assms(2) within show ?thesis
      by (simp add: dial_and_exchange_def io_bind_def io_context_def)
  next
    case (Inr c)
    with dial assms(2) have "exchange env ''sending CertRequest'' ''receiving AgentResponse''
        (CertRequest PROTOCOL_VERSION (agent_vm_name config) ident csr) c w1 = (w', r)"
      by (simp add: dial_and_exchange_def io_bind_def io_context_def)
    with within Inr exchange_within show ?thesis by fastforce
  qed
qed

lemma on_os_bind: "on_os (io_bind m f) = io_bind (on_os m) (\<lambda>x. on_os (f x))"
  by (auto simp: fun_eq_iff on_os_def io_bind_def split: prod.splits sum.splits)

lemma on_os_context: "on_os (io_context c m) = io_context c (on_os m)"
  by (auto simp: fun_eq_iff on_os_def io_context_def split: prod.splits)

text \<open>What the response yields once the listener is back.\<close>

definition response_creds :: "string \<Rightarrow> generated_csr \<Rightarrow> agent_response \<Rightarrow> x509_credentials result" where
  "response_creds identity_name generated resp =
     (case resp of
        CertOk cert ca_pem \<Rightarrow>
          Inr \<lparr>cred_cert_pem = cert, cred_key_pem = gen_key_pem generated, cred_ca_cert_pem = ca_pem\<rparr>
      | AgentError message \<Rightarrow>
          Inl (Bail (Msg (''Server rejected request for '' @ quoted identity_name @ '': '' @ message)))
      | HandshakeOk _ \<Rightarrow> Inl (Bail (Msg ''Unexpected response from host CA'')))"

lemma request_cert_steps:
  "request_cert_on_demand env pki seed config ident =
     io_bind (io_context (''CSR generation for identity '' @ quoted ident)
                (io_lift (generate_csr (agent_crypto pki) seed ident))) (\<lambda>generated.
     io_bind (set_listener None) (\<lambda>_.
     io_bind (on_os (dial_and_exchange env config ident (gen_csr_pem generated))) (\<lambda>resp.
     io_bind (on_os (bind_listener (client_port config) rebind_failure)) (\<lambda>l.
     io_bind (set_listener (Some l)) (\<lambda>_.
     io_lift (response_creds ident generated resp))))))"
proof -
  have "(case resp of
      CertOk cert ca_pem \<Rightarrow> io_ok \<lparr>cred_cert_pem = cert, cred_key_pem = gen_key_pem g, cred_ca_cert_pem = ca_pem\<rparr>
    | AgentError message \<Rightarrow>
        io_fail (Bail (Msg (''Server rejected request for '' @ quoted ident @ '': '' @ message)))
    | HandshakeOk _ \<Rightarrow> io_fail (Bail (Msg ''Unexpected response from host CA'')))
    = (io_lift (response_creds ident g resp) :: (agent_world, x509_credentials) io)" for g resp
    by (auto simp: fun_eq_iff response_creds_def io_ok_def io_fail_def io_lift_def split: agent_response.splits)
  then show ?thesis
    by (simp add: request_cert_on_demand_def dial_and_exchange_def on_os_bind on_os_context io_bind_assoc)
qed

lemma set_listener_Some:
  "set_listener (Some l) (w, st\<lparr>listener := None\<rparr>) = ((w, st\<lparr>listener := Some l\<rparr>), Inr ())"
  by (simp add: set_listener_def)

text \<open>The four ways a request can go, with the state it leaves.\<close>

lemma request_cert_cases:
  assumes wf: "world_wf ws" and req: "request_cert_on_demand env pki seed config ident ws = (ws', r)"
  obtains
    (no_csr) e where "generate_csr (agent_crypto pki) seed ident = Inl e" "ws' = ws"
      "r = Inl (with_context (''CSR generation for identity '' @ quoted ident) e)"
  | (no_response) generated w0 w1 e where "generate_csr (agent_crypto pki) seed ident = Inr generated"
      "set_listener None ws = ((w0, (snd ws)\<lparr>listener := None\<rparr>), Inr ())"
      "dial_and_exchange env config ident (gen_csr_pem generated) w0 = (w1, Inl e)"
      "ws' = (w1, (snd ws)\<lparr>listener := None\<rparr>)" "r = Inl e"
      "within 11 1000 (\<lambda>d. d = (Some (client_port config), host_cid env, agent_server_port config)) {} w0 w1"
  | (no_listener) generated w0 w1 w2 resp e where
      "generate_csr (agent_crypto pki) seed ident = Inr generated"
      "set_listener None ws = ((w0, (snd ws)\<lparr>listener := None\<rparr>), Inr ())"
      "dial_and_exchange env config ident (gen_csr_pem generated) w0 = (w1, Inr resp)"
      "bind_listener (client_port config) rebind_failure w1 = (w2, Inl e)"
      "ws' = (w2, (snd ws)\<lparr>listener := None\<rparr>)" "r = Inl e"
      "within 22 2000 (\<lambda>d. d = (Some (client_port config), host_cid env, agent_server_port config)) {} w0 w2"
  | (answered) generated w0 w1 w2 resp l where
      "generate_csr (agent_crypto pki) seed ident = Inr generated"
      "set_listener None ws = ((w0, (snd ws)\<lparr>listener := None\<rparr>), Inr ())"
      "dial_and_exchange env config ident (gen_csr_pem generated) w0 = (w1, Inr resp)"
      "bind_listener (client_port config) rebind_failure w1 = (w2, Inr l)"
      "ws' = (w2, (snd ws)\<lparr>listener := Some l\<rparr>)" "r = response_creds ident generated resp"
      "within 22 2000 (\<lambda>d. d = (Some (client_port config), host_cid env, agent_server_port config)) {l} w0 w2"
proof (cases "generate_csr (agent_crypto pki) seed ident")
  case (Inl e)
  with req have "ws' = ws" "r = Inl (with_context (''CSR generation for identity '' @ quoted ident) e)"
    by (simp_all add: request_cert_steps io_bind_def io_context_def io_lift_def)
  with Inl no_csr show thesis by blast
next
  case (Inr generated)
  let ?ok = "\<lambda>d. d = (Some (client_port config), host_cid env, agent_server_port config)"
  from set_listener_None [OF wf] obtain w0 where
    w0: "set_listener None ws = ((w0, (snd ws)\<lparr>listener := None\<rparr>), Inr ())" and wf0: "os_wf w0" by blast
  obtain w1 r1 where dial: "dial_and_exchange env config ident (gen_csr_pem generated) w0 = (w1, r1)"
    by force
  note within1 = dial_and_exchange_within [OF wf0 dial]
  then have wf1: "os_wf w1" by (simp add: within_def)
  note steps = request_cert_steps io_bind_def io_context_def io_lift_def on_os_def Inr w0 dial
  show thesis
  proof (cases r1)
    case (Inl e)
    with req have "ws' = (w1, (snd ws)\<lparr>listener := None\<rparr>)" "r = Inl e" by (simp_all add: steps)
    with no_response Inr w0 dial Inl within1 show thesis by blast
  next
    case r1: (Inr resp)
    obtain w2 r2 where bind: "bind_listener (client_port config) rebind_failure w1 = (w2, r2)" by force
    from guard.retry_within [OF wf1 bind [unfolded bind_listener_def]]
    have "within 11 1000 (\<lambda>d. False) (guard.keeps r2) w1 w2" by simp
    then have "within 11 1000 ?ok (guard.keeps r2) w1 w2" by (auto simp: within_def dials_ok_def)
    from within_trans [OF within1 this] have within2: "within 22 2000 ?ok (guard.keeps r2) w0 w2" by simp
    show thesis
    proof (cases r2)
      case (Inl e)
      with req r1 bind have "ws' = (w2, (snd ws)\<lparr>listener := None\<rparr>)" "r = Inl e" by (simp_all add: steps)
      with no_listener Inr w0 dial r1 bind Inl within2 show thesis by (auto simp: guard.keeps_def)
    next
      case r2: (Inr l)
      with req r1 bind have "ws' = (w2, (snd ws)\<lparr>listener := Some l\<rparr>)"
        "r = response_creds ident generated resp"
        by (simp_all add: steps set_listener_Some)
      with answered Inr w0 dial r1 bind r2 within2 show thesis by (auto simp: guard.keeps_def)
    qed
  qed
qed

lemma set_listener_None_eq:
  "world_wf ws \<Longrightarrow> set_listener None ws = ((w0, st), Inr ()) \<Longrightarrow>
     os_wf w0 \<and> open_fds w0 = other_fds ws \<and> tries w0 = tries (fst ws) \<and> slept w0 = slept (fst ws)"
  using set_listener_None [of ws]
  by (cases ws) (auto simp: set_listener_def sys_close_def split: option.splits)

lemma request_cert_world:
  assumes "world_wf ws" and "request_cert_on_demand env pki seed config ident ws = (ws', r)"
  shows "world_wf ws' \<and> other_fds ws' = other_fds ws \<and> cache (snd ws') = cache (snd ws)
    \<and> workloads (snd ws') = workloads (snd ws)
    \<and> tries (fst ws') \<le> tries (fst ws) + 22 \<and> slept (fst ws') \<le> slept (fst ws) + 2000"
  using assms
proof (cases rule: request_cert_cases)
  case (no_response generated w0 w1 e)
  with set_listener_None_eq [OF assms(1) no_response(2)] show ?thesis
    by (auto simp: world_wf_def other_fds_def within_def)
next
  case (no_listener generated w0 w1 w2 resp e)
  with set_listener_None_eq [OF assms(1) no_listener(2)] show ?thesis
    by (auto simp: world_wf_def other_fds_def within_def)
next
  case (answered generated w0 w1 w2 resp l)
  with set_listener_None_eq [OF assms(1) answered(2)] show ?thesis
    by (auto simp: world_wf_def other_fds_def within_def)
qed (use assms(1) in simp)

section \<open>What a request promises\<close>

text \<open>
  A request leaves the agent in order whatever happens: at most 22 sockets and two seconds of
  sleep, every descriptor other than the listener as before, the listener's an open one if there
  is one, and the cache and the workloads untouched.
\<close>
theorem request_keeps_world:
  assumes "world_wf ws" and "request_cert_on_demand env pki seed config ident ws = (ws', r)"
  shows "world_wf ws' \<and> other_fds ws' = other_fds ws \<and> cache (snd ws') = cache (snd ws)
    \<and> workloads (snd ws') = workloads (snd ws)
    \<and> tries (fst ws') \<le> tries (fst ws) + 22 \<and> slept (fst ws') \<le> slept (fst ws) + 2000"
  using assms by (rule request_cert_world)

text \<open>
  C14: Credentials are a certificate of the host together with the key that was generated for
  this request, and when they are returned the client port is occupied by the listener again.
\<close>
theorem request_success:
  assumes "world_wf ws" and "request_cert_on_demand env pki seed config ident ws = (ws', Inr creds)"
  shows "\<exists>generated w0 w1 l. generate_csr (agent_crypto pki) seed ident = Inr generated
    \<and> dial_and_exchange env config ident (gen_csr_pem generated) w0
        = (w1, Inr (CertOk (cred_cert_pem creds) (cred_ca_cert_pem creds)))
    \<and> cred_key_pem creds = gen_key_pem generated
    \<and> listener (snd ws') = Some l \<and> l \<in> open_fds (fst ws')
    \<and> bound (fst ws') l = Some (client_port config)"
  using assms
proof (cases rule: request_cert_cases)
  case (answered generated w0 w1 w2 resp l)
  then have "response_creds ident generated resp = Inr creds" by simp
  then have "resp = CertOk (cred_cert_pem creds) (cred_ca_cert_pem creds)"
    "cred_key_pem creds = gen_key_pem generated"
    by (auto simp: response_creds_def split: agent_response.splits)
  moreover from answered have "bound w2 l = Some (client_port config)"
    by (intro bind_listener_Inr) simp
  moreover from answered have "l \<in> open_fds w2" by (simp add: within_def)
  ultimately show ?thesis using answered by auto
qed simp_all

text \<open>
  C15: When a request leaves the client port unprotected. After a request that got as far as
  releasing the port, the listener is gone exactly if dialling, sending or receiving failed, or
  rebinding did; then the request fails, and the old listener's socket is closed. In every other
  case an open listener is bound to the client port again, also when the request fails because
  the host rejects it.
\<close>
theorem failed_request_loses_listener:
  assumes "world_wf ws" and "generate_csr (agent_crypto pki) seed ident = Inr generated"
    and "set_listener None ws = ((w0, st0), Inr ())"
    and "dial_and_exchange env config ident (gen_csr_pem generated) w0 = (w1, dialled)"
    and "bind_listener (client_port config) rebind_failure w1 = (w2, rebound)"
    and "request_cert_on_demand env pki seed config ident ws = (ws', r)"
  shows "(listener (snd ws') = None \<longleftrightarrow> (\<exists>e. dialled = Inl e) \<or> (\<exists>e. rebound = Inl e))
    \<and> (listener (snd ws') = None \<longrightarrow> (\<exists>e. r = Inl e) \<and> open_fds (fst ws') = other_fds ws)
    \<and> (\<forall>l. listener (snd ws') = Some l \<longrightarrow>
         l \<in> open_fds (fst ws') \<and> bound (fst ws') l = Some (client_port config))
    \<and> (\<forall>msg. dialled = Inr (AgentError msg) \<longrightarrow> (\<exists>e. r = Inl e))"
  using assms(1,6)
proof (cases rule: request_cert_cases)
  case (no_csr e)
  with assms(2) show ?thesis by simp
next
  case (no_response generated' w0' w1' e)
  with assms(2-4) set_listener_None_eq [OF assms(1) assms(3)] show ?thesis
    by (auto simp: within_def)
next
  case (no_listener generated' w0' w1' w2' resp e)
  with assms(2-5) set_listener_None_eq [OF assms(1) assms(3)] show ?thesis
    by (auto simp: within_def)
next
  case (answered generated' w0' w1' w2' resp l)
  then have "bound w2' l = Some (client_port config)" by (intro bind_listener_Inr) simp
  with answered assms(2-5) show ?thesis by (auto simp: within_def response_creds_def)
qed

section \<open>What the cache promises\<close>

lemma get_or_fetch_Inr:
  assumes "get_or_fetch_credentials env pki seed now later config ident ws = (ws', Inr creds)"
  shows "(\<exists>c. map_of (cache (snd ws)) ident = Some c \<and> creds = cached_creds c \<and> ws' = ws
      \<and> now - fetched_at c < rotation_threshold (agent_x509 pki) (cred_cert_pem creds))
    \<or> (\<exists>w st. request_cert_on_demand env pki seed config ident ws = ((w, st), Inr creds)
      \<and> ws' = (w, st\<lparr>cache := AList.update ident \<lparr>cached_creds = creds, fetched_at = later\<rparr> (cache st)\<rparr>))"
  using assms
  by (auto simp: get_or_fetch_credentials_def Let_def io_bind_eq_Inr split: option.splits if_splits)

lemma get_or_fetch_world:
  assumes "world_wf ws" and "get_or_fetch_credentials env pki seed now later config ident ws = (ws', r)"
  shows "world_wf ws' \<and> other_fds ws' = other_fds ws \<and> workloads (snd ws') = workloads (snd ws)"
proof -
  obtain ws1 r1 where req: "request_cert_on_demand env pki seed config ident ws = (ws1, r1)"
    by (metis surj_pair)
  note req_world = request_cert_world [OF assms(1) req]
  from assms(2) req consider "ws' = ws" | "ws' = ws1"
    | c where "ws' = (fst ws1, (snd ws1)\<lparr>cache := c\<rparr>)"
    by (cases ws1; cases r1) (auto simp: get_or_fetch_credentials_def Let_def io_bind_def
        split: option.splits if_splits)
  then show ?thesis
  proof cases
    case (3 c)
    have "world_wf ws' = world_wf ws1" "other_fds ws' = other_fds ws1"
      by (simp_all add: 3 world_wf_def other_fds_def split: option.splits)
    with req_world 3 show ?thesis by simp
  qed (use req_world assms(1) in simp_all)
qed

text \<open>
  The lifetime in seconds that a certificate text states: from its first to its last moment if it
  can be read, none if they are the wrong way round, and ten minutes if it cannot be read.
\<close>

definition stated_lifetime :: "x509 \<Rightarrow> string \<Rightarrow> nat \<Rightarrow> bool" where
  "stated_lifetime X pem n \<longleftrightarrow>
     (if \<exists>der crt. parse_x509_pem X pem = Inr der \<and> parse_x509_certificate X der = Inr crt
      then \<exists>der crt. parse_x509_pem X pem = Inr der \<and> parse_x509_certificate X der = Inr crt
             \<and> int n = max 0 (x_not_after crt - x_not_before crt)
      else n = 600)"

lemma stated_lifetime_threshold:
  "stated_lifetime X pem n \<Longrightarrow> rotation_threshold X pem = (n div 2) * 1000000000"
  by (cases "parse_x509_pem X pem"; cases "parse_x509_certificate X (projr (parse_x509_pem X pem))")
    (auto simp: stated_lifetime_def rotation_threshold_def get_cert_validity_seconds_def Let_def
      rbind_def map_err_def split: if_splits)

lemma stated_lifetime_exists: "\<exists>n. stated_lifetime X pem n"
proof (cases "\<exists>der crt. parse_x509_pem X pem = Inr der \<and> parse_x509_certificate X der = Inr crt")
  case True
  then obtain der crt where "parse_x509_pem X pem = Inr der" "parse_x509_certificate X der = Inr crt"
    by blast
  then have "stated_lifetime X pem (nat (x_not_after crt - x_not_before crt))"
    by (simp add: stated_lifetime_def)
  then show ?thesis ..
next
  case False
  then have "stated_lifetime X pem 600" unfolding stated_lifetime_def by (simp only: if_False)
  then show ?thesis ..
qed

text \<open>
  C20: What a workload is given is never past its half-life: either the credentials were stored
  less than half of the lifetime ago that their certificate states, the clock in nanoseconds,
  and nothing changes, or they come from a request to the host made just now, and then they
  replace the entry of this identity and no other. The choice is exact: half of the lifetime in
  whole seconds is when the cached credentials stop being served.
\<close>
theorem credentials_within_half_life:
  assumes "world_wf ws"
    and "get_or_fetch_credentials env pki seed now later config ident ws = (ws', Inr creds)"
  shows "((\<exists>c n. map_of (cache (snd ws)) ident = Some c \<and> creds = cached_creds c \<and> ws' = ws
        \<and> stated_lifetime (agent_x509 pki) (cred_cert_pem creds) n
        \<and> 2 * (now - fetched_at c) < n * 1000000000)
      \<or> (\<exists>ws1. request_cert_on_demand env pki seed config ident ws = (ws1, Inr creds)
        \<and> fst ws' = fst ws1 \<and> map_of (cache (snd ws'))
            = (map_of (cache (snd ws)))(ident \<mapsto> \<lparr>cached_creds = creds, fetched_at = later\<rparr>)))
    \<and> (\<forall>c n. map_of (cache (snd ws)) ident = Some c
        \<and> stated_lifetime (agent_x509 pki) (cred_cert_pem (cached_creds c)) n
        \<longrightarrow> (if now - fetched_at c < (n div 2) * 1000000000 then ws' = ws \<and> creds = cached_creds c
            else \<exists>ws1. request_cert_on_demand env pki seed config ident ws = (ws1, Inr creds)))"
proof (intro conjI allI impI; (elim conjE)?)
  let ?T = "\<lambda>c. rotation_threshold (agent_x509 pki) (cred_cert_pem (cached_creds c))"
  show "(\<exists>c n. map_of (cache (snd ws)) ident = Some c \<and> creds = cached_creds c \<and> ws' = ws
        \<and> stated_lifetime (agent_x509 pki) (cred_cert_pem creds) n
        \<and> 2 * (now - fetched_at c) < n * 1000000000)
      \<or> (\<exists>ws1. request_cert_on_demand env pki seed config ident ws = (ws1, Inr creds)
        \<and> fst ws' = fst ws1 \<and> map_of (cache (snd ws'))
            = (map_of (cache (snd ws)))(ident \<mapsto> \<lparr>cached_creds = creds, fetched_at = later\<rparr>))"
    using get_or_fetch_Inr [OF assms(2)]
  proof (elim disjE exE conjE)
    fix c
    assume c: "map_of (cache (snd ws)) ident = Some c" "creds = cached_creds c" "ws' = ws"
      "now - fetched_at c < rotation_threshold (agent_x509 pki) (cred_cert_pem creds)"
    obtain n where n: "stated_lifetime (agent_x509 pki) (cred_cert_pem creds) n"
      using stated_lifetime_exists by blast
    from c(4) stated_lifetime_threshold [OF n] have "2 * (now - fetched_at c) < n * 1000000000" by linarith
    with c n show ?thesis by blast
  next
    fix w st
    assume req: "request_cert_on_demand env pki seed config ident ws = ((w, st), Inr creds)"
      and ws': "ws' = (w, st\<lparr>cache := AList.update ident \<lparr>cached_creds = creds, fetched_at = later\<rparr> (cache st)\<rparr>)"
    from request_cert_world [OF assms(1) req] have "cache st = cache (snd ws)" by simp
    with ws' have "map_of (cache (snd ws'))
        = (map_of (cache (snd ws)))(ident \<mapsto> \<lparr>cached_creds = creds, fetched_at = later\<rparr>)"
      by (simp add: hm.get_put)
    with req ws' show ?thesis by auto
  qed
  fix c n
  assume c: "map_of (cache (snd ws)) ident = Some c"
    and n: "stated_lifetime (agent_x509 pki) (cred_cert_pem (cached_creds c)) n"
  have "?T c = (n div 2) * 1000000000" by (rule stated_lifetime_threshold [OF n])
  with assms(2) c show "if now - fetched_at c < (n div 2) * 1000000000 then ws' = ws \<and> creds = cached_creds c
      else \<exists>ws1. request_cert_on_demand env pki seed config ident ws = (ws1, Inr creds)"
    by (auto simp: get_or_fetch_credentials_def Let_def io_bind_eq_Inr)
qed

text \<open>
  Certificates rotate: once half of the lifetime that the certificate itself states, in whole
  seconds, has passed since the credentials were stored, the next fetch makes a request to the
  host, and a failure of the request is reported without losing the cached entry.
\<close>
theorem rotation_after_half_life:
  assumes "world_wf ws" and "map_of (cache (snd ws)) ident = Some c"
    and "get_cert_validity_seconds (agent_x509 pki) (cred_cert_pem (cached_creds c)) = Inr ttl"
    and "(ttl div 2) * 1000000000 \<le> now - fetched_at c"
    and "request_cert_on_demand env pki seed config ident ws = (ws1, r)"
  shows "\<exists>ws'. get_or_fetch_credentials env pki seed now later config ident ws = (ws', r) \<and> fst ws' = fst ws1
    \<and> (\<forall>e. r = Inl e \<longrightarrow> cache (snd ws') = cache (snd ws))"
proof -
  have "\<not> now - fetched_at c < rotation_threshold (agent_x509 pki) (cred_cert_pem (cached_creds c))"
    using assms(3,4) by (simp add: rotation_threshold_def)
  with assms(2,5) have "get_or_fetch_credentials env pki seed now later config ident ws =
      (case r of Inl e \<Rightarrow> (ws1, Inl e)
       | Inr creds \<Rightarrow> ((fst ws1, (snd ws1)\<lparr>cache := AList.update ident
             \<lparr>cached_creds = creds, fetched_at = later\<rparr> (cache (snd ws1))\<rparr>), Inr creds))"
    by (cases ws1) (simp add: get_or_fetch_credentials_def Let_def io_bind_def split: sum.splits)
  moreover have "cache (snd ws1) = cache (snd ws)" using request_cert_world [OF assms(1,5)] by simp
  ultimately show ?thesis by (cases r) auto
qed

section \<open>A sample request\<close>

definition sample_pki :: "(string, csr) agent_pki" where
  "sample_pki = \<lparr>agent_crypto = sample_rcgen, agent_x509 = sample_x509\<rparr>"

definition sample_cached :: cached_credential where
  "sample_cached =
     \<lparr>cached_creds = \<lparr>cred_cert_pem = ''old'', cred_key_pem = ''k'', cred_ca_cert_pem = ''ca''\<rparr>,
      fetched_at = 0\<rparr>"

definition sample_state :: agent_state where
  "sample_state = \<lparr>cache = [(''a'', sample_cached)], listener = Some 2, workloads = []\<rparr>"

definition sample_world :: agent_world where
  "sample_world = (sample_os, sample_state)"

lemma sample_world_wf: "world_wf sample_world"
  by (simp add: world_wf_def sample_world_def sample_state_def sample_os_wf) (simp add: sample_os_def)

lemma sample_generate: "generate_csr sample_rcgen seed ident = Inr \<lparr>gen_key_pem = ''key'', gen_csr_pem = ''csr''\<rparr>"
  by (simp add: generate_csr_def sample_rcgen_def)

definition sample_cert_env :: agent_env where
  "sample_cert_env = sample_agent_env (CertOk ''new'' ''ca'')"

lemma sample_set_listener:
  "set_listener None sample_world = ((sample_os\<lparr>open_fds := {0, 1}\<rparr>, sample_state\<lparr>listener := None\<rparr>), Inr ())"
  by (auto simp: set_listener_def sample_world_def sample_state_def sys_close_def sample_os_def)

theorem request_keeps_world_witness:
  "world_wf (fst (request_cert_on_demand sample_cert_env sample_pki 0 sample_agent_config ''a'' sample_world))"
proof -
  obtain ws' r where
    r: "request_cert_on_demand sample_cert_env sample_pki 0 sample_agent_config ''a'' sample_world = (ws', r)"
    by (metis surj_pair)
  from request_keeps_world [OF sample_world_wf r] r show ?thesis by simp
qed

text \<open>A system in which dialling fails.\<close>

definition sample_dead_os :: agent_os where
  "sample_dead_os = sample_os\<lparr>outcomes := (\<lambda>_. Some \<lparr>addr_in_use = False, os_text = ''down''\<rparr>)\<rparr>"

theorem failed_request_loses_listener_witness:
  "\<exists>ws' e. request_cert_on_demand sample_cert_env sample_pki 0 sample_agent_config ''a''
      (sample_dead_os, sample_state) = (ws', Inl e) \<and> listener (snd ws') = None"
proof -
  let ?ws = "(sample_dead_os, sample_state)" and ?w0 = "sample_dead_os\<lparr>open_fds := {0, 1}\<rparr>"
  have wf: "world_wf ?ws"
    by (simp add: world_wf_def sample_dead_os_def sample_os_def sample_state_def os_wf_def)
  have drop: "set_listener None ?ws = ((?w0, sample_state\<lparr>listener := None\<rparr>), Inr ())"
    by (auto simp: set_listener_def sample_state_def sys_close_def sample_dead_os_def sample_os_def)
  have gen: "generate_csr (agent_crypto sample_pki) 0 ''a'' = Inr \<lparr>gen_key_pem = ''key'', gen_csr_pem = ''csr''\<rparr>"
    by (simp add: sample_pki_def sample_generate)
  have "\<exists>w1 e. dial_and_exchange sample_cert_env sample_agent_config ''a'' ''csr'' ?w0 = (w1, Inl e)"
    by (simp add: dial_and_exchange_def io_bind_def io_context_def connect_with_local_port_def
        retry.simps connect_round_def sys_socket_def syscall_def sample_dead_os_def Let_def)
  then obtain w1 e where
    "dial_and_exchange sample_cert_env sample_agent_config ''a'' ''csr'' ?w0 = (w1, Inl e)" by blast
  then have dial: "dial_and_exchange sample_cert_env sample_agent_config ''a''
      (gen_csr_pem \<lparr>gen_key_pem = ''key'', gen_csr_pem = ''csr''\<rparr>) ?w0 = (w1, Inl e)" by simp
  obtain w2 rebound where bind: "bind_listener (client_port sample_agent_config) rebind_failure w1 = (w2, rebound)"
    by (metis surj_pair)
  obtain ws' r where req: "request_cert_on_demand sample_cert_env sample_pki 0 sample_agent_config ''a'' ?ws
      = (ws', r)"
    by (metis surj_pair)
  from failed_request_loses_listener [OF wf gen drop dial bind req] req show ?thesis by auto
qed

theorem rotation_after_half_life_witness:
  "\<exists>ws' r. get_or_fetch_credentials sample_cert_env sample_pki 0 5 6 sample_agent_config ''a'' sample_world
     = (ws', r)"
proof -
  obtain ws1 r where
    r: "request_cert_on_demand sample_cert_env sample_pki 0 sample_agent_config ''a'' sample_world = (ws1, r)"
    by (metis surj_pair)
  have "map_of (cache (snd sample_world)) ''a'' = Some sample_cached"
    by (simp add: sample_world_def sample_state_def)
  moreover have "get_cert_validity_seconds (agent_x509 sample_pki) (cred_cert_pem (cached_creds sample_cached))
      = Inr 0"
    by (simp add: get_cert_validity_seconds_def sample_pki_def sample_x509_decodes sample_cert_def)
  ultimately show ?thesis
    using rotation_after_half_life [OF sample_world_wf _ _ _ r, of sample_cached 0 5 6] by auto
qed

text \<open>A system in which every call succeeds.\<close>

definition sample_live_os :: agent_os where
  "sample_live_os = sample_os\<lparr>outcomes := (\<lambda>_. None)\<rparr>"

definition sample_live_world :: agent_world where
  "sample_live_world = (sample_live_os, sample_state\<lparr>cache := []\<rparr>)"

lemma sample_live_wf: "world_wf sample_live_world"
  by (simp add: world_wf_def sample_live_world_def sample_live_os_def sample_os_def sample_state_def os_wf_def)

definition sample_new :: x509_credentials where
  "sample_new = \<lparr>cred_cert_pem = ''new'', cred_key_pem = ''key'', cred_ca_cert_pem = ''ca''\<rparr>"

lemma live_request:
  assumes "listener st = Some 2"
  shows "\<exists>ws'. request_cert_on_demand sample_cert_env sample_pki 0 sample_agent_config ''a''
      (sample_live_os, st) = (ws', Inr sample_new)"
proof -
  let ?w0 = "sample_live_os\<lparr>open_fds := {0, 1}\<rparr>"
  have drop: "set_listener None (sample_live_os, st) = ((?w0, st\<lparr>listener := None\<rparr>), Inr ())"
    using assms by (auto simp: set_listener_def sys_close_def sample_live_os_def sample_os_def)
  have "\<exists>w1 c. connect_round 2 900 901 ?w0 = (w1, Done (Inr c)) \<and> outcomes w1 = (\<lambda>_. None)
      \<and> conn_stream c = sample_stream\<lparr>inp := [0, 0, 0, 1, 5]\<rparr>"
    by (simp add: connect_round_def sys_defs sample_live_os_def sample_os_def Let_def)
  then obtain w1 c where c: "connect_round 2 900 901 ?w0 = (w1, Done (Inr c))" "outcomes w1 = (\<lambda>_. None)"
    "conn_stream c = sample_stream\<lparr>inp := [0, 0, 0, 1, 5]\<rparr>" by blast
  then have conn: "connect_with_local_port 2 900 901 ?w0 = (w1, Inr c)"
    by (simp add: connect_with_local_port_def retry.simps)
  have "host_cid sample_cert_env = 2"
    by (simp add: host_cid_def sample_cert_env_def sample_agent_env_def VMADDR_CID_HOST_def)
  moreover have "exchange sample_cert_env a b req c w1
      = (drop_conn c (sample_stream\<lparr>inp := [], outp := frame [5], room := 9999995\<rparr>) w1,
         Inr (CertOk ''new'' ''ca''))" for a b req
    by (simp add: exchange_def c(3) sample_cert_env_def sample_exchange io_context_def)
  moreover have "outcomes (drop_conn c s w1) = (\<lambda>_. None)" for s
    by (simp add: drop_conn_def sys_close_def c(2))
  then have "\<exists>w2 l. bind_listener 901 rebind_failure (drop_conn c s w1) = (w2, Inr l)" for s
    by (simp add: bind_listener_def retry.simps listen_round_def sys_defs Let_def)
  ultimately show ?thesis
    using drop conn
    by (auto simp: request_cert_steps dial_and_exchange_def io_bind_def io_context_def io_lift_def
        on_os_def sample_pki_def sample_generate sample_agent_config_def response_creds_def
        set_listener_def sample_new_def split: prod.splits sum.splits option.splits)
      (metis Inl_Inr_False prod.inject)+
qed

lemma sample_live_request:
  "\<exists>ws'. request_cert_on_demand sample_cert_env sample_pki 0 sample_agent_config ''a'' sample_live_world
    = (ws', Inr sample_new)"
  unfolding sample_live_world_def by (rule live_request) (simp add: sample_state_def)

theorem request_success_witness:
  "\<exists>l. listener (snd (fst (request_cert_on_demand sample_cert_env sample_pki 0 sample_agent_config ''a''
      sample_live_world))) = Some l"
proof -
  obtain ws' where "request_cert_on_demand sample_cert_env sample_pki 0 sample_agent_config ''a''
      sample_live_world = (ws', Inr sample_new)" using sample_live_request by blast
  with request_success [OF sample_live_wf this] show ?thesis by auto
qed

theorem credentials_within_half_life_witness:
  "\<exists>ws'. get_or_fetch_credentials sample_cert_env sample_pki 0 5 6 sample_agent_config ''a''
      sample_live_world = (ws', Inr sample_new)
    \<and> map_of (cache (snd ws')) ''a'' = Some \<lparr>cached_creds = sample_new, fetched_at = 6\<rparr>"
proof -
  obtain w st where "request_cert_on_demand sample_cert_env sample_pki 0 sample_agent_config ''a''
      sample_live_world = ((w, st), Inr sample_new)"
    using sample_live_request by (metis surj_pair)
  moreover have none: "map_of (cache (snd sample_live_world)) ''a'' = None"
    by (simp add: sample_live_world_def)
  ultimately obtain ws' where got: "get_or_fetch_credentials sample_cert_env sample_pki 0 5 6
      sample_agent_config ''a'' sample_live_world = (ws', Inr sample_new)"
    by (simp add: get_or_fetch_credentials_def Let_def io_bind_def)
  from credentials_within_half_life [OF sample_live_wf got, THEN conjunct1] got none show ?thesis by auto
qed

end
