(* ===== verification/Agent_Match.thy ===== *)
theory Agent_Match imports Wire begin

text \<open>
  Attestation of a local process in the agent (\<^verbatim>\<open>apps/rust-apps/authn-scope-agent/src/client.rs\<close>):
  the discovery of its systemd unit from \<^verbatim>\<open>/proc/PID/cgroup\<close> and \<^verbatim>\<open>match_workload\<close>, which chooses
  the workload whose selector fits the process. The second part specifies selectors
  declaratively and the choice as the first best entry in the iteration order of the map.
\<close>

section \<open>Discovery of the systemd unit\<close>

text \<open>The loop over the lines of the file: the unit's path and name.\<close>

fun discover_unit :: "string list \<Rightarrow> string option \<times> string option" where
  "discover_unit [] = (None, None)"
| "discover_unit (line # rest) =
     (let parts = split_on CHR '':'' line in
      if length parts \<ge> 3 \<and> contains ''.service'' (parts ! 2)
      then (Some (parts ! 2), Some (last (split_on CHR ''/'' (parts ! 2))))
      else discover_unit rest)"

text \<open>The content of the file, if it can be read.\<close>

definition discover_cgroup :: "string option \<Rightarrow> string option \<times> string option" where
  "discover_cgroup content =
     (case content of None \<Rightarrow> (None, None) | Some c \<Rightarrow> discover_unit (lines c))"

section \<open>Matching\<close>

text \<open>What is known of the connected process, and the account database (\<^verbatim>\<open>uzers\<close>).\<close>

record process =
  proc_uid :: u32
  proc_gid :: u32
  proc_bin_path :: "string option"
  proc_unitpath :: "string option"
  proc_unitname :: "string option"

record accounts =
  user_uid :: "string \<Rightarrow> u32 option"
  group_gid :: "string \<Rightarrow> u32 option"

text \<open>The local variables of the loop body.\<close>

record match_flags =
  matches :: bool
  systemd_matched :: bool
  bin_path_matched :: bool
  uid_matched :: bool
  gid_matched :: bool

definition flags_init :: match_flags where
  "flags_init =
     \<lparr>matches = True, systemd_matched = False, bin_path_matched = False, uid_matched = False,
      gid_matched = False\<rparr>"

definition match_unix :: "accounts \<Rightarrow> process \<Rightarrow> unix_selector \<Rightarrow> match_flags \<Rightarrow> match_flags" where
  "match_unix acc p ux f0 =
     (let f1 = (case user ux of
                  None \<Rightarrow> f0
                | Some wl_user \<Rightarrow>
                    if user_uid acc wl_user \<noteq> Some (proc_uid p) then f0\<lparr>matches := False\<rparr>
                    else f0\<lparr>uid_matched := True\<rparr>);
          f2 = (case group ux of
                  None \<Rightarrow> f1
                | Some wl_group \<Rightarrow>
                    if group_gid acc wl_group \<noteq> Some (proc_gid p) then f1\<lparr>matches := False\<rparr>
                    else f1\<lparr>gid_matched := True\<rparr>)
      in case bin_path ux of
           None \<Rightarrow> f2
         | Some wl_bin_path \<Rightarrow>
             if Some wl_bin_path \<noteq> proc_bin_path p then f2\<lparr>matches := False\<rparr>
             else f2\<lparr>bin_path_matched := True\<rparr>)"

definition match_systemd :: "process \<Rightarrow> systemd_selector \<Rightarrow> match_flags \<Rightarrow> match_flags" where
  "match_systemd p sd f0 =
     (let (has1, ok1) = (case unitpath sd of
                           None \<Rightarrow> (False, True)
                         | Some wl_unitpath \<Rightarrow> (True, Some wl_unitpath = proc_unitpath p));
          (has2, ok2) = (case unitname sd of
                           None \<Rightarrow> (has1, ok1)
                         | Some wl_unitname \<Rightarrow>
                             let proc_name = (case proc_unitname p of Some n \<Rightarrow> n | None \<Rightarrow> []);
                                 stripped = (case strip_suffix ''.service'' proc_name of
                                               Some n \<Rightarrow> n | None \<Rightarrow> proc_name)
                             in (True, if wl_unitname \<noteq> proc_name \<and> wl_unitname \<noteq> stripped
                                       then False else ok1))
      in if has2 then (if ok2 then f0\<lparr>systemd_matched := True\<rparr> else f0\<lparr>matches := False\<rparr>) else f0)"

definition match_selector :: "accounts \<Rightarrow> process \<Rightarrow> selector_config \<Rightarrow> match_flags" where
  "match_selector acc p sel =
     (let f1 = (case unix sel of None \<Rightarrow> flags_init | Some ux \<Rightarrow> match_unix acc p ux flags_init)
      in case systemd sel of None \<Rightarrow> f1 | Some sd \<Rightarrow> match_systemd p sd f1)"

definition score :: "match_flags \<Rightarrow> int" where
  "score f =
     (if systemd_matched f then 100 else 0) + (if bin_path_matched f then 10 else 0)
     + (if uid_matched f then 1 else 0) + (if gid_matched f then 1 else 0)"

fun candidates :: "accounts \<Rightarrow> process \<Rightarrow> (string, workload_config) hashmap \<Rightarrow> (int \<times> string) list" where
  "candidates acc p [] = []"
| "candidates acc p ((name, config) # rest) =
     (let f = match_selector acc p (wc_selector config) in
      if matches f then (score f, name) # candidates acc p rest else candidates acc p rest)"

text \<open>The order in which candidates are sorted, \<^verbatim>\<open>b.0.cmp(&a.0)\<close>: the highest score first.\<close>

datatype descending = Descending int

instantiation descending :: linorder
begin

fun less_eq_descending :: "descending \<Rightarrow> descending \<Rightarrow> bool" where
  "less_eq_descending (Descending a) (Descending b) = (b \<le> a)"

fun less_descending :: "descending \<Rightarrow> descending \<Rightarrow> bool" where
  "less_descending (Descending a) (Descending b) = (b < a)"

instance
proof
  fix x y z :: descending
  show "x < y \<longleftrightarrow> x \<le> y \<and> \<not> y \<le> x" by (cases x; cases y) auto
  show "x \<le> x" by (cases x) simp
  show "x \<le> y \<Longrightarrow> y \<le> z \<Longrightarrow> x \<le> z" by (cases x; cases y; cases z) simp
  show "x \<le> y \<Longrightarrow> y \<le> x \<Longrightarrow> x = y" by (cases x; cases y) simp
  show "x \<le> y \<or> y \<le> x" by (cases x; cases y) auto
qed

end

definition match_workload ::
  "accounts \<Rightarrow> (string, workload_config) hashmap \<Rightarrow> process \<Rightarrow> string option" where
  "match_workload acc workloads p =
     (case sort_key (\<lambda>c. Descending (fst c)) (candidates acc p workloads) of
        [] \<Rightarrow> None
      | c # _ \<Rightarrow> Some (snd c))"

section \<open>Selectors declaratively\<close>

text \<open>A process without a unit has the empty unit name.\<close>

definition unit_name :: "process \<Rightarrow> string" where
  "unit_name p = (case proc_unitname p of Some n \<Rightarrow> n | None \<Rightarrow> [])"

definition unit_named :: "string \<Rightarrow> process \<Rightarrow> bool" where
  "unit_named n p \<longleftrightarrow> unit_name p = n \<or> unit_name p = n @ ''.service''"

definition selects :: "accounts \<Rightarrow> selector_config \<Rightarrow> process \<Rightarrow> bool" where
  "selects acc sel p \<longleftrightarrow>
     (\<forall>ux. unix sel = Some ux \<longrightarrow>
        (\<forall>u. user ux = Some u \<longrightarrow> user_uid acc u = Some (proc_uid p))
        \<and> (\<forall>g. group ux = Some g \<longrightarrow> group_gid acc g = Some (proc_gid p))
        \<and> (\<forall>b. bin_path ux = Some b \<longrightarrow> proc_bin_path p = Some b))
     \<and> (\<forall>sd. systemd sel = Some sd \<longrightarrow>
        (\<forall>q. unitpath sd = Some q \<longrightarrow> proc_unitpath p = Some q)
        \<and> (\<forall>n. unitname sd = Some n \<longrightarrow> unit_named n p))"

definition asks_systemd :: "selector_config \<Rightarrow> bool" where
  "asks_systemd sel \<longleftrightarrow> (\<exists>sd. systemd sel = Some sd \<and> (unitpath sd \<noteq> None \<or> unitname sd \<noteq> None))"

text \<open>How specific a selector is: the priority of a workload that selects the process.\<close>

definition specificity :: "selector_config \<Rightarrow> int" where
  "specificity sel =
     (if asks_systemd sel then 100 else 0)
     + (case unix sel of
          None \<Rightarrow> 0
        | Some ux \<Rightarrow> (if bin_path ux \<noteq> None then 10 else 0) + (if user ux \<noteq> None then 1 else 0)
                   + (if group ux \<noteq> None then 1 else 0))"

lemma strip_suffix_or_same:
  "(n = s \<or> n = (case strip_suffix suf s of Some t \<Rightarrow> t | None \<Rightarrow> s)) \<longleftrightarrow> s = n \<or> s = n @ suf"
  by (cases "strip_suffix suf s") (auto simp: strip_suffix_Some)

lemma match_unix_result:
  "matches (match_unix acc p ux f) \<longleftrightarrow> matches f
     \<and> (\<forall>u. user ux = Some u \<longrightarrow> user_uid acc u = Some (proc_uid p))
     \<and> (\<forall>g. group ux = Some g \<longrightarrow> group_gid acc g = Some (proc_gid p))
     \<and> (\<forall>b. bin_path ux = Some b \<longrightarrow> proc_bin_path p = Some b)"
  "systemd_matched (match_unix acc p ux f) = systemd_matched f"
  by (auto simp: match_unix_def Let_def split: option.splits)

lemma match_unix_score:
  assumes "matches (match_unix acc p ux flags_init)"
  shows "score (match_unix acc p ux flags_init) =
    (if bin_path ux \<noteq> None then 10 else 0) + (if user ux \<noteq> None then 1 else 0)
    + (if group ux \<noteq> None then 1 else 0)"
  using assms
  by (cases "user ux"; cases "group ux"; cases "bin_path ux")
    (simp_all add: match_unix_def flags_init_def score_def Let_def split: if_splits)

lemma match_systemd_result:
  "match_systemd p sd f =
     (if unitpath sd = None \<and> unitname sd = None then f
      else if (\<forall>q. unitpath sd = Some q \<longrightarrow> proc_unitpath p = Some q)
              \<and> (\<forall>n. unitname sd = Some n \<longrightarrow> unit_named n p)
      then f\<lparr>systemd_matched := True\<rparr> else f\<lparr>matches := False\<rparr>)"
proof (cases "unitname sd")
  case None
  then show ?thesis by (cases "unitpath sd") (auto simp: match_systemd_def)
next
  case (Some n)
  have "(n \<noteq> unit_name p \<and> n \<noteq> (case strip_suffix ''.service'' (unit_name p) of
      Some t \<Rightarrow> t | None \<Rightarrow> unit_name p)) \<longleftrightarrow> \<not> unit_named n p"
    unfolding unit_named_def using strip_suffix_or_same [of n "unit_name p" "''.service''"] by blast
  with Some show ?thesis
    by (cases "unitpath sd") (auto simp: match_systemd_def Let_def unit_name_def [symmetric])
qed

lemma matches_iff: "matches (match_selector acc p sel) \<longleftrightarrow> selects acc sel p"
  by (cases "unix sel"; cases "systemd sel")
    (auto simp: match_selector_def match_systemd_result match_unix_result flags_init_def selects_def
      Let_def)

lemma score_specificity:
  assumes "selects acc sel p"
  shows "score (match_selector acc p sel) = specificity sel"
proof -
  let ?f = "case unix sel of None \<Rightarrow> flags_init | Some ux \<Rightarrow> match_unix acc p ux flags_init"
  have f: "matches ?f"
    using assms by (auto simp: selects_def match_unix_result flags_init_def split: option.splits)
  have "score (f\<lparr>systemd_matched := True\<rparr>) = score f + 100" if "\<not> systemd_matched f" for f
    using that by (simp add: score_def)
  moreover have "\<not> systemd_matched ?f"
    by (auto simp: match_unix_result flags_init_def split: option.splits)
  ultimately have "score (match_selector acc p sel) = (if asks_systemd sel then 100 else 0) + score ?f"
    using assms
    by (cases "systemd sel")
      (auto simp: match_selector_def match_systemd_result asks_systemd_def selects_def Let_def)
  moreover have "score ?f = (case unix sel of None \<Rightarrow> 0
      | Some ux \<Rightarrow> (if bin_path ux \<noteq> None then 10 else 0) + (if user ux \<noteq> None then 1 else 0)
                 + (if group ux \<noteq> None then 1 else 0))"
    using f match_unix_score by (cases "unix sel") (auto simp: score_def flags_init_def)
  ultimately show ?thesis by (simp add: specificity_def)
qed

section \<open>The choice\<close>

lemma candidates_eq:
  "candidates acc p ws = map (\<lambda>(n, c). (specificity (wc_selector c), n))
     (filter (\<lambda>(n, c). selects acc (wc_selector c) p) ws)"
  by (induction acc p ws rule: candidates.induct) (auto simp: Let_def matches_iff score_specificity)

text \<open>The head of a stable sort is the first entry with the least key.\<close>

lemma sort_key_head:
  assumes "sort_key f xs = y # ys"
  shows "\<exists>pre post. xs = pre @ y # post \<and> (\<forall>x \<in> set pre. f y < f x) \<and> (\<forall>x \<in> set post. f y \<le> f x)"
proof -
  have sorted: "sorted (map f (y # ys))" by (metis assms sorted_sort_key)
  have members: "set xs = insert y (set ys)" by (metis assms list.simps(15) set_sort)
  then have least: "f y \<le> f x" if "x \<in> set xs" for x
    using sorted that by auto
  have "filter (\<lambda>x. f x = f y) xs = y # filter (\<lambda>x. f x = f y) ys"
    using sort_key_stable [of f "f y" xs] by (simp add: assms)
  then obtain pre post where xs: "xs = pre @ y # post" and "\<forall>x \<in> set pre. f x \<noteq> f y"
    by (auto simp: filter_eq_Cons_iff)
  with least have "\<forall>x \<in> set pre. f y < f x" by (metis Un_iff order_le_less set_append)
  with least xs show ?thesis by auto
qed

lemma sort_key_head_iff:
  "(\<exists>ys. sort_key f xs = y # ys) \<longleftrightarrow>
     (\<exists>pre post. xs = pre @ y # post \<and> (\<forall>x \<in> set pre. f y < f x) \<and> (\<forall>x \<in> set post. f y \<le> f x))"
proof
  assume "\<exists>pre post. xs = pre @ y # post \<and> (\<forall>x \<in> set pre. f y < f x) \<and> (\<forall>x \<in> set post. f y \<le> f x)"
  then obtain pre post where xs: "xs = pre @ y # post" and pre: "\<forall>x \<in> set pre. f y < f x"
    and post: "\<forall>x \<in> set post. f y \<le> f x" by blast
  then obtain z zs where zs: "sort_key f xs = z # zs"
    by (metis append_is_Nil_conv length_0_conv length_sort list.distinct(1) neq_Nil_conv)
  have "f z \<le> f y"
  proof -
    from sort_key_head [OF zs] obtain pre' post' where "xs = pre' @ z # post'"
      "\<forall>x \<in> set pre'. f z < f x" "\<forall>x \<in> set post'. f z \<le> f x" by blast
    then have "\<forall>x \<in> set xs. f z \<le> f x" by auto
    with xs show ?thesis by simp
  qed
  moreover have "z \<in> set xs" by (metis list.set_intros(1) set_sort zs)
  ultimately have key: "f z = f y" using xs pre post by force
  then have "z # filter (\<lambda>x. f x = f y) zs = filter (\<lambda>x. f x = f y) xs"
    using sort_key_stable [of f "f y" xs] by (simp add: zs)
  moreover have "filter (\<lambda>x. f x = f y) pre = []" using pre by (auto simp: filter_empty_conv)
  ultimately have "z = y" by (simp add: xs)
  with zs show "\<exists>ys. sort_key f xs = y # ys" by blast
qed (blast dest: sort_key_head)

lemma filter_eq_appendE:
  "filter P ws = us @ vs \<Longrightarrow> \<exists>pre rest. ws = pre @ rest \<and> filter P pre = us \<and> filter P rest = vs"
proof (induction ws arbitrary: us)
  case (Cons a ws)
  show ?case
  proof (cases "P a \<and> us = []")
    case True
    with Cons.prems show ?thesis by (intro exI [of _ "[]"] exI [of _ "a # ws"]) simp
  next
    case False
    with Cons.prems obtain us' where "filter P ws = us' @ vs" "us = (if P a then a # us' else us')"
      by (cases us) (auto split: if_splits)
    moreover from Cons.IH [OF this(1)] obtain pre rest where
      "ws = pre @ rest" "filter P pre = us'" "filter P rest = vs" by blast
    ultimately show ?thesis by (intro exI [of _ "a # pre"] exI [of _ rest]) simp
  qed
qed simp

lemma map_filter_split:
  "map g (filter P ws) = as @ y # bs \<longleftrightarrow>
     (\<exists>pre x post. ws = pre @ x # post \<and> P x \<and> g x = y \<and> map g (filter P pre) = as
        \<and> map g (filter P post) = bs)"
proof
  assume "map g (filter P ws) = as @ y # bs"
  then obtain us vs where "filter P ws = us @ vs" "map g us = as" "map g vs = y # bs"
    by (auto simp: map_eq_append_conv)
  moreover from this(3) obtain x ws' where "vs = x # ws'" "g x = y" "map g ws' = bs"
    by (auto simp: map_eq_Cons_conv)
  ultimately obtain pre rest where "ws = pre @ rest" "filter P pre = us" "filter P rest = x # ws'"
    using filter_eq_appendE by metis
  moreover from this(3) obtain skip post where "rest = skip @ x # post" "\<forall>u \<in> set skip. \<not> P u"
    "P x" "filter P post = ws'"
    by (auto simp: filter_eq_Cons_iff)
  ultimately have "ws = (pre @ skip) @ x # post" "map g (filter P (pre @ skip)) = as"
    "map g (filter P post) = bs" "P x" "g x = y"
    using \<open>map g us = as\<close> \<open>map g ws' = bs\<close> \<open>g x = y\<close> by (simp_all add: filter_False)
  then show "\<exists>pre x post. ws = pre @ x # post \<and> P x \<and> g x = y \<and> map g (filter P pre) = as
        \<and> map g (filter P post) = bs" by blast
qed auto

text \<open>\<open>best acc ws p name c\<close>: the first of the workloads that select the process most specifically.\<close>

definition best ::
  "accounts \<Rightarrow> (string, workload_config) hashmap \<Rightarrow> process \<Rightarrow> string \<Rightarrow> workload_config \<Rightarrow> bool" where
  "best acc ws p name c \<longleftrightarrow> selects acc (wc_selector c) p \<and>
     (\<exists>pre post. ws = pre @ (name, c) # post
        \<and> (\<forall>(n, d) \<in> set pre. selects acc (wc_selector d) p \<longrightarrow>
             specificity (wc_selector d) < specificity (wc_selector c))
        \<and> (\<forall>(n, d) \<in> set post. selects acc (wc_selector d) p \<longrightarrow>
             specificity (wc_selector d) \<le> specificity (wc_selector c)))"

lemma match_workload_sorted:
  "match_workload acc ws p = Some name \<longleftrightarrow>
     (\<exists>s ys. sort_key (\<lambda>c. Descending (fst c)) (candidates acc p ws) = (s, name) # ys)"
  by (auto simp: match_workload_def split: list.splits)

lemma match_workload_best:
  "match_workload acc ws p = Some name \<longleftrightarrow> (\<exists>c. best acc ws p name c)"
proof
  let ?g = "\<lambda>(n, c). (specificity (wc_selector c), n)" and ?P = "\<lambda>(n, c). selects acc (wc_selector c) p"
  let ?key = "\<lambda>c. Descending (fst c)"
  {
    assume "match_workload acc ws p = Some name"
    then obtain s as bs where split: "map ?g (filter ?P ws) = as @ (s, name) # bs"
      and as: "\<forall>x \<in> set as. ?key (s, name) < ?key x" and bs: "\<forall>x \<in> set bs. ?key (s, name) \<le> ?key x"
      unfolding match_workload_sorted candidates_eq sort_key_head_iff by blast
    from split [unfolded map_filter_split] obtain pre x post where
      ws: "ws = pre @ x # post" and x: "?P x" "?g x = (s, name)"
      and pre: "map ?g (filter ?P pre) = as" and post: "map ?g (filter ?P post) = bs" by blast
    from x obtain c where c: "x = (name, c)" "selects acc (wc_selector c) p" "s = specificity (wc_selector c)"
      by (cases x) auto
    have "specificity (wc_selector d) < specificity (wc_selector c)"
      if "(n, d) \<in> set pre" "selects acc (wc_selector d) p" for n d
    proof -
      from that have "(specificity (wc_selector d), n) \<in> set as" unfolding pre [symmetric] by force
      with as c(3) show ?thesis by fastforce
    qed
    moreover have "specificity (wc_selector d) \<le> specificity (wc_selector c)"
      if "(n, d) \<in> set post" "selects acc (wc_selector d) p" for n d
    proof -
      from that have "(specificity (wc_selector d), n) \<in> set bs" unfolding post [symmetric] by force
      with bs c(3) show ?thesis by fastforce
    qed
    ultimately have "best acc ws p name c" using ws c unfolding best_def by blast
    then show "\<exists>c. best acc ws p name c" ..
  }
  {
    assume "\<exists>c. best acc ws p name c"
    then obtain c pre post where c: "selects acc (wc_selector c) p" and ws: "ws = pre @ (name, c) # post"
      and pre: "\<forall>(n, d) \<in> set pre. selects acc (wc_selector d) p \<longrightarrow>
          specificity (wc_selector d) < specificity (wc_selector c)"
      and post: "\<forall>(n, d) \<in> set post. selects acc (wc_selector d) p \<longrightarrow>
          specificity (wc_selector d) \<le> specificity (wc_selector c)"
      unfolding best_def by blast
    let ?as = "map ?g (filter ?P pre)" and ?bs = "map ?g (filter ?P post)"
      and ?y = "(specificity (wc_selector c), name)"
    have "map ?g (filter ?P ws) = ?as @ ?y # ?bs" using c ws by simp
    moreover have "\<forall>x \<in> set ?as. ?key ?y < ?key x" "\<forall>x \<in> set ?bs. ?key ?y \<le> ?key x"
      using pre post by fastforce+
    ultimately have "\<exists>ys. sort_key ?key (map ?g (filter ?P ws)) = ?y # ys"
      unfolding sort_key_head_iff by blast
    then show "match_workload acc ws p = Some name"
      unfolding match_workload_sorted candidates_eq by blast
  }
qed

lemma match_workload_None:
  "match_workload acc ws p = None \<longleftrightarrow> (\<forall>(n, c) \<in> set ws. \<not> selects acc (wc_selector c) p)"
proof -
  have "sort_key (\<lambda>c. Descending (fst c)) xs = [] \<longleftrightarrow> xs = []" for xs :: "(int \<times> string) list"
    by (metis length_0_conv length_sort)
  from this [of "candidates acc p ws"] have "match_workload acc ws p = None \<longleftrightarrow> candidates acc p ws = []"
    by (cases "sort_key (\<lambda>c. Descending (fst c)) (candidates acc p ws)") (auto simp: match_workload_def)
  then show ?thesis by (auto simp: candidates_eq filter_empty_conv)
qed

section \<open>What attestation promises\<close>

text \<open>
  C4: The matcher chooses the first, in the iteration order of the map, of the most specific
  workloads whose selector fits the process: a systemd constraint outweighs a binary path, which
  outweighs user and group; and it chooses only a workload whose every constraint is satisfied.
\<close>
theorem match_workload_correct:
  "match_workload acc ws p = Some name \<longleftrightarrow> (\<exists>c. best acc ws p name c)"
  by (rule match_workload_best)

text \<open>
  A process is refused exactly when no workload of the machine selects it.
\<close>
theorem match_workload_refuses:
  "match_workload acc ws p = None \<longleftrightarrow> (\<forall>(n, c) \<in> set ws. \<not> selects acc (wc_selector c) p)"
  by (rule match_workload_None)

lemma best_in_map: "best acc ws p name c \<Longrightarrow> (name, c) \<in> set ws \<and> selects acc (wc_selector c) p
    \<and> (\<forall>(n, d) \<in> set ws. selects acc (wc_selector d) p \<longrightarrow>
         specificity (wc_selector d) \<le> specificity (wc_selector c))"
  unfolding best_def by fastforce

lemma specificity_bounds:
  "0 \<le> specificity sel" "asks_systemd sel \<Longrightarrow> 100 \<le> specificity sel"
  "\<not> asks_systemd sel \<Longrightarrow> specificity sel \<le> 12"
  by (simp_all add: specificity_def split: option.splits)

text \<open>
  A systemd match has priority: if a workload with a systemd constraint selects the process,
  the workload that is chosen has a systemd constraint and selects the process.
\<close>
theorem systemd_match_has_priority:
  assumes "(n, c) \<in> set ws" and "selects acc (wc_selector c) p" and "asks_systemd (wc_selector c)"
  shows "\<exists>name d. match_workload acc ws p = Some name \<and> (name, d) \<in> set ws
    \<and> selects acc (wc_selector d) p \<and> asks_systemd (wc_selector d)"
proof -
  from assms have "match_workload acc ws p \<noteq> None" by (auto simp: match_workload_None)
  then obtain name d where "match_workload acc ws p = Some name" and best: "best acc ws p name d"
    by (auto simp: match_workload_best)
  moreover from best_in_map [OF best] have "(name, d) \<in> set ws" "selects acc (wc_selector d) p"
    and "specificity (wc_selector c) \<le> specificity (wc_selector d)"
    using assms by auto
  moreover from this(3) have "asks_systemd (wc_selector d)"
    using specificity_bounds(2) [OF assms(3)] specificity_bounds(3) [of "wc_selector d"] by force
  ultimately show ?thesis by blast
qed

text \<open>Without ties among the workloads that select it, the choice for a process is well-defined.\<close>

definition no_ties :: "accounts \<Rightarrow> (string, workload_config) hashmap \<Rightarrow> process \<Rightarrow> bool" where
  "no_ties acc ws p \<longleftrightarrow>
     (\<forall>(n, c) \<in> set ws. \<forall>(m, d) \<in> set ws.
        selects acc (wc_selector c) p \<longrightarrow> selects acc (wc_selector d) p \<longrightarrow>
        specificity (wc_selector c) = specificity (wc_selector d) \<longrightarrow> n = m)"

lemma best_no_ties:
  assumes "hm_wf ws" and "no_ties acc ws p"
  shows "best acc ws p name c \<longleftrightarrow> (name, c) \<in> set ws \<and> selects acc (wc_selector c) p
    \<and> (\<forall>(n, d) \<in> set ws. selects acc (wc_selector d) p \<longrightarrow>
         specificity (wc_selector d) \<le> specificity (wc_selector c))"
proof
  assume r: "(name, c) \<in> set ws \<and> selects acc (wc_selector c) p
    \<and> (\<forall>(n, d) \<in> set ws. selects acc (wc_selector d) p \<longrightarrow>
         specificity (wc_selector d) \<le> specificity (wc_selector c))"
  then obtain pre post where ws: "ws = pre @ (name, c) # post" by (metis split_list)
  have "specificity (wc_selector d) < specificity (wc_selector c)"
    if d: "(n, d) \<in> set pre" "selects acc (wc_selector d) p" for n d
  proof -
    from d(1) ws assms(1) have "n \<noteq> name" by (force simp: hm_wf_def)
    moreover from d(1) ws have "(n, d) \<in> set ws" by simp
    ultimately have "specificity (wc_selector d) \<noteq> specificity (wc_selector c)"
      using assms(2) r d(2) unfolding no_ties_def by blast
    with r \<open>(n, d) \<in> set ws\<close> d(2) show ?thesis by force
  qed
  moreover have "\<forall>(n, d) \<in> set post. selects acc (wc_selector d) p \<longrightarrow>
      specificity (wc_selector d) \<le> specificity (wc_selector c)"
    using r ws by auto
  ultimately show "best acc ws p name c" using r ws unfolding best_def by blast
qed (rule best_in_map)

text \<open>
  C37: Without ties the choice does not depend on the iteration order of the hash map: two maps
  with the same entries give the same workload.
\<close>
theorem match_workload_order_independent:
  assumes "hm_wf ws" and "hm_wf ws'" and "map_of ws = map_of ws'" and "no_ties acc ws p"
  shows "match_workload acc ws p = match_workload acc ws' p"
proof -
  have entries: "set ws = set ws'"
    using assms(1-3) unfolding hm_wf_def by (metis map_of_inject_set)
  with assms(4) have "no_ties acc ws' p" by (simp add: no_ties_def)
  from best_no_ties [OF assms(1,4)] best_no_ties [OF assms(2) this] entries
  have same: "best acc ws p = best acc ws' p" by (intro ext) simp
  show ?thesis
  proof (cases "match_workload acc ws p")
    case None
    with entries have "match_workload acc ws' p = None" by (simp add: match_workload_None)
    with None show ?thesis by simp
  next
    case (Some name)
    with same show ?thesis by (metis match_workload_best)
  qed
qed

text \<open>
  C38: With a tie the choice is the hash map's: for two workloads of equal specificity that select
  a process there are two iteration orders of the same map with different answers, so the same
  process gets one identity or the other from run to run.
\<close>
theorem match_workload_tie:
  assumes "selects acc (wc_selector c) p" and "selects acc (wc_selector d) p"
    and "specificity (wc_selector c) = specificity (wc_selector d)" and "n \<noteq> m"
  shows "map_of [(n, c), (m, d)] = map_of [(m, d), (n, c)]
    \<and> match_workload acc [(n, c), (m, d)] p = Some n \<and> match_workload acc [(m, d), (n, c)] p = Some m"
proof -
  have first: "match_workload acc [(a, x), (b, y)] p = Some a"
    if "selects acc (wc_selector x) p" "specificity (wc_selector y) \<le> specificity (wc_selector x)"
    for a b x y
    unfolding match_workload_best best_def using that
    by (intro exI [of _ x] conjI exI [of _ "[]"] exI [of _ "[(b, y)]"]) auto
  from assms show ?thesis by (auto simp: first)
qed

definition sample_accounts :: accounts where
  "sample_accounts = \<lparr>user_uid = (\<lambda>u. if u = ''alice'' then Some 1000 else None),
                      group_gid = (\<lambda>g. None)\<rparr>"

definition sample_process :: process where
  "sample_process =
     \<lparr>proc_uid = 1000, proc_gid = 100, proc_bin_path = Some ''/bin/db'',
      proc_unitpath = Some ''/system.slice/db.service'', proc_unitname = Some ''db.service''\<rparr>"

definition alice_only :: workload_config where
  "alice_only = \<lparr>wc_selector = \<lparr>unix = Some \<lparr>user = Some ''alice'', group = None, bin_path = None\<rparr>,
     systemd = None\<rparr>, validity_seconds = 60\<rparr>"

definition db_unit :: workload_config where
  "db_unit = \<lparr>wc_selector = \<lparr>unix = None,
     systemd = Some \<lparr>unitpath = None, unitname = Some ''db''\<rparr>\<rparr>, validity_seconds = 60\<rparr>"

lemma sample_selects:
  "selects sample_accounts (wc_selector alice_only) sample_process"
  "selects sample_accounts (wc_selector db_unit) sample_process"
  "asks_systemd (wc_selector db_unit)" "\<not> asks_systemd (wc_selector alice_only)"
  "specificity (wc_selector alice_only) = 1" "specificity (wc_selector db_unit) = 100"
  by (simp_all add: selects_def sample_accounts_def alice_only_def sample_process_def db_unit_def
      unit_named_def unit_name_def asks_systemd_def specificity_def)

theorem systemd_match_has_priority_witness:
  "match_workload sample_accounts [(''a'', alice_only), (''d'', db_unit)] sample_process = Some ''d''"
  using systemd_match_has_priority [of "''d''" db_unit "[(''a'', alice_only), (''d'', db_unit)]"
      sample_accounts sample_process]
  by (auto simp: sample_selects)

theorem match_workload_order_independent_witness:
  "match_workload sample_accounts [(''a'', alice_only), (''d'', db_unit)] sample_process
   = match_workload sample_accounts [(''d'', db_unit), (''a'', alice_only)] sample_process"
  by (rule match_workload_order_independent)
    (auto simp: hm_wf_def no_ties_def sample_selects fun_eq_iff)

theorem match_workload_tie_witness:
  "match_workload sample_accounts [(''a'', alice_only), (''b'', alice_only)] sample_process = Some ''a''"
  using match_workload_tie [of sample_accounts alice_only sample_process alice_only "''a''" "''b''"]
  by (simp add: sample_selects)

section \<open>Units and control groups\<close>

lemma lines_acc_no_newline:
  "CHR 0x0A \<notin> set s \<Longrightarrow> lines_acc cur (s @ CHR 0x0A # rest) = lines_acc (rev s @ cur) (CHR 0x0A # rest)"
  by (induction s arbitrary: cur) auto

lemma lines_one:
  assumes "CHR 0x0A \<notin> set s" and "s \<noteq> []" and "last s \<noteq> CHR 0x0D"
  shows "lines (s @ [CHR 0x0A]) = [s]"
proof -
  from assms(2) obtain cs x where "s = cs @ [x]" by (metis rev_exhaust)
  with assms(3) show ?thesis
    using lines_acc_no_newline [OF assms(1), of "[]" "[]"] by (simp add: lines_def)
qed

lemma split_on_append: "split_on c (d @ c # t) = split_on c d @ split_on c t"
  by (induction d) (auto split: list.splits)

lemma contains_append: "contains p (a @ p @ b)"
  by (auto simp: contains_iff)

text \<open>
  C39: The unit name of a process is the last component of its control group path and nothing
  else: whatever slices and managers the path runs through, including those of an unprivileged
  user's own service manager, a unit \<open>u.service\<close> at its end satisfies every selector that asks for
  the unit name \<open>u\<close>.
\<close>
theorem unit_name_ignores_manager:
  assumes "\<forall>x \<in> set (dir @ u). x \<noteq> CHR '':'' \<and> x \<noteq> CHR 0x0A" and "CHR ''/'' \<notin> set u"
    and "(proc_unitpath p, proc_unitname p)
      = discover_cgroup (Some (''0::'' @ dir @ ''/'' @ u @ ''.service'' @ [CHR 0x0A]))"
    and "unix sel = None" and "systemd sel = Some \<lparr>unitpath = None, unitname = Some u\<rparr>"
  shows "selects acc sel p"
proof -
  let ?path = "dir @ ''/'' @ u @ ''.service''" let ?line = "''0::'' @ ?path"
  have "lines (?line @ [CHR 0x0A]) = [?line]"
    using assms(1) by (intro lines_one) auto
  moreover have "split_on CHR '':'' ?line = [''0'', [], ?path]"
  proof -
    have "CHR '':'' \<notin> set ?path" using assms(1) by auto
    then show ?thesis by (simp add: split_on_no_sep)
  qed
  moreover have "contains ''.service'' ?path"
    using contains_append [of "''.service''" "dir @ ''/'' @ u" "[]"] by simp
  ultimately have "discover_cgroup (Some (?line @ [CHR 0x0A]))
      = (Some ?path, Some (last (split_on CHR ''/'' ?path)))"
    by (simp add: discover_cgroup_def)
  moreover have "last (split_on CHR ''/'' ?path) = u @ ''.service''"
  proof -
    have "CHR ''/'' \<notin> set (u @ ''.service'')" using assms(2) by simp
    then show ?thesis by (simp add: split_on_append split_on_no_sep)
  qed
  ultimately have "proc_unitname p = Some (u @ ''.service'')" using assms(3) by simp
  with assms(4,5) show ?thesis by (simp add: selects_def unit_named_def unit_name_def)
qed

theorem unit_name_ignores_manager_witness:
  "selects sample_accounts (wc_selector db_unit) \<lparr>proc_uid = 1001, proc_gid = 100,
     proc_bin_path = None,
     proc_unitpath = fst (discover_cgroup (Some (''0::'' @
       ''/user.slice/user-1001.slice/user@1001.service/app.slice'' @ ''/'' @ ''db'' @ ''.service'' @ [CHR 0x0A]))),
     proc_unitname = snd (discover_cgroup (Some (''0::'' @
       ''/user.slice/user-1001.slice/user@1001.service/app.slice'' @ ''/'' @ ''db'' @ ''.service'' @ [CHR 0x0A])))\<rparr>"
  by (rule unit_name_ignores_manager
      [of "''/user.slice/user-1001.slice/user@1001.service/app.slice''" "''db''"])
    (simp_all add: db_unit_def)

text \<open>
  C40: A selector without constraints selects every process of the machine, and one that asks for
  the empty unit name selects, with the priority of a systemd match, every process that runs in
  no unit at all.
\<close>
theorem vacuous_selectors:
  assumes "unix (wc_selector c) = None"
    and "systemd (wc_selector c) = None \<or>
      systemd (wc_selector c) = Some \<lparr>unitpath = None, unitname = Some []\<rparr> \<and> proc_unitname p = None"
  shows "match_workload acc [(n, c)] p = Some n"
proof -
  from assms have "selects acc (wc_selector c) p"
    by (auto simp: selects_def unit_named_def unit_name_def)
  then show ?thesis
    unfolding match_workload_best best_def by (intro exI [of _ c]) (simp add: exI [of _ "[]"])
qed

theorem vacuous_selectors_witness:
  "match_workload sample_accounts
     [(''web'', \<lparr>wc_selector = \<lparr>unix = None, systemd = None\<rparr>, validity_seconds = 60\<rparr>)] sample_process
   = Some ''web''"
  by (rule vacuous_selectors) simp_all

end
