(* ===== verification/Local_Stream.thy ===== *)
theory Local_Stream imports Codec begin

text \<open>
  The local connections between the agent and its workloads, used by both ends: a Unix stream
  that is read line by line (tokio's \<^verbatim>\<open>BufReader::read_line\<close>) and written as whole lines.
\<close>

section \<open>Lines\<close>

text \<open>
  A stream that ends: after the bytes of \<open>inp\<close> the peer has closed (\<open>at_eof\<close>) or reading fails.
\<close>

record uds =
  io_stream :: stream
  at_eof :: bool

text \<open>Well-formed UTF-8, which \<^verbatim>\<open>read_line\<close> requires of a line.\<close>

definition utf8_cont :: "u8 \<Rightarrow> bool" where
  "utf8_cont b \<longleftrightarrow> 0x80 \<le> b \<and> b \<le> 0xBF"

fun utf8_ok :: "u8 list \<Rightarrow> bool" where
  "utf8_ok [] = True"
| "utf8_ok [a] = (a < 0x80)"
| "utf8_ok [a, b] =
     (if a < 0x80 then b < 0x80 else 0xC2 \<le> a \<and> a \<le> 0xDF \<and> utf8_cont b)"
| "utf8_ok [a, b, c] =
     (if a < 0x80 then utf8_ok [b, c]
      else if 0xC2 \<le> a \<and> a \<le> 0xDF then utf8_cont b \<and> c < 0x80
      else 0xE0 \<le> a \<and> a \<le> 0xEF \<and> utf8_cont b \<and> utf8_cont c
           \<and> (a = 0xE0 \<longrightarrow> 0xA0 \<le> b) \<and> (a = 0xED \<longrightarrow> b \<le> 0x9F))"
| "utf8_ok (a # b # c # d # bs) =
     (if a < 0x80 then utf8_ok (b # c # d # bs)
      else if 0xC2 \<le> a \<and> a \<le> 0xDF then utf8_cont b \<and> utf8_ok (c # d # bs)
      else if 0xE0 \<le> a \<and> a \<le> 0xEF
      then utf8_cont b \<and> utf8_cont c \<and> (a = 0xE0 \<longrightarrow> 0xA0 \<le> b) \<and> (a = 0xED \<longrightarrow> b \<le> 0x9F)
           \<and> utf8_ok (d # bs)
      else 0xF0 \<le> a \<and> a \<le> 0xF4 \<and> utf8_cont b \<and> utf8_cont c \<and> utf8_cont d
           \<and> (a = 0xF0 \<longrightarrow> 0x90 \<le> b) \<and> (a = 0xF4 \<longrightarrow> b \<le> 0x8F) \<and> utf8_ok bs)"

definition newline :: u8 where
  "newline = 10"

text \<open>A line with its newline, or what is left at the end; the empty line only at the end.\<close>

definition read_line :: "(uds, u8 list) io" where
  "read_line u =
     (let s = io_stream u;
          line = takeWhile (\<lambda>b. b \<noteq> newline) (inp s);
          rest = dropWhile (\<lambda>b. b \<noteq> newline) (inp s);
          check = (\<lambda>l. if utf8_ok l then Inr l
                       else Inl (Bail (Msg ''stream did not contain valid UTF-8'')))
      in case rest of
           nl # more_input \<Rightarrow> (u\<lparr>io_stream := s\<lparr>inp := more_input\<rparr>\<rparr>, check (line @ [nl]))
         | [] \<Rightarrow> (u\<lparr>io_stream := s\<lparr>inp := []\<rparr>\<rparr>,
                 if at_eof u then check line else Inl (Bail (Msg (rerr s)))))"

definition write_line :: "u8 list \<Rightarrow> (uds, unit) io" where
  "write_line bs u =
     (case write_all (bs @ [newline]) (io_stream u) of (s', r) \<Rightarrow> (u\<lparr>io_stream := s'\<rparr>, r))"

lemma write_line_Inr:
  "write_line bs u = (u', Inr x) \<Longrightarrow>
     outp (io_stream u') = outp (io_stream u) @ bs @ [newline] \<and> inp (io_stream u') = inp (io_stream u)"
  by (auto simp: write_line_def write_all_def split: prod.splits if_splits)

lemma read_line_sent: "read_line u = (u', r) \<Longrightarrow> outp (io_stream u') = outp (io_stream u)"
  by (auto simp: read_line_def Let_def split: list.splits)

lemma read_line_first:
  assumes "inp (io_stream u) = p @ newline # rest" and "newline \<notin> set p" and "utf8_ok (p @ [newline])"
  shows "read_line u = (u\<lparr>io_stream := (io_stream u)\<lparr>inp := rest\<rparr>\<rparr>, Inr (p @ [newline]))"
proof -
  have "takeWhile (\<lambda>b. b \<noteq> newline) (p @ newline # rest) = p"
    "dropWhile (\<lambda>b. b \<noteq> newline) (p @ newline # rest) = newline # rest"
    using assms(2) by (auto simp: takeWhile_append dropWhile_append)
  with assms show ?thesis by (simp add: read_line_def)
qed

lemma write_line_accepts:
  "accepts (io_stream u) (bs @ [newline]) \<Longrightarrow>
     \<exists>s'. write_line bs u = (u\<lparr>io_stream := s'\<rparr>, Inr ()) \<and> inp s' = inp (io_stream u)"
  by (auto simp: write_line_def write_all_def accepts_def split: prod.splits if_splits)

end
