(* ===== verification/Agent_Api.thy ===== *)
theory Agent_Api imports Agent_Creds Agent_Match Host_Fs Local_Stream begin

text \<open>
  The agent's Workload API (\<^verbatim>\<open>run_workload_api\<close> and \<^verbatim>\<open>handle_workload_conn\<close> in
  \<^verbatim>\<open>apps/rust-apps/authn-scope-agent/src/client.rs\<close>): the local socket, and the handler that
  attests the connected process, reads one request line and answers with one line.
\<close>

section \<open>The handler\<close>

text \<open>
  The credentials of the peer, the two files of \<^verbatim>\<open>/proc\<close> as far as they can be read, the account
  database, the JSON codec and the printing of optional strings with \<open>{:?}\<close>.
\<close>

record api_env =
  peer_cred :: "(u32 \<times> u32 \<times> int option) result"
  proc_exe :: "u32 \<Rightarrow> string option"
  proc_cgroup :: "u32 \<Rightarrow> string option"
  api_accounts :: accounts
  ser_workload :: "workload_response \<Rightarrow> u8 list result"
  de_workload :: "u8 list \<Rightarrow> workload_request result"
  debug_opt :: "string option \<Rightarrow> string"

definition peer_process :: "api_env \<Rightarrow> u32 \<Rightarrow> u32 \<Rightarrow> int option \<Rightarrow> process" where
  "peer_process api uid gid opt_pid =
     (let pid = (word_of_int (case opt_pid of Some p \<Rightarrow> p | None \<Rightarrow> 0) :: u32);
          (path, name) = discover_cgroup (proc_cgroup api pid)
      in \<lparr>proc_uid = uid, proc_gid = gid, proc_bin_path = proc_exe api pid,
          proc_unitpath = path, proc_unitname = name\<rparr>)"

definition attestation_failed :: "api_env \<Rightarrow> process \<Rightarrow> string" where
  "attestation_failed api p =
     ''Attestation failed: no workload selector matches UID '' @ quoted (show_u32 (proc_uid p))
     @ '', GID '' @ quoted (show_u32 (proc_gid p))
     @ '', bin_path '' @ quoted (debug_opt api (proc_bin_path p))
     @ '', systemd unit name '' @ quoted (debug_opt api (proc_unitname p))"

type_synonym api_state = "agent_world \<times> uds"

definition on_uds :: "(uds, 'a) io \<Rightarrow> (api_state, 'a) io" where
  "on_uds m s = (case m (snd s) of (u', r) \<Rightarrow> ((fst s, u'), r))"

definition on_world :: "(agent_world, 'a) io \<Rightarrow> (api_state, 'a) io" where
  "on_world m s = (case m (fst s) of (w', r) \<Rightarrow> ((w', snd s), r))"

definition respond :: "api_env \<Rightarrow> workload_response \<Rightarrow> (api_state, unit) io" where
  "respond api resp = io_bind (io_lift (ser_workload api resp)) (\<lambda>json. on_uds (write_line json))"

text \<open>
  \<open>tick\<close> is what one handler draws from its surroundings: the random seed of a key, and the clock
  when the cache is consulted and when new credentials are stored.
\<close>

record tick =
  tick_seed :: nat
  tick_now :: nat
  tick_later :: nat

definition handle_workload_conn ::
  "api_env \<Rightarrow> agent_env \<Rightarrow> ('k, 'c) agent_pki \<Rightarrow> agent_config \<Rightarrow> tick \<Rightarrow> (api_state, unit) io" where
  "handle_workload_conn api env pki config t =
     io_bind (io_lift (peer_cred api)) (\<lambda>(uid, gid, opt_pid).
     let p = peer_process api uid gid opt_pid in
     (\<lambda>s. case match_workload (api_accounts api) (workloads (snd (fst s))) p of
        None \<Rightarrow> respond api (WorkloadError (attestation_failed api p)) s
      | Some identity_name \<Rightarrow>
          io_bind (on_uds read_line) (\<lambda>line.
          if line = [] then io_ok ()
          else io_bind (io_lift (de_workload api line)) (\<lambda>req.
          if req_type req \<noteq> ''fetch''
          then respond api (WorkloadError (''Unsupported request type: '' @ req_type req))
          else io_bind (on_world (get_or_fetch_credentials env pki (tick_seed t) (tick_now t) (tick_later t)
             config identity_name)) (\<lambda>creds.
          respond api (Success (cred_cert_pem creds) (cred_key_pem creds) (cred_ca_cert_pem creds))))) s))"

section \<open>The server loop\<close>

definition mode_0666 :: nat where
  "mode_0666 = 6 * 64 + 6 * 8 + 6"

text \<open>Binding creates the socket file, unless the path exists.\<close>

definition fs_bind_socket :: "string \<Rightarrow> (fs, string, unit) eio" where
  "fs_bind_socket path w =
     (case fs_fault w of
        Some (e, n) \<Rightarrow> fs_done (files w) (Inl e) w
      | None \<Rightarrow> (case files w path of
            Some f \<Rightarrow> fs_done (files w) (Inl ''Address already in use (os error 98)'') w
          | None \<Rightarrow> fs_done ((files w)(path := Some \<lparr>content = [], mode = new_mode w\<rparr>)) (Inr ()) w))"

definition workload_api_setup :: "string \<Rightarrow> (fs, unit) io" where
  "workload_api_setup socket_path =
     io_bind (io_ignore (fs_remove_file socket_path)) (\<lambda>_.
     io_bind (case path_parent socket_path of
                None \<Rightarrow> io_ok ()
              | Some parent \<Rightarrow> io_ignore (fs_create_dir_all parent)) (\<lambda>_.
     io_bind (io_map_err (\<lambda>e. Bail (Msg e)) (fs_bind_socket socket_path)) (\<lambda>_.
     io_map_err (\<lambda>e. Bail (Msg e)) (fs_set_permissions socket_path mode_0666))))"

text \<open>
  The accept loop after the set-up: every accepted connection gets a handler, an error of
  accepting is logged and the loop goes on. Handlers run one after another here; the theory of
  the agent's locks says which of them can run at the same time.
\<close>

datatype accepted = Accepted api_env uds | AcceptFailed

fun workload_api_loop ::
  "agent_env \<Rightarrow> ('k, 'c) agent_pki \<Rightarrow> agent_config \<Rightarrow> (accepted \<times> tick) list \<Rightarrow> agent_world
   \<Rightarrow> agent_world \<times> uds list" where
  "workload_api_loop env pki config [] w = (w, [])"
| "workload_api_loop env pki config ((AcceptFailed, t) # rest) w = workload_api_loop env pki config rest w"
| "workload_api_loop env pki config ((Accepted api u, t) # rest) w =
     (case handle_workload_conn api env pki config t (w, u) of
        ((w1, u1), r) \<Rightarrow>
          (case workload_api_loop env pki config rest w1 of (w2, us) \<Rightarrow> (w2, u1 # us)))"

section \<open>Steps of the handler\<close>

lemma on_uds_eq [simp]: "on_uds m (w, u) = ((w', u'), r) \<longleftrightarrow> w' = w \<and> m u = (u', r)"
  by (auto simp: on_uds_def split: prod.splits)

lemma on_world_eq [simp]: "on_world m (w, u) = ((w', u'), r) \<longleftrightarrow> u' = u \<and> m w = (w', r)"
  by (auto simp: on_world_def split: prod.splits)

lemma respond_world: "respond api resp (w, u) = ((w', u'), r) \<Longrightarrow> w' = w"
  by (auto simp: respond_def io_bind_def io_lift_def on_uds_def split: sum.splits prod.splits)

lemma respond_Inr:
  assumes "respond api resp (w, u) = ((w', u'), Inr x)"
  shows "\<exists>p. ser_workload api resp = Inr p \<and> outp (io_stream u') = outp (io_stream u) @ p @ [newline]"
proof -
  from assms obtain s' p where "io_lift (ser_workload api resp) (w, u) = (s', Inr p)"
    and line: "on_uds (write_line p) s' = ((w', u'), Inr x)"
    unfolding respond_def io_bind_eq_Inr by blast
  then have "ser_workload api resp = Inr p" "s' = (w, u)" by (simp_all add: io_lift_def)
  with line show ?thesis by (auto dest: write_line_Inr)
qed

text \<open>
  The ways a handler can go once the process is known: refused, or attested and then one of an
  unreadable line, end of input, a line that is not a request, a request that is not a fetch, a
  failed fetch, and credentials.
\<close>

definition handle_attested ::
  "api_env \<Rightarrow> agent_env \<Rightarrow> ('k, 'c) agent_pki \<Rightarrow> agent_config \<Rightarrow> tick \<Rightarrow> string \<Rightarrow> (api_state, unit) io"
  where
  "handle_attested api env pki config t identity_name =
     io_bind (on_uds read_line) (\<lambda>line.
     if line = [] then io_ok ()
     else io_bind (io_lift (de_workload api line)) (\<lambda>req.
     if req_type req \<noteq> ''fetch''
     then respond api (WorkloadError (''Unsupported request type: '' @ req_type req))
     else io_bind (on_world (get_or_fetch_credentials env pki (tick_seed t) (tick_now t) (tick_later t)
             config identity_name)) (\<lambda>creds.
     respond api (Success (cred_cert_pem creds) (cred_key_pem creds) (cred_ca_cert_pem creds)))))"

lemma handle_workload_conn_eq:
  "handle_workload_conn api env pki config t (w, u) =
     (case peer_cred api of
        Inl e \<Rightarrow> ((w, u), Inl e)
      | Inr (uid, gid, opt_pid) \<Rightarrow>
          (case match_workload (api_accounts api) (workloads (snd w)) (peer_process api uid gid opt_pid) of
             None \<Rightarrow> respond api (WorkloadError (attestation_failed api (peer_process api uid gid opt_pid))) (w, u)
           | Some name \<Rightarrow> handle_attested api env pki config t name (w, u)))"
  by (auto simp: handle_workload_conn_def handle_attested_def Let_def io_bind_def [of "io_lift (peer_cred api)"]
      io_lift_def split: sum.splits option.splits)

lemma handle_attested_world:
  assumes "handle_attested api env pki config t name (w, u) = ((w', u'), r)"
  shows "w' = w \<or> (\<exists>line req r'. de_workload api line = Inr req \<and> req_type req = ''fetch''
    \<and> get_or_fetch_credentials env pki (tick_seed t) (tick_now t) (tick_later t) config name w = (w', r'))"
proof -
  obtain u1 r1 where line: "read_line u = (u1, r1)" by force
  show ?thesis
  proof (cases r1)
    case (Inl e)
    with line assms show ?thesis by (auto simp: handle_attested_def io_bind_def on_uds_def)
  next
    case (Inr l)
    note step = assms [unfolded handle_attested_def io_bind_def [of "on_uds read_line"] on_uds_def, simplified,
        unfolded line Inr, simplified]
    show ?thesis
    proof (cases "l = [] \<or> (\<exists>e. de_workload api l = Inl e)")
      case True
      with step show ?thesis by (auto simp: io_ok_def io_bind_def io_lift_def split: if_splits)
    next
      case False
      then obtain req where req: "de_workload api l = Inr req" by (cases "de_workload api l") auto
      show ?thesis
      proof (cases "req_type req = ''fetch''")
        case fetch: False
        with step False req show ?thesis by (auto dest: respond_world)
      next
        case True
        obtain w2 r2 where f: "get_or_fetch_credentials env pki (tick_seed t) (tick_now t) (tick_later t)
            config name w = (w2, r2)" by (metis surj_pair)
        from step False req True f have "w' = w2"
          by (cases r2) (auto simp: io_bind_def on_world_def dest: respond_world)
        with f req True show ?thesis by blast
      qed
    qed
  qed
qed

lemma handle_attested_Inr:
  assumes "handle_attested api env pki config t name (w, u) = ((w', u'), Inr x)"
  shows "outp (io_stream u') = outp (io_stream u)
    \<or> (\<exists>msg p. ser_workload api (WorkloadError msg) = Inr p
        \<and> outp (io_stream u') = outp (io_stream u) @ p @ [newline])
    \<or> (\<exists>creds p. get_or_fetch_credentials env pki (tick_seed t) (tick_now t) (tick_later t) config name w
            = (w', Inr creds)
        \<and> ser_workload api (Success (cred_cert_pem creds) (cred_key_pem creds) (cred_ca_cert_pem creds)) = Inr p
        \<and> outp (io_stream u') = outp (io_stream u) @ p @ [newline])"
proof -
  let ?fetch = "get_or_fetch_credentials env pki (tick_seed t) (tick_now t) (tick_later t) config name"
  let ?serve = "\<lambda>req. if req_type req \<noteq> ''fetch''
      then respond api (WorkloadError (''Unsupported request type: '' @ req_type req))
      else io_bind (on_world ?fetch) (\<lambda>creds.
      respond api (Success (cred_cert_pem creds) (cred_key_pem creds) (cred_ca_cert_pem creds)))"
  from assms obtain s1 l where line: "on_uds read_line (w, u) = (s1, Inr l)"
    and rest: "(if l = [] then io_ok () else io_bind (io_lift (de_workload api l)) ?serve) s1
      = ((w', u'), Inr x)"
    unfolding handle_attested_def io_bind_eq_Inr by blast
  obtain u1 where s1: "s1 = (w, u1)" and u1: "outp (io_stream u1) = outp (io_stream u)"
    using line by (cases s1) (auto dest: read_line_sent)
  show ?thesis
  proof (cases "l = []")
    case True
    with rest s1 u1 show ?thesis by (simp add: io_ok_def)
  next
    case False
    with rest have "io_bind (io_lift (de_workload api l)) ?serve (w, u1) = ((w', u'), Inr x)"
      by (simp only: s1 if_False)
    then obtain s2 req where "io_lift (de_workload api l) (w, u1) = (s2, Inr req)"
      and "?serve req s2 = ((w', u'), Inr x)"
      unfolding io_bind_eq_Inr by blast
    then have req: "?serve req (w, u1) = ((w', u'), Inr x)" by (simp add: io_lift_def)
    show ?thesis
    proof (cases "req_type req = ''fetch''")
      case False
      with req have "respond api (WorkloadError (''Unsupported request type: '' @ req_type req)) (w, u1)
          = ((w', u'), Inr x)" by simp
      from respond_Inr [OF this] u1 show ?thesis by auto
    next
      case True
      with req have "io_bind (on_world ?fetch) (\<lambda>creds. respond api (Success (cred_cert_pem creds)
          (cred_key_pem creds) (cred_ca_cert_pem creds))) (w, u1) = ((w', u'), Inr x)"
        by simp
      then obtain s2 creds where fetched: "on_world ?fetch (w, u1) = (s2, Inr creds)"
        and resp: "respond api (Success (cred_cert_pem creds) (cred_key_pem creds) (cred_ca_cert_pem creds)) s2
          = ((w', u'), Inr x)"
        unfolding io_bind_eq_Inr by blast
      obtain w2 where f: "?fetch w = (w2, Inr creds)" and s2: "s2 = (w2, u1)"
        using fetched by (cases s2) auto
      from resp s2 have "w' = w2" by (auto dest: respond_world)
      with f respond_Inr [OF resp [unfolded s2]] u1 show ?thesis by auto
    qed
  qed
qed

lemma handle_attested_keeps:
  assumes "world_wf w" and "handle_attested api env pki config t name (w, u) = ((w', u'), r)"
  shows "world_wf w' \<and> other_fds w' = other_fds w \<and> workloads (snd w') = workloads (snd w)"
  using handle_attested_world [OF assms(2)] get_or_fetch_world [OF assms(1)] assms(1) by metis

lemma handle_workload_conn_keeps:
  assumes "world_wf w" and "handle_workload_conn api env pki config t (w, u) = ((w', u'), r)"
  shows "world_wf w' \<and> other_fds w' = other_fds w \<and> workloads (snd w') = workloads (snd w)"
proof (cases "peer_cred api")
  case (Inl e)
  with assms show ?thesis by (simp add: handle_workload_conn_eq)
next
  case (Inr cred)
  obtain uid gid opt_pid where cred: "cred = (uid, gid, opt_pid)" by (cases cred)
  show ?thesis
  proof (cases "match_workload (api_accounts api) (workloads (snd w)) (peer_process api uid gid opt_pid)")
    case None
    with assms Inr cred have "w' = w" by (auto simp: handle_workload_conn_eq dest: respond_world)
    with assms(1) show ?thesis by simp
  next
    case (Some name)
    with assms(2) Inr cred have "handle_attested api env pki config t name (w, u) = ((w', u'), r)"
      by (simp add: handle_workload_conn_eq)
    with handle_attested_keeps [OF assms(1)] show ?thesis by blast
  qed
qed

section \<open>What the Workload API promises\<close>

text \<open>
  C3: Credentials go only to the process they belong to: if a handler that completed has written
  a success line, the kernel's identification of the connected process made the matcher choose an
  identity, and the credentials written are those that were cached or requested for exactly this
  identity.
\<close>
theorem credentials_only_if_attested:
  assumes "handle_workload_conn api env pki config t (w, u) = ((w', u'), Inr x)"
    and "outp (io_stream u') = outp (io_stream u) @ p @ [newline]"
    and "\<And>m. ser_workload api m = Inr p \<Longrightarrow> m = Success c k a"
  shows "\<exists>uid gid opt_pid name creds. peer_cred api = Inr (uid, gid, opt_pid)
    \<and> match_workload (api_accounts api) (workloads (snd w)) (peer_process api uid gid opt_pid) = Some name
    \<and> get_or_fetch_credentials env pki (tick_seed t) (tick_now t) (tick_later t) config name w
        = (w', Inr creds)
    \<and> creds = \<lparr>cred_cert_pem = c, cred_key_pem = k, cred_ca_cert_pem = a\<rparr>"
proof -
  from assms(1) obtain uid gid opt_pid where cred: "peer_cred api = Inr (uid, gid, opt_pid)"
    by (cases "peer_cred api") (auto simp: handle_workload_conn_eq)
  let ?match = "match_workload (api_accounts api) (workloads (snd w)) (peer_process api uid gid opt_pid)"
  show ?thesis
  proof (cases ?match)
    case None
    with assms(1) cred have "respond api (WorkloadError (attestation_failed api
        (peer_process api uid gid opt_pid))) (w, u) = ((w', u'), Inr x)"
      by (simp add: handle_workload_conn_eq)
    from respond_Inr [OF this] assms(2) have "ser_workload api (WorkloadError (attestation_failed api
        (peer_process api uid gid opt_pid))) = Inr p" by simp
    from assms(3) [OF this] show ?thesis by simp
  next
    case (Some name)
    with assms(1) cred have "handle_attested api env pki config t name (w, u) = ((w', u'), Inr x)"
      by (simp add: handle_workload_conn_eq)
    from handle_attested_Inr [OF this] assms(2,3) obtain creds where
      "get_or_fetch_credentials env pki (tick_seed t) (tick_now t) (tick_later t) config name w
        = (w', Inr creds)"
      and "ser_workload api (Success (cred_cert_pem creds) (cred_key_pem creds) (cred_ca_cert_pem creds)) = Inr p"
      by auto
    with assms(3) cred Some show ?thesis by (intro exI conjI) (assumption | force)+
  qed
qed

text \<open>
  Only attested fetches reach the host: unless the connected process is attested and its line
  is a request of type \<open>fetch\<close>, the handler leaves the agent and the system as they were, so a
  process without a workload, a silent one or one that sends nonsense costs no certificate and
  does not release the client port.
\<close>
theorem only_attested_fetch_reaches_host:
  assumes "handle_workload_conn api env pki config t (w, u) = ((w', u'), r)" and "w' \<noteq> w"
  shows "\<exists>uid gid opt_pid name line req. peer_cred api = Inr (uid, gid, opt_pid)
    \<and> match_workload (api_accounts api) (workloads (snd w)) (peer_process api uid gid opt_pid) = Some name
    \<and> de_workload api line = Inr req \<and> req_type req = ''fetch''"
proof -
  from assms obtain uid gid opt_pid where cred: "peer_cred api = Inr (uid, gid, opt_pid)"
    by (cases "peer_cred api") (auto simp: handle_workload_conn_eq)
  with assms obtain name where
    name: "match_workload (api_accounts api) (workloads (snd w)) (peer_process api uid gid opt_pid) = Some name"
    by (cases "match_workload (api_accounts api) (workloads (snd w)) (peer_process api uid gid opt_pid)")
      (auto simp: handle_workload_conn_eq dest: respond_world)
  with assms(1) cred have "handle_attested api env pki config t name (w, u) = ((w', u'), r)"
    by (simp add: handle_workload_conn_eq)
  from handle_attested_world [OF this] assms(2) cred name show ?thesis by blast
qed

lemma workload_api_loop_keeps:
  assumes "world_wf w" and "workload_api_loop env pki config conns w = (w', us)"
  shows "world_wf w' \<and> other_fds w' = other_fds w \<and> workloads (snd w') = workloads (snd w)"
  using assms
proof (induction env pki config conns w arbitrary: us rule: workload_api_loop.induct)
  case (3 env pki config api u t rest w)
  obtain w1 u1 r where h: "handle_workload_conn api env pki config t (w, u) = ((w1, u1), r)"
    by (metis surj_pair)
  obtain w2 us2 where l: "workload_api_loop env pki config rest w1 = (w2, us2)" by (metis surj_pair)
  from handle_workload_conn_keeps [OF "3.prems"(1) h] "3.IH" [OF h [symmetric]] h l "3.prems"(2)
  show ?case by simp
qed simp_all

text \<open>
  Serving any sequence of local connections, whatever each process is and sends and whatever
  accepting and the host do, keeps the agent in order: the listener is an open socket if there
  is one, no other descriptor is lost or leaked, and the workloads from the handshake stay.
\<close>
theorem workload_api_loop_invariant:
  assumes "world_wf w" and "workload_api_loop env pki config conns w = (w', us)"
  shows "world_wf w' \<and> other_fds w' = other_fds w \<and> workloads (snd w') = workloads (snd w)"
  by (rule workload_api_loop_keeps [OF assms])

text \<open>
  When the server of the Workload API starts listening, its socket exists and every local
  process may connect to it, whatever was at the path before; the set-up fails otherwise.
\<close>
theorem workload_api_socket_open:
  assumes "workload_api_setup path w = (w', Inr ())"
  shows "files w' path = Some \<lparr>content = [], mode = mode_0666\<rparr>"
proof -
  let ?parent = "case path_parent path of None \<Rightarrow> io_ok ()
      | Some parent \<Rightarrow> io_ignore (fs_create_dir_all parent)"
  from assms obtain w1 w2 where bind: "fs_bind_socket path w1 = (w2, Inr ())"
    and chmod: "fs_set_permissions path mode_0666 w2 = (w', Inr ())"
    by (auto simp: workload_api_setup_def io_bind_eq_Inr)
  then show ?thesis
    by (auto simp: fs_bind_socket_def fs_op_defs split: option.splits)
qed

section \<open>A sample connection\<close>

definition sample_api :: "workload_response \<Rightarrow> api_env" where
  "sample_api resp =
     \<lparr>peer_cred = Inr (1000, 100, Some 7), proc_exe = (\<lambda>_. None), proc_cgroup = (\<lambda>_. None),
      api_accounts = sample_accounts,
      ser_workload = (\<lambda>m. Inr (if m = resp then [1] else [0])),
      de_workload = (\<lambda>_. Inr \<lparr>req_type = ''fetch''\<rparr>), debug_opt = (\<lambda>_. [])\<rparr>"

definition sample_uds :: uds where
  "sample_uds = \<lparr>io_stream = sample_stream\<lparr>inp := [123, 10]\<rparr>, at_eof = True\<rparr>"

definition sample_tick :: tick where
  "sample_tick = \<lparr>tick_seed = 0, tick_now = 5, tick_later = 6\<rparr>"

definition alice_world :: agent_world where
  "alice_world = (fst sample_live_world, (snd sample_live_world)\<lparr>workloads := [(''a'', alice_only)]\<rparr>)"

text \<open>The same world with fresh credentials in the cache (half of a lifetime of 600 seconds left).\<close>

definition cached_world :: agent_world where
  "cached_world = (fst alice_world, (snd alice_world)
     \<lparr>cache := [(''a'', \<lparr>cached_creds = sample_new, fetched_at = 5\<rparr>)]\<rparr>)"

definition long_lived_x509 :: x509 where
  "long_lived_x509 = sample_x509\<lparr>parse_x509_certificate := (\<lambda>_. Inr (sample_cert\<lparr>x_not_after := 600\<rparr>))\<rparr>"

definition cached_pki :: "(string, csr) agent_pki" where
  "cached_pki = sample_pki\<lparr>agent_x509 := long_lived_x509\<rparr>"

definition success_new :: workload_response where
  "success_new = Success ''new'' ''key'' ''ca''"

lemma alice_world_wf: "world_wf alice_world"
  by (simp add: alice_world_def sample_live_world_def sample_live_os_def world_wf_def os_wf_def
      sample_os_def sample_state_def)

lemma sample_match:
  "match_workload sample_accounts [(''a'', alice_only)] (peer_process (sample_api resp) 1000 100 pid)
     = Some ''a''"
proof -
  have "selects sample_accounts (wc_selector alice_only) (peer_process (sample_api resp) 1000 100 pid)"
    by (simp add: selects_def alice_only_def sample_accounts_def peer_process_def sample_api_def
        discover_cgroup_def Let_def)
  then show ?thesis
    unfolding match_workload_best best_def by (intro exI [of _ alice_only]) (simp add: exI [of _ "[]"])
qed

lemma sample_cached_fetch:
  "get_or_fetch_credentials env cached_pki 0 5 6 config ''a'' cached_world = (cached_world, Inr sample_new)"
  by (simp add: get_or_fetch_credentials_def cached_world_def alice_world_def sample_live_world_def
      cached_pki_def rotation_threshold_def get_cert_validity_seconds_def long_lived_x509_def
      sample_x509_def sample_cert_def)

lemma sample_handled_conn:
  "\<exists>u'. handle_workload_conn (sample_api success_new) env cached_pki config sample_tick
      (cached_world, sample_uds) = ((cached_world, u'), Inr ())
    \<and> outp (io_stream u') = outp (io_stream sample_uds) @ [1] @ [newline]"
proof -
  let ?u = "sample_uds\<lparr>io_stream := sample_stream\<rparr>"
  have read: "read_line sample_uds = (?u, Inr [123, 10])"
    by (simp add: read_line_def sample_uds_def sample_stream_def newline_def)
  have w: "workloads (snd cached_world) = [(''a'', alice_only)]"
    by (simp add: cached_world_def alice_world_def)
  have accounts: "api_accounts (sample_api success_new) = sample_accounts"
    "peer_cred (sample_api success_new) = Inr (1000, 100, Some 7)"
    "de_workload (sample_api success_new) line = Inr \<lparr>req_type = ''fetch''\<rparr>"
    "ser_workload (sample_api success_new) (Success ''new'' ''key'' ''ca'') = Inr [1]" for line
    by (simp_all add: sample_api_def success_new_def)
  have "\<exists>u'. write_line [1] ?u = (u', Inr ()) \<and> outp (io_stream u') = [1, newline]"
    by (simp add: write_line_def write_all_def sample_stream_def)
  then obtain u' where "write_line [1] ?u = (u', Inr ())" "outp (io_stream u') = [1, newline]" by blast
  then show ?thesis
    by (simp add: handle_workload_conn_eq accounts w sample_match handle_attested_def io_bind_def
        on_uds_def read io_lift_def on_world_def sample_cached_fetch sample_tick_def respond_def
        sample_new_def)
      (simp add: sample_uds_def sample_stream_def)
qed

theorem credentials_only_if_attested_witness:
  "\<exists>creds. get_or_fetch_credentials sample_cert_env cached_pki 0 5 6 sample_agent_config ''a'' cached_world = (cached_world, Inr creds)
    \<and> creds = \<lparr>cred_cert_pem = ''new'', cred_key_pem = ''key'', cred_ca_cert_pem = ''ca''\<rparr>"
proof -
  obtain u' where h: "handle_workload_conn (sample_api success_new) sample_cert_env cached_pki sample_agent_config sample_tick
      (cached_world, sample_uds) = ((cached_world, u'), Inr ())"
    and o: "outp (io_stream u') = outp (io_stream sample_uds) @ [1] @ [newline]"
    using sample_handled_conn by blast
  have unique: "m = Success ''new'' ''key'' ''ca''" if "ser_workload (sample_api success_new) m = Inr [1]" for m
    using that by (simp add: sample_api_def success_new_def split: if_splits)
  from credentials_only_if_attested [OF h o unique] obtain uid gid pid name creds where
    cred: "peer_cred (sample_api success_new) = Inr (uid, gid, pid)"
    and match: "match_workload (api_accounts (sample_api success_new)) (workloads (snd cached_world))
        (peer_process (sample_api success_new) uid gid pid) = Some name"
    and fetch: "get_or_fetch_credentials sample_cert_env cached_pki (tick_seed sample_tick) (tick_now sample_tick)
        (tick_later sample_tick) sample_agent_config name cached_world = (cached_world, Inr creds)"
    and creds: "creds = \<lparr>cred_cert_pem = ''new'', cred_key_pem = ''key'', cred_ca_cert_pem = ''ca''\<rparr>"
    by blast
  from cred have "uid = 1000" "gid = 100" by (simp_all add: sample_api_def)
  moreover have "workloads (snd cached_world) = [(''a'', alice_only)]"
    by (simp add: cached_world_def alice_world_def)
  moreover have "api_accounts (sample_api success_new) = sample_accounts" by (simp add: sample_api_def)
  ultimately have "name = ''a''" using match sample_match [of success_new pid] by simp
  with fetch creds show ?thesis by (simp add: sample_tick_def)
qed

lemma alice_handled:
  "\<exists>w' u' r. handle_workload_conn (sample_api success_new) sample_cert_env sample_pki sample_agent_config
      sample_tick (alice_world, sample_uds) = ((w', u'), r) \<and> w' \<noteq> alice_world"
proof -
  let ?st = "(snd alice_world)"
  have world: "alice_world = (sample_live_os, ?st)"
    by (simp add: alice_world_def sample_live_world_def)
  have "listener ?st = Some 2" by (simp add: alice_world_def sample_live_world_def sample_state_def)
  from live_request [OF this] obtain w st where
    "request_cert_on_demand sample_cert_env sample_pki 0 sample_agent_config ''a'' alice_world
      = ((w, st), Inr sample_new)"
    unfolding world [symmetric] by (metis surj_pair)
  moreover have none: "cache ?st = []" by (simp add: alice_world_def sample_live_world_def)
  ultimately obtain w2 where w2: "get_or_fetch_credentials sample_cert_env sample_pki 0 5 6
      sample_agent_config ''a'' alice_world = (w2, Inr sample_new)" and "map_of (cache (snd w2)) ''a'' \<noteq> None"
    by (simp add: get_or_fetch_credentials_def Let_def io_bind_def update_conv)
  with none have changed: "w2 \<noteq> alice_world" by auto
  have read: "read_line sample_uds = (sample_uds\<lparr>io_stream := sample_stream\<rparr>, Inr [123, 10])"
    by (simp add: read_line_def sample_uds_def sample_stream_def newline_def)
  have ws: "workloads ?st = [(''a'', alice_only)]" by (simp add: alice_world_def)
  have api: "api_accounts (sample_api success_new) = sample_accounts"
    "peer_cred (sample_api success_new) = Inr (1000, 100, Some 7)"
    "de_workload (sample_api success_new) line = Inr \<lparr>req_type = ''fetch''\<rparr>" for line
    by (simp_all add: sample_api_def)
  obtain s r where "handle_workload_conn (sample_api success_new) sample_cert_env sample_pki
      sample_agent_config sample_tick (alice_world, sample_uds) = (s, r)" by (metis surj_pair)
  moreover from this have "fst s = w2"
    using w2 by (cases s)
      (auto simp: handle_workload_conn_eq api ws sample_match handle_attested_def io_bind_def
        on_uds_def read io_lift_def on_world_def sample_tick_def dest: respond_world)
  ultimately show ?thesis using changed by (metis prod.collapse)
qed

theorem only_attested_fetch_reaches_host_witness:
  "\<exists>name. match_workload sample_accounts (workloads (snd alice_world))
      (peer_process (sample_api success_new) 1000 100 (Some 7)) = Some name"
proof -
  obtain w' u' r where h: "handle_workload_conn (sample_api success_new) sample_cert_env sample_pki
      sample_agent_config sample_tick (alice_world, sample_uds) = ((w', u'), r)"
    and n: "w' \<noteq> alice_world"
    using alice_handled by blast
  from only_attested_fetch_reaches_host [OF h n] show ?thesis by (auto simp: sample_api_def)
qed

theorem workload_api_loop_invariant_witness:
  "world_wf (fst (workload_api_loop sample_cert_env sample_pki sample_agent_config
     [(AcceptFailed, sample_tick), (Accepted (sample_api success_new) sample_uds, sample_tick)] alice_world))"
proof -
  obtain w' us where r: "workload_api_loop sample_cert_env sample_pki sample_agent_config
     [(AcceptFailed, sample_tick), (Accepted (sample_api success_new) sample_uds, sample_tick)] alice_world
     = (w', us)" by (metis surj_pair)
  from workload_api_loop_invariant [OF alice_world_wf r] r show ?thesis by simp
qed

theorem workload_api_socket_open_witness:
  "files (fst (workload_api_setup ''/run/w.sock'' sample_fs)) ''/run/w.sock''
     = Some \<lparr>content = [], mode = mode_0666\<rparr>"
proof -
  have "\<exists>w'. workload_api_setup ''/run/w.sock'' sample_fs = (w', Inr ())"
    by (simp add: workload_api_setup_def io_bind_def io_ignore_def io_map_err_def fs_op_defs
        fs_bind_socket_def sample_fs_def io_ok_def split: option.splits)
  then obtain w' where r: "workload_api_setup ''/run/w.sock'' sample_fs = (w', Inr ())" ..
  from workload_api_socket_open [OF r] r show ?thesis by simp
qed

end
