(* ===== verification/Agent_Main.thy ===== *)
theory Agent_Main imports Agent_Api begin

text \<open>
  The agent program (\<^verbatim>\<open>apps/rust-apps/authn-scope-agent/src/main.rs\<close>): from the command line over
  the handshake to the Workload API. The process ends with an exit code, or serves local
  connections until it is terminated.
\<close>

section \<open>The program\<close>

definition agent_default_config_path :: string where
  "agent_default_config_path = ''/etc/authn-scope/agent.json''"

text \<open>
  A serving agent has its world and the local streams as they were when closed; without a socket
  path, or when the socket cannot be set up, it keeps the client port and serves nobody.
\<close>

datatype agent_outcome =
    Agent_Exited nat
  | Agent_Serving (serving_world: agent_world) (served_streams: "uds list")

text \<open>The task that \<^verbatim>\<open>run_agent\<close> spawns for the Workload API; its error is only logged.\<close>

definition run_workload_api ::
  "agent_env \<Rightarrow> ('k, 'c) agent_pki \<Rightarrow> agent_config \<Rightarrow> string option \<Rightarrow> (accepted \<times> tick) list
   \<Rightarrow> agent_world \<Rightarrow> fs \<Rightarrow> fs \<times> agent_outcome" where
  "run_workload_api env pki config sock events w f =
     (case sock of
        None \<Rightarrow> (f, Agent_Serving w [])
      | Some path \<Rightarrow>
          (case workload_api_setup path f of
             (f1, Inl e) \<Rightarrow> (f1, Agent_Serving w [])
           | (f1, Inr _) \<Rightarrow>
               (case workload_api_loop env pki config events w of (w1, us) \<Rightarrow> (f1, Agent_Serving w1 us))))"

definition agent_main ::
  "agent_env \<Rightarrow> ('k, 'c) agent_pki \<Rightarrow> (string \<Rightarrow> anyhow + agent_config) \<Rightarrow> u32 \<Rightarrow> string
   \<Rightarrow> (accepted \<times> tick) list \<Rightarrow> agent_os \<Rightarrow> fs \<Rightarrow> agent_os \<times> fs \<times> agent_outcome" where
  "agent_main env pki parse_json uid path events os f =
     (if uid \<noteq> 0 then (os, f, Agent_Exited 1)
      else case fs_read_to_string path f of (f1, data) \<Rightarrow>
        (case agent_config_from_file (\<lambda>_. map_err Msg data) parse_json path of
           Inl e \<Rightarrow> (os, f1, Agent_Exited 1)
         | Inr cfg \<Rightarrow>
             (case run_agent env cfg os of
                (os1, Inl (Bail e)) \<Rightarrow> (os1, f1, Agent_Exited 1)
              | (os1, Inl Panic) \<Rightarrow> (os1, f1, Agent_Exited 101)
              | (os1, Inr (st, sock)) \<Rightarrow>
                  (os1, run_workload_api env pki cfg sock events (os1, st) f1))))"

section \<open>Facts\<close>

lemma run_agent_workloads:
  assumes "run_agent env config w = (w', Inr (st, sock))"
  shows "\<exists>w1. perform_handshake env config w = (w1, Inr (workloads st))"
  using assms by (auto simp: run_agent_def io_bind_eq_Inr io_ok_def)

lemma agent_main_Serving:
  "agent_main env pki parse_json uid path events os f = (os1, f2, Agent_Serving w streams) \<longleftrightarrow>
     uid = 0 \<and> (\<exists>f1 data cfg st sock. fs_read_to_string path f = (f1, data)
       \<and> agent_config_from_file (\<lambda>_. map_err Msg data) parse_json path = Inr cfg
       \<and> run_agent env cfg os = (os1, Inr (st, sock))
       \<and> run_workload_api env pki cfg sock events (os1, st) f1 = (f2, Agent_Serving w streams))"
  by (auto simp: agent_main_def split: prod.splits sum.splits fault.splits)

lemma run_workload_api_keeps:
  assumes "world_wf w" and "run_workload_api env pki config sock events w f = (f', Agent_Serving w' us)"
  shows "world_wf w' \<and> other_fds w' = other_fds w \<and> workloads (snd w') = workloads (snd w)"
  using assms workload_api_loop_keeps [OF assms(1), of env pki config events w' us]
  by (auto simp: run_workload_api_def split: option.splits prod.splits sum.splits)

section \<open>The agent's promise\<close>

text \<open>
  C18: A serving agent runs as root with a configuration whose port is privileged, attests against
  exactly the workloads that the host sent in the handshake, whatever local connections have
  been served, and its descriptors are in order: besides those it was started with it has at
  most the listener on the client port, so that no connection, failed or served, leaks one.
\<close>
theorem serving_agent_in_order:
  assumes "os_wf os"
    and "agent_main env pki parse_json uid path events os f = (os1, f', Agent_Serving w streams)"
  shows "uid = 0 \<and> world_wf w \<and> other_fds w = open_fds os
    \<and> (\<exists>f1 data cfg w1. fs_read_to_string path f = (f1, data)
        \<and> agent_config_from_file (\<lambda>_. map_err Msg data) parse_json path = Inr cfg
        \<and> unat (agent_server_port cfg) < 1000
        \<and> perform_handshake env cfg os = (w1, Inr (workloads (snd w))))"
proof -
  from assms(2) obtain f1 data cfg st sock where uid: "uid = 0"
    and cfg: "fs_read_to_string path f = (f1, data)"
      "agent_config_from_file (\<lambda>_. map_err Msg data) parse_json path = Inr cfg"
    and run: "run_agent env cfg os = (os1, Inr (st, sock))"
    and api: "run_workload_api env pki cfg sock events (os1, st) f1 = (f', Agent_Serving w streams)"
    by (auto simp: agent_main_Serving)
  from run_agent_port [OF assms(1) run] obtain l where l: "os_wf os1" "listener st = Some l"
    "l \<notin> open_fds os" "open_fds os1 = insert l (open_fds os)" by auto
  then have w0: "world_wf (os1, st)" "other_fds (os1, st) = open_fds os"
    by (simp_all add: world_wf_def other_fds_def)
  from run_agent_workloads [OF run] obtain w1 where "perform_handshake env cfg os = (w1, Inr (workloads st))"
    by blast
  moreover from cfg(2) have "unat (agent_server_port cfg) < 1000"
    by (auto simp: agent_config_from_file_def word_le_nat_alt split: if_splits)
  ultimately show ?thesis
    using uid cfg w0 run_workload_api_keeps [OF w0(1) api] by auto
qed

lemma sample_run_agent:
  "\<exists>os1 st. run_agent (sample_agent_env (HandshakeOk [])) sample_agent_config sample_os = (os1, Inr (st, None))"
proof -
  let ?env = "sample_agent_env (HandshakeOk [])"
  let ?s = "sample_stream\<lparr>inp := [], outp := frame [5], room := 9999995\<rparr>"
  have "handshake_round ?env sample_agent_config sample_os = (sample_os1, Done (Inr sample_conn1))"
    by (rule sample_handshake_round)
  then have "retry 15 500 (handshake_round ?env sample_agent_config) 0 sample_os = (sample_os1, Inr sample_conn1)"
    by (subst retry.simps) simp
  then have "perform_handshake ?env sample_agent_config sample_os = (drop_conn sample_conn1 ?s sample_os1, Inr [])"
    using sample_exchange
    by (simp add: perform_handshake_def io_bind_def exchange_def io_context_def sample_conn1_def io_ok_def)
  moreover have "\<exists>os1 l. bind_listener 901 m (drop_conn sample_conn1 ?s sample_os1) = (os1, Inr l)" for m
    unfolding bind_listener_def
    by (subst retry.simps) (simp add: listen_round_def sys_defs drop_conn_def sample_os1_def sample_os_def)
  moreover have "client_port sample_agent_config = 901" "workload_api_socket sample_agent_config = None"
    by (simp_all add: sample_agent_config_def)
  ultimately obtain os1 l where hs: "perform_handshake ?env sample_agent_config sample_os
      = (drop_conn sample_conn1 ?s sample_os1, Inr [])"
    and bind: "bind_listener (client_port sample_agent_config)
        (''binding persistent listener to client port '' @ show_u32 (client_port sample_agent_config)
         @ '' to secure it'') (drop_conn sample_conn1 ?s sample_os1) = (os1, Inr l)"
    and sock: "workload_api_socket sample_agent_config = None"
    by metis
  then show ?thesis by (simp only: run_agent_def io_bind_def) (simp add: io_ok_def)
qed

theorem serving_agent_in_order_witness:
  "\<exists>os1 f w. agent_main (sample_agent_env (HandshakeOk [])) sample_pki (\<lambda>_. Inr sample_agent_config) 0
       ''/a'' [] sample_os (sample_fs\<lparr>files := (\<lambda>_. Some \<lparr>content = [], mode = 0\<rparr>)\<rparr>)
     = (os1, f, Agent_Serving w []) \<and> world_wf w"
proof -
  let ?fs = "sample_fs\<lparr>files := (\<lambda>_. Some \<lparr>content = [], mode = 0\<rparr>)\<rparr>"
  have "\<exists>f1. fs_read_to_string ''/a'' ?fs = (f1, Inr [])"
    by (simp add: fs_op_defs sample_fs_def)
  moreover have "agent_config_from_file (\<lambda>_. Inr []) (\<lambda>_. Inr sample_agent_config) ''/a''
      = Inr sample_agent_config"
    by (simp add: agent_config_from_file_def sample_agent_config_def)
  ultimately obtain os1 f w where r: "agent_main (sample_agent_env (HandshakeOk [])) sample_pki
      (\<lambda>_. Inr sample_agent_config) 0 ''/a'' [] sample_os ?fs = (os1, f, Agent_Serving w [])"
    using sample_run_agent by (auto simp: agent_main_def run_workload_api_def)
  from serving_agent_in_order [OF sample_os_wf r] r show ?thesis by blast
qed

end
