(* ===== verification/Task_Pool.thy ===== *)
theory Task_Pool imports Prelude begin

text \<open>
  Tasks of an async runtime that share a state behind mutexes. A task is a sequence of phases;
  the guards it holds are those in scope in its phase, so that a mutex is held by the task whose
  phase holds its guard, and a step that enters a phase with a further guard has to wait until
  no other task holds it. In some phases a task waits for its client. The runtime may pick any
  task that can go on, so that every order of steps is covered, whatever the queues of the
  mutexes do.
\<close>

section \<open>Pools of tasks\<close>

record ('w, 'u, 'p) pool =
  shared :: 'w
  tasks :: "('u \<times> 'p) list"
  ready :: "nat set"

definition phase_of :: "('w, 'u, 'p) pool \<Rightarrow> nat \<Rightarrow> 'p" where
  "phase_of s i = snd (tasks s ! i)"

definition lock_free :: "('p \<Rightarrow> 'l set) \<Rightarrow> ('w, 'u, 'p) pool \<Rightarrow> nat \<Rightarrow> 'l \<Rightarrow> bool" where
  "lock_free locks s i l \<longleftrightarrow> (\<forall>j < length (tasks s). j \<noteq> i \<longrightarrow> l \<notin> locks (phase_of s j))"

text \<open>
  \<open>advance i p\<close> is what task \<open>i\<close> does in phase \<open>p\<close>, on the shared state and its own; \<open>outcome\<close> is
  the result of a task that has ended. \<open>client_acts\<close>: the client of a task does what it waits for.
\<close>

inductive pool_step ::
  "(nat \<Rightarrow> 'p \<Rightarrow> 'w \<times> 'u \<Rightarrow> ('w \<times> 'u) \<times> 'p) \<Rightarrow> ('p \<Rightarrow> 'l set) \<Rightarrow> ('p \<Rightarrow> bool) \<Rightarrow> ('p \<Rightarrow> 'r option)
   \<Rightarrow> ('w, 'u, 'p) pool \<Rightarrow> ('w, 'u, 'p) pool \<Rightarrow> bool"
  for advance locks waits outcome where
  task_acts: "\<lbrakk>i < length (tasks s); tasks s ! i = (u, p); outcome p = None; waits p \<longrightarrow> i \<in> ready s;
     advance i p (shared s, u) = ((w', u'), p'); \<forall>l \<in> locks p' - locks p. lock_free locks s i l\<rbrakk>
   \<Longrightarrow> pool_step advance locks waits outcome s (s\<lparr>shared := w', tasks := (tasks s)[i := (u', p')]\<rparr>)"
| client_acts: "\<lbrakk>i < length (tasks s); i \<notin> ready s\<rbrakk>
   \<Longrightarrow> pool_step advance locks waits outcome s (s\<lparr>ready := insert i (ready s)\<rparr>)"

text \<open>Tasks one after another, each from the beginning to its end.\<close>

fun serial :: "(nat \<Rightarrow> 'w \<times> 'u \<Rightarrow> ('w \<times> 'u) \<times> 'r) \<Rightarrow> (nat \<Rightarrow> 'u) \<Rightarrow> nat list \<Rightarrow> 'w \<Rightarrow> 'w \<times> (nat \<times> 'u \<times> 'r) list"
  where
  "serial h u0 [] w = (w, [])"
| "serial h u0 (i # is) w =
     (case h i (w, u0 i) of ((w1, u1), r) \<Rightarrow>
        (case serial h u0 is w1 of (w2, outs) \<Rightarrow> (w2, (i, u1, r) # outs)))"

lemma serial_snoc:
  "serial h u0 is w = (w1, outs) \<Longrightarrow> h i (w1, u0 i) = ((w2, u2), r) \<Longrightarrow>
     serial h u0 (is @ [i]) w = (w2, outs @ [(i, u2, r)])"
  by (induction h u0 "is" w arbitrary: outs rule: serial.induct) (auto split: prod.splits)

lemma serial_ids: "serial h u0 is w = (w1, outs) \<Longrightarrow> map fst outs = is"
  by (induction h u0 "is" w arbitrary: outs rule: serial.induct) (auto split: prod.splits)

section \<open>One outermost lock\<close>

text \<open>
  The interface: a task that holds any guard holds the outermost one, takes it on leaving its
  first phase and keeps it until it ends, changes nothing before it has it, and comes closer to
  its end with every step. \<open>rest i p\<close> is all that task \<open>i\<close> has still to do in phase \<open>p\<close>.
\<close>

locale outer_locked =
  fixes advance :: "nat \<Rightarrow> 'p \<Rightarrow> 'w \<times> 'u \<Rightarrow> ('w \<times> 'u) \<times> 'p"
    and locks :: "'p \<Rightarrow> 'l set"
    and waits :: "'p \<Rightarrow> bool"
    and outcome :: "'p \<Rightarrow> 'r option"
    and rest :: "nat \<Rightarrow> 'p \<Rightarrow> 'w \<times> 'u \<Rightarrow> ('w \<times> 'u) \<times> 'r"
    and outer :: 'l
    and rank :: "'p \<Rightarrow> nat"
  assumes rest_advance: "advance i p s = (s', p') \<Longrightarrow> outcome p = None \<Longrightarrow> rest i p s = rest i p' s'"
    and rest_outcome: "outcome p = Some r \<Longrightarrow> rest i p s = (s, r)"
    and outcome_locks: "outcome p = Some r \<Longrightarrow> locks p = {}"
    and locks_outer: "l \<in> locks p \<Longrightarrow> outer \<in> locks p"
    and keeps_outer: "advance i p s = (s', p') \<Longrightarrow> outcome p = None \<Longrightarrow> outcome p' = None
        \<Longrightarrow> outer \<in> locks p'"
    and takes_outer: "advance i p s = (s', p') \<Longrightarrow> outcome p = None \<Longrightarrow> outer \<notin> locks p
        \<Longrightarrow> outcome p' = None"
    and waits_outer: "waits p \<Longrightarrow> outer \<in> locks p"
    and rank_advance: "advance i p s = (s', p') \<Longrightarrow> outcome p = None \<Longrightarrow> rank p' < rank p"
begin

abbreviation "step \<equiv> pool_step advance locks waits outcome"

definition whole :: "('w, 'u, 'p) pool \<Rightarrow> nat \<Rightarrow> 'w \<times> 'u \<Rightarrow> ('w \<times> 'u) \<times> 'r" where
  "whole s0 i = rest i (phase_of s0 i)"

definition start :: "('w, 'u, 'p) pool \<Rightarrow> nat \<Rightarrow> 'u" where
  "start s0 i = fst (tasks s0 ! i)"

text \<open>
  How far a pool has come from \<open>s0\<close>: the tasks \<open>dn\<close> have run to their ends one after another, the
  task in \<open>cur\<close>, if any, has the outermost lock, all others are where they started.
\<close>

definition untouched :: "('w, 'u, 'p) pool \<Rightarrow> ('w, 'u, 'p) pool \<Rightarrow> nat set \<Rightarrow> bool" where
  "untouched s0 s busy \<longleftrightarrow> length (tasks s) = length (tasks s0) \<and> busy \<subseteq> {..< length (tasks s0)}
     \<and> (\<forall>i < length (tasks s0). i \<notin> busy \<longrightarrow> tasks s ! i = tasks s0 ! i)
     \<and> (\<forall>i \<in> busy. outcome (phase_of s0 i) = None)"

definition finished_as :: "('w, 'u, 'p) pool \<Rightarrow> (nat \<times> 'u \<times> 'r) list \<Rightarrow> bool" where
  "finished_as s outs \<longleftrightarrow>
     (\<forall>i u r. (i, u, r) \<in> set outs \<longrightarrow> fst (tasks s ! i) = u \<and> outcome (phase_of s i) = Some r)"

definition progress :: "('w, 'u, 'p) pool \<Rightarrow> ('w, 'u, 'p) pool \<Rightarrow> nat list \<Rightarrow> nat option \<Rightarrow> bool" where
  "progress s0 s dn cur \<longleftrightarrow> distinct dn \<and>
     (\<exists>w1 outs. serial (whole s0) (start s0) dn (shared s0) = (w1, outs) \<and> finished_as s outs \<and>
        (case cur of
           None \<Rightarrow> untouched s0 s (set dn) \<and> shared s = w1
         | Some c \<Rightarrow> untouched s0 s (insert c (set dn)) \<and> c \<notin> set dn \<and> outcome (phase_of s c) = None
             \<and> outer \<in> locks (phase_of s c)
             \<and> rest c (phase_of s c) (shared s, fst (tasks s ! c)) = whole s0 c (w1, start s0 c)))"

definition fresh :: "('w, 'u, 'p) pool \<Rightarrow> bool" where
  "fresh s0 \<longleftrightarrow> (\<forall>i < length (tasks s0). locks (phase_of s0 i) = {})"

lemma progress_refl: "progress s0 s0 [] None"
  by (simp add: progress_def finished_as_def untouched_def)

lemma progress_ended:
  assumes "progress s0 s dn cur" and "i \<in> set dn"
  shows "outcome (phase_of s i) \<noteq> None"
proof -
  from assms(1) obtain w1 outs where
    "serial (whole s0) (start s0) dn (shared s0) = (w1, outs)" and fin: "finished_as s outs"
    by (auto simp: progress_def)
  from serial_ids [OF this(1)] assms(2) obtain u r where "(i, u, r) \<in> set outs" by force
  with fin show ?thesis by (auto simp: finished_as_def)
qed

text \<open>A task that is not the current one and has not ended is where it started.\<close>

lemma progress_other:
  assumes "progress s0 s dn cur" and "i < length (tasks s)" and "cur \<noteq> Some i"
    and "outcome (phase_of s i) = None"
  shows "tasks s ! i = tasks s0 ! i" and "i \<notin> set dn" and "i < length (tasks s0)"
proof -
  show dn: "i \<notin> set dn" using progress_ended [OF assms(1)] assms(4) by blast
  from assms(1) have len: "length (tasks s) = length (tasks s0)"
    by (auto simp: progress_def untouched_def split: option.splits)
  with assms(2) show "i < length (tasks s0)" by simp
  with assms dn show "tasks s ! i = tasks s0 ! i"
    by (auto simp: progress_def untouched_def split: option.splits)
qed

lemma progress_locks:
  assumes "fresh s0" and "progress s0 s dn cur" and "i < length (tasks s)" and "cur \<noteq> Some i"
  shows "locks (phase_of s i) = {}"
proof (cases "outcome (phase_of s i)")
  case None
  from progress_other [OF assms(2,3,4) this] assms(1) show ?thesis
    by (simp add: fresh_def phase_of_def)
next
  case (Some r)
  then show ?thesis by (rule outcome_locks)
qed

lemma finished_as_update:
  assumes "finished_as s outs" and "i \<notin> fst ` set outs"
  shows "finished_as (s\<lparr>shared := w', tasks := (tasks s)[i := x]\<rparr>) outs"
proof -
  have "(tasks s)[i := x] ! j = tasks s ! j" if "(j, u, r) \<in> set outs" for j u r
    using assms(2) that by (force intro: nth_list_update_neq)
  with assms(1) show ?thesis unfolding finished_as_def phase_of_def by simp
qed

lemma untouched_update:
  "untouched s0 s (insert i busy) \<Longrightarrow>
     untouched s0 (s\<lparr>shared := w', tasks := (tasks s)[i := x]\<rparr>) (insert i busy)"
  by (auto simp: untouched_def nth_list_update)

text \<open>The step of a task that is, or with this step becomes, the current one.\<close>

lemma progress_advance:
  assumes dn: "distinct dn" "i \<notin> set dn"
    and serial: "serial (whole s0) (start s0) dn (shared s0) = (w1, outs)" "finished_as s outs"
    and unt: "untouched s0 s (insert i (set dn))"
    and rest: "rest i p (shared s, u) = whole s0 i (w1, start s0 i)"
    and act: "advance i p (shared s, u) = ((w', u'), p')" "outcome p = None"
  shows "\<exists>dn' cur'. progress s0 (s\<lparr>shared := w', tasks := (tasks s)[i := (u', p')]\<rparr>) dn' cur'"
proof -
  let ?s' = "s\<lparr>shared := w', tasks := (tasks s)[i := (u', p')]\<rparr>"
  from unt have i: "i < length (tasks s)" by (auto simp: untouched_def)
  then have here: "phase_of ?s' i = p'" "tasks ?s' ! i = (u', p')" by (simp_all add: phase_of_def)
  have ids: "i \<notin> fst ` set outs" using serial_ids [OF serial(1)] dn(2) by (metis set_map)
  note fin = finished_as_update [OF serial(2) ids, where w' = w' and x = "(u', p')"]
  note unt' = untouched_update [OF unt, where w' = w' and x = "(u', p')"]
  from rest_advance [OF act] rest have rest': "rest i p' (w', u') = whole s0 i (w1, start s0 i)" by simp
  show ?thesis
  proof (cases "outcome p'")
    case None
    with keeps_outer [OF act] have "outer \<in> locks p'" .
    then have "progress s0 ?s' dn (Some i)"
      unfolding progress_def using dn serial(1) fin unt' here None rest' by simp
    then show ?thesis by blast
  next
    case (Some r)
    from rest_outcome [OF this] rest' have "whole s0 i (w1, start s0 i) = ((w', u'), r)" by simp
    from serial_snoc [OF serial(1) this] have
      "serial (whole s0) (start s0) (dn @ [i]) (shared s0) = (w', outs @ [(i, u', r)])" .
    moreover have "finished_as ?s' (outs @ [(i, u', r)])"
      using fin here Some by (auto simp: finished_as_def)
    ultimately have "progress s0 ?s' (dn @ [i]) None"
      unfolding progress_def using dn unt' by simp
    then show ?thesis by blast
  qed
qed

lemma progress_ready: "progress s0 (s\<lparr>ready := R\<rparr>) dn cur = progress s0 s dn cur"
  by (cases cur) (simp_all add: progress_def untouched_def finished_as_def phase_of_def)

lemma progress_step:
  assumes "fresh s0" and "progress s0 s dn cur" and "step s s'"
  shows "\<exists>dn' cur'. progress s0 s' dn' cur'"
  using assms(3)
proof cases
  case (client_acts i)
  with assms(2) have "progress s0 s' dn cur" by (simp only: progress_ready)
  then show ?thesis by blast
next
  case (task_acts i u p w' u' p')
  note p = \<open>tasks s ! i = (u, p)\<close> and out = \<open>outcome p = None\<close>
  from p have ph: "phase_of s i = p" by (simp add: phase_of_def)
  from assms(2) obtain w1 outs where dn: "distinct dn"
    and ser: "serial (whole s0) (start s0) dn (shared s0) = (w1, outs)" "finished_as s outs"
    and cur: "case cur of
           None \<Rightarrow> untouched s0 s (set dn) \<and> shared s = w1
         | Some c \<Rightarrow> untouched s0 s (insert c (set dn)) \<and> c \<notin> set dn \<and> outcome (phase_of s c) = None
             \<and> outer \<in> locks (phase_of s c)
             \<and> rest c (phase_of s c) (shared s, fst (tasks s ! c)) = whole s0 c (w1, start s0 c)"
    by (auto simp: progress_def)
  have "i \<notin> set dn \<and> untouched s0 s (insert i (set dn)) \<and> rest i p (shared s, u) = whole s0 i (w1, start s0 i)"
  proof (cases "cur = Some i")
    case True
    with cur ph p show ?thesis by simp
  next
    case False
    note other = progress_other [OF assms(2) task_acts(2) False]
    from ph out other have i: "tasks s ! i = tasks s0 ! i" "i \<notin> set dn" "i < length (tasks s0)" by simp_all
    with p have p0: "phase_of s0 i = p" "start s0 i = u" by (simp_all add: phase_of_def start_def)
    with assms(1) i(3) have "outer \<notin> locks p" by (metis empty_iff fresh_def)
    with task_acts out have "outer \<in> locks p'"
      by (meson keeps_outer takes_outer)
    with task_acts(7) \<open>outer \<notin> locks p\<close> have free: "lock_free locks s i outer" by blast
    have "cur = None"
    proof (cases cur)
      case (Some c)
      with cur have "c < length (tasks s)" "outer \<in> locks (phase_of s c)" by (auto simp: untouched_def)
      with free False Some show ?thesis by (auto simp: lock_free_def)
    qed simp
    with cur i p0 out show ?thesis by (auto simp: untouched_def whole_def)
  qed
  then show ?thesis
    unfolding task_acts(1) using progress_advance [OF dn _ ser] task_acts(6) out by blast
qed

lemma progress_steps:
  assumes "fresh s0" and "step\<^sup>*\<^sup>* s0 s"
  shows "\<exists>dn cur. progress s0 s dn cur"
  using assms(2)
proof (induction rule: rtranclp_induct)
  case base
  show ?case using progress_refl by blast
next
  case (step y z)
  with progress_step [OF assms(1)] show ?case by blast
qed

lemma step_length: "step s s' \<Longrightarrow> length (tasks s') = length (tasks s)"
  by (induction rule: pool_step.induct) simp_all

lemma steps_length: "step\<^sup>*\<^sup>* s s' \<Longrightarrow> length (tasks s') = length (tasks s)"
  by (induction rule: rtranclp_induct) (simp_all add: step_length)

text \<open>At most one task holds guards.\<close>

lemma one_holder:
  assumes "fresh s0" and "step\<^sup>*\<^sup>* s0 s"
    and "i < length (tasks s)" "locks (phase_of s i) \<noteq> {}"
    and "j < length (tasks s)" "locks (phase_of s j) \<noteq> {}"
  shows "i = j"
proof -
  obtain dn cur where "progress s0 s dn cur" using progress_steps [OF assms(1,2)] by blast
  from progress_locks [OF assms(1) this] assms(3-6) show ?thesis by (metis option.inject)
qed

text \<open>Once all tasks have ended, they have run one after another in some order.\<close>

lemma linearized:
  assumes "fresh s0" and "step\<^sup>*\<^sup>* s0 s" and "\<forall>i < length (tasks s). outcome (phase_of s i) \<noteq> None"
  shows "\<exists>order outs. distinct order
    \<and> set order = {i. i < length (tasks s0) \<and> outcome (phase_of s0 i) = None}
    \<and> serial (\<lambda>i. rest i (phase_of s0 i)) (\<lambda>i. fst (tasks s0 ! i)) order (shared s0) = (shared s, outs)
    \<and> finished_as s outs"
proof -
  obtain dn cur where prog: "progress s0 s dn cur" using progress_steps [OF assms(1,2)] by blast
  have "cur = None"
  proof (cases cur)
    case (Some c)
    with prog have "c < length (tasks s)" "outcome (phase_of s c) = None"
      by (auto simp: progress_def untouched_def)
    with assms(3) show ?thesis by blast
  qed simp
  with prog obtain outs where dn: "distinct dn"
    and ser: "serial (whole s0) (start s0) dn (shared s0) = (shared s, outs)" "finished_as s outs"
    and unt: "untouched s0 s (set dn)"
    by (auto simp: progress_def)
  have "set dn = {i. i < length (tasks s0) \<and> outcome (phase_of s0 i) = None}"
  proof (rule set_eqI)
    fix i
    from unt have len: "length (tasks s) = length (tasks s0)" by (simp add: untouched_def)
    show "i \<in> set dn \<longleftrightarrow> i \<in> {i. i < length (tasks s0) \<and> outcome (phase_of s0 i) = None}"
    proof (cases "i \<in> set dn")
      case False
      with unt have "i < length (tasks s0) \<Longrightarrow> tasks s ! i = tasks s0 ! i" by (auto simp: untouched_def)
      with assms(3) len False show ?thesis by (auto simp: phase_of_def)
    qed (use unt in \<open>auto simp: untouched_def\<close>)
  qed
  with dn ser show ?thesis unfolding whole_def [abs_def] start_def [abs_def] by blast
qed

text \<open>The tasks that hold no guard can go on only when nobody holds the outermost lock.\<close>

lemma outer_needed:
  assumes "advance i p (shared s, u) = ((w', u'), p')" and "outcome p = None" and "locks p = {}"
    and "\<forall>l \<in> locks p' - locks p. lock_free locks s i l"
  shows "lock_free locks s i outer"
proof -
  from assms(1-3) have "outer \<in> locks p'" by (metis empty_iff keeps_outer takes_outer)
  with assms(3,4) show ?thesis by simp
qed

lemma no_deadlock:
  assumes "fresh s0" and "step\<^sup>*\<^sup>* s0 s" and i: "i < length (tasks s)" "outcome (phase_of s i) = None"
    and "\<forall>j < length (tasks s). waits (phase_of s j) \<longrightarrow> j \<in> ready s"
  shows "\<exists>s'. step s s'"
proof -
  obtain dn cur where prog: "progress s0 s dn cur" using progress_steps [OF assms(1,2)] by blast
  define k where "k = (case cur of None \<Rightarrow> i | Some c \<Rightarrow> c)"
  have k: "k < length (tasks s)" "outcome (phase_of s k) = None"
    using prog i by (auto simp: k_def progress_def untouched_def split: option.splits)
  have others: "locks (phase_of s j) = {}" if "j < length (tasks s)" "j \<noteq> k" for j
  proof (cases cur)
    case None
    with progress_locks [OF assms(1) prog that(1)] show ?thesis by simp
  next
    case (Some c)
    with progress_locks [OF assms(1) prog that(1)] that(2) show ?thesis by (simp add: k_def)
  qed
  then have free: "lock_free locks s k l" for l by (simp add: lock_free_def)
  obtain u p where up: "tasks s ! k = (u, p)" by (metis surj_pair)
  with k assms(5) have p: "outcome p = None" "waits p \<longrightarrow> k \<in> ready s" by (auto simp: phase_of_def)
  obtain w' u' p' where "advance k p (shared s, u) = ((w', u'), p')" by (metis surj_pair)
  from pool_step.task_acts [where advance = advance and locks = locks and waits = waits
      and outcome = outcome, OF k(1) up p this] free show ?thesis by blast
qed

text \<open>A task that waits for a client who does nothing holds up everything.\<close>

lemma stalled_step:
  assumes "fresh s0" and "progress s0 s dn (Some c)" and "waits (phase_of s c)"
    and "step s s'" and "c \<notin> ready s'"
  shows "s' = s\<lparr>ready := ready s'\<rparr>"
  using assms(4)
proof cases
  case (client_acts i)
  then show ?thesis by simp
next
  case (task_acts i u p w' u' p')
  then have ph: "phase_of s i = p" by (simp add: phase_of_def)
  have "i \<noteq> c" using task_acts assms(3,5) ph by auto
  with progress_locks [OF assms(1,2) task_acts(2)] ph have none: "locks p = {}" by simp
  from outer_needed [OF task_acts(6) _ none task_acts(7)] task_acts(4)
  have "lock_free locks s i outer" by blast
  moreover from assms(2) have "c < length (tasks s)" "outer \<in> locks (phase_of s c)"
    by (auto simp: progress_def untouched_def)
  ultimately have False using \<open>i \<noteq> c\<close> by (auto simp: lock_free_def)
  then show ?thesis ..
qed

lemma ready_grows: "step s s' \<Longrightarrow> ready s \<subseteq> ready s'"
  by (induction rule: pool_step.induct) auto

lemma stalled:
  assumes "fresh s0" and "step\<^sup>*\<^sup>* s0 s" and "c < length (tasks s)" and "waits (phase_of s c)"
    and "step\<^sup>*\<^sup>* s s'" and "c \<notin> ready s'"
  shows "shared s' = shared s \<and> tasks s' = tasks s"
proof -
  obtain dn cur where prog: "progress s0 s dn cur" using progress_steps [OF assms(1,2)] by blast
  from waits_outer [OF assms(4)] progress_locks [OF assms(1) prog assms(3)] have cur: "cur = Some c" by auto
  from assms(5,6) have "s' = s\<lparr>ready := ready s'\<rparr>"
  proof (induction rule: rtranclp_induct)
    case (step y z)
    with ready_grows have "c \<notin> ready y" by blast
    with step have y: "y = s\<lparr>ready := ready y\<rparr>" by blast
    then have "progress s0 y dn (Some c)" using prog cur progress_ready by metis
    moreover from y assms(4) have "waits (phase_of y c)" by (metis phase_of_def pool.select_convs(2) pool.surjective pool.update_convs(3))
    ultimately have "z = y\<lparr>ready := ready z\<rparr>" using stalled_step [OF assms(1)] step by blast
    with y show ?case by (metis pool.surjective pool.update_convs(3))
  qed simp
  then show ?thesis by (metis pool.select_convs(1,2) pool.surjective pool.update_convs(3))
qed

text \<open>Every run is finite.\<close>

definition total :: "('w, 'u, 'p) pool \<Rightarrow> nat" where
  "total s = (\<Sum>i < length (tasks s). rank (phase_of s i)) + card ({..< length (tasks s)} - ready s)"

lemma step_total: "step s s' \<Longrightarrow> total s' < total s"
proof (induction rule: pool_step.induct)
  case (client_acts i s)
  then have "card ({..< length (tasks s)} - insert i (ready s)) < card ({..< length (tasks s)} - ready s)"
    by (intro psubset_card_mono) auto
  then show ?case by (simp add: total_def phase_of_def)
next
  case (task_acts i s u p w' u' p')
  let ?s' = "s\<lparr>shared := w', tasks := (tasks s)[i := (u', p')]\<rparr>"
  have "(\<Sum>j < length (tasks s). rank (phase_of ?s' j)) < (\<Sum>j < length (tasks s). rank (phase_of s j))"
  proof (rule sum_strict_mono_ex1)
    show "\<forall>j \<in> {..< length (tasks s)}. rank (phase_of ?s' j) \<le> rank (phase_of s j)"
      using task_acts rank_advance [OF task_acts(5,3)] by (auto simp: phase_of_def nth_list_update)
    show "\<exists>j \<in> {..< length (tasks s)}. rank (phase_of ?s' j) < rank (phase_of s j)"
      using task_acts rank_advance [OF task_acts(5,3)] by (auto simp: phase_of_def intro!: bexI [of _ i])
  qed simp
  then show ?case by (simp add: total_def)
qed

lemma steps_bounded: "(step ^^ k) s0 s \<Longrightarrow> k + total s \<le> total s0"
proof (induction k arbitrary: s)
  case (Suc k)
  then obtain y where "(step ^^ k) s0 y" "step y s" by auto
  with Suc.IH [of y] step_total [of y s] show ?case by simp
qed simp

end

end
