(* ===== verification/Agent_Tasks.thy ===== *)
theory Agent_Tasks imports Agent_Api Task_Pool begin

text \<open>
  The handlers of the Workload API as concurrent tasks (\<^verbatim>\<open>run_workload_api\<close> spawns one per
  connection): \<^verbatim>\<open>handle_workload_conn\<close>, \<^verbatim>\<open>get_or_fetch_credentials\<close> and \<^verbatim>\<open>request_cert_on_demand\<close>
  cut at their suspension points, with the guards of the four mutexes of \<^verbatim>\<open>AgentState\<close> that are
  in scope there. The guard of \<open>workloads\<close> lives until the handler returns.
\<close>

section \<open>Phases of a handler\<close>

datatype agent_lock = Workloads | Cache | Dial | Listener

datatype phase =
    Waiting process
  | Attested string
  | Refusing string
  | Wants_Cache string
  | Consulting string
  | Wants_Dial string generated_csr
  | Wants_Listener string generated_csr
  | Releasing string generated_csr
  | Dialling string generated_csr
  | Wants_Restore string generated_csr agent_response nat
  | Restoring string generated_csr agent_response nat
  | Storing string x509_credentials
  | Answering x509_credentials
  | Ended "unit result"

fun phase_locks :: "phase \<Rightarrow> agent_lock set" where
  "phase_locks (Waiting p) = {}"
| "phase_locks (Attested name) = {Workloads}"
| "phase_locks (Refusing msg) = {Workloads}"
| "phase_locks (Wants_Cache name) = {Workloads}"
| "phase_locks (Consulting name) = {Workloads, Cache}"
| "phase_locks (Wants_Dial name gen) = {Workloads, Cache}"
| "phase_locks (Wants_Listener name gen) = {Workloads, Cache, Dial}"
| "phase_locks (Releasing name gen) = {Workloads, Cache, Dial, Listener}"
| "phase_locks (Dialling name gen) = {Workloads, Cache, Dial}"
| "phase_locks (Wants_Restore name gen resp l) = {Workloads, Cache, Dial}"
| "phase_locks (Restoring name gen resp l) = {Workloads, Cache, Dial, Listener}"
| "phase_locks (Storing name creds) = {Workloads, Cache}"
| "phase_locks (Answering creds) = {Workloads}"
| "phase_locks (Ended r) = {}"

text \<open>The handler waits for its client while it reads the request line.\<close>

fun phase_waits :: "phase \<Rightarrow> bool" where
  "phase_waits (Attested name) = True"
| "phase_waits _ = False"

fun phase_outcome :: "phase \<Rightarrow> unit result option" where
  "phase_outcome (Ended r) = Some r"
| "phase_outcome _ = None"

fun phase_rank :: "phase \<Rightarrow> nat" where
  "phase_rank (Waiting p) = 13"
| "phase_rank (Attested name) = 12"
| "phase_rank (Wants_Cache name) = 11"
| "phase_rank (Consulting name) = 10"
| "phase_rank (Wants_Dial name gen) = 9"
| "phase_rank (Wants_Listener name gen) = 8"
| "phase_rank (Releasing name gen) = 7"
| "phase_rank (Dialling name gen) = 6"
| "phase_rank (Wants_Restore name gen resp l) = 5"
| "phase_rank (Restoring name gen resp l) = 4"
| "phase_rank (Storing name creds) = 3"
| "phase_rank (Answering creds) = 2"
| "phase_rank (Refusing msg) = 1"
| "phase_rank (Ended r) = 0"

section \<open>Steps\<close>

text \<open>A task's phase after an operation: its value continues, its error ends the task.\<close>

definition go_on :: "('s, 'a) io \<Rightarrow> ('a \<Rightarrow> phase) \<Rightarrow> 's \<Rightarrow> 's \<times> phase" where
  "go_on m f s = (case m s of (s', Inl e) \<Rightarrow> (s', Ended (Inl e)) | (s', Inr x) \<Rightarrow> (s', f x))"

definition dial_and_bind ::
  "agent_env \<Rightarrow> agent_config \<Rightarrow> string \<Rightarrow> generated_csr \<Rightarrow> (agent_world, agent_response \<times> nat) io" where
  "dial_and_bind env config name gen =
     io_bind (io_context ''vsock connect on demand failed''
                (on_os (connect_with_local_port (host_cid env) (agent_server_port config)
                          (client_port config)))) (\<lambda>c.
     io_bind (on_os (exchange env ''sending CertRequest'' ''receiving AgentResponse''
                (CertRequest PROTOCOL_VERSION (agent_vm_name config) name (gen_csr_pem gen)) c)) (\<lambda>resp.
     io_bind (on_os (bind_listener (client_port config) rebind_failure)) (\<lambda>l.
     io_ok (resp, l))))"

definition judge_response :: "string \<Rightarrow> generated_csr \<Rightarrow> agent_response \<Rightarrow> x509_credentials result" where
  "judge_response name gen resp =
     (case resp of
        CertOk cert ca_pem \<Rightarrow>
          Inr \<lparr>cred_cert_pem = cert, cred_key_pem = gen_key_pem gen, cred_ca_cert_pem = ca_pem\<rparr>
      | AgentError message \<Rightarrow>
          Inl (Bail (Msg (''Server rejected request for '' @ quoted name @ '': '' @ message)))
      | HandshakeOk _ \<Rightarrow> Inl (Bail (Msg ''Unexpected response from host CA'')))"

definition store_creds :: "nat \<Rightarrow> string \<Rightarrow> x509_credentials \<Rightarrow> (agent_world, unit) io" where
  "store_creds later name creds ws =
     (case ws of (w, st) \<Rightarrow>
        ((w, st\<lparr>cache := AList.update name \<lparr>cached_creds = creds, fetched_at = later\<rparr> (cache st)\<rparr>), Inr ()))"

definition fresh_in_cache :: "('k, 'c) agent_pki \<Rightarrow> nat \<Rightarrow> string \<Rightarrow> agent_world \<Rightarrow> x509_credentials option" where
  "fresh_in_cache pki now name ws =
     (case map_of (cache (snd ws)) name of
        None \<Rightarrow> None
      | Some cached \<Rightarrow>
          if now - fetched_at cached
             < rotation_threshold (agent_x509 pki) (cred_cert_pem (cached_creds cached))
          then Some (cached_creds cached) else None)"

fun advance ::
  "agent_env \<Rightarrow> ('k, 'c) agent_pki \<Rightarrow> agent_config \<Rightarrow> api_env \<Rightarrow> tick \<Rightarrow> phase \<Rightarrow> api_state \<Rightarrow> api_state \<times> phase"
  where
  "advance env pki config api t (Waiting p) s =
     (s, case match_workload (api_accounts api) (workloads (snd (fst s))) p of
           None \<Rightarrow> Refusing (attestation_failed api p)
         | Some name \<Rightarrow> Attested name)"
| "advance env pki config api t (Attested name) s =
     go_on (on_uds read_line) (\<lambda>line.
       if line = [] then Ended (Inr ())
       else case de_workload api line of
              Inl e \<Rightarrow> Ended (Inl e)
            | Inr req \<Rightarrow> if req_type req \<noteq> ''fetch''
                         then Refusing (''Unsupported request type: '' @ req_type req)
                         else Wants_Cache name) s"
| "advance env pki config api t (Refusing msg) s =
     go_on (respond api (WorkloadError msg)) (\<lambda>x. Ended (Inr x)) s"
| "advance env pki config api t (Wants_Cache name) s = (s, Consulting name)"
| "advance env pki config api t (Consulting name) s =
     (s, case fresh_in_cache pki (tick_now t) name (fst s) of
           Some creds \<Rightarrow> Answering creds
         | None \<Rightarrow>
             (case map_err (with_context (''CSR generation for identity '' @ quoted name))
                     (generate_csr (agent_crypto pki) (tick_seed t) name) of
                Inl e \<Rightarrow> Ended (Inl e)
              | Inr gen \<Rightarrow> Wants_Dial name gen))"
| "advance env pki config api t (Wants_Dial name gen) s = (s, Wants_Listener name gen)"
| "advance env pki config api t (Wants_Listener name gen) s = (s, Releasing name gen)"
| "advance env pki config api t (Releasing name gen) s =
     go_on (on_world (set_listener None)) (\<lambda>_. Dialling name gen) s"
| "advance env pki config api t (Dialling name gen) s =
     go_on (on_world (dial_and_bind env config name gen)) (\<lambda>(resp, l). Wants_Restore name gen resp l) s"
| "advance env pki config api t (Wants_Restore name gen resp l) s = (s, Restoring name gen resp l)"
| "advance env pki config api t (Restoring name gen resp l) s =
     go_on (on_world (set_listener (Some l))) (\<lambda>_.
       case judge_response name gen resp of Inl e \<Rightarrow> Ended (Inl e) | Inr creds \<Rightarrow> Storing name creds) s"
| "advance env pki config api t (Storing name creds) s =
     go_on (on_world (store_creds (tick_later t) name creds)) (\<lambda>_. Answering creds) s"
| "advance env pki config api t (Answering creds) s =
     go_on (respond api (Success (cred_cert_pem creds) (cred_key_pem creds) (cred_ca_cert_pem creds)))
       (\<lambda>x. Ended (Inr x)) s"
| "advance env pki config api t (Ended r) s = (s, Ended r)"

text \<open>A handler asks for its peer's credentials and looks up the process before it takes a lock.\<close>

definition first_phase :: "api_env \<Rightarrow> phase" where
  "first_phase api =
     (case peer_cred api of
        Inl e \<Rightarrow> Ended (Inl e)
      | Inr (uid, gid, opt_pid) \<Rightarrow> Waiting (peer_process api uid gid opt_pid))"

section \<open>What is left to do\<close>

definition finish_answering :: "api_env \<Rightarrow> x509_credentials \<Rightarrow> (api_state, unit) io" where
  "finish_answering api creds =
     respond api (Success (cred_cert_pem creds) (cred_key_pem creds) (cred_ca_cert_pem creds))"

definition finish_storing :: "api_env \<Rightarrow> tick \<Rightarrow> string \<Rightarrow> x509_credentials \<Rightarrow> (api_state, unit) io" where
  "finish_storing api t name creds =
     io_bind (on_world (store_creds (tick_later t) name creds)) (\<lambda>_. finish_answering api creds)"

definition finish_restoring ::
  "api_env \<Rightarrow> tick \<Rightarrow> string \<Rightarrow> generated_csr \<Rightarrow> agent_response \<Rightarrow> nat \<Rightarrow> (api_state, unit) io" where
  "finish_restoring api t name gen resp l =
     io_bind (on_world (set_listener (Some l))) (\<lambda>_.
     io_bind (io_lift (judge_response name gen resp)) (finish_storing api t name))"

definition finish_dialling ::
  "agent_env \<Rightarrow> agent_config \<Rightarrow> api_env \<Rightarrow> tick \<Rightarrow> string \<Rightarrow> generated_csr \<Rightarrow> (api_state, unit) io" where
  "finish_dialling env config api t name gen =
     io_bind (on_world (dial_and_bind env config name gen)) (\<lambda>(resp, l). finish_restoring api t name gen resp l)"

definition finish_releasing ::
  "agent_env \<Rightarrow> agent_config \<Rightarrow> api_env \<Rightarrow> tick \<Rightarrow> string \<Rightarrow> generated_csr \<Rightarrow> (api_state, unit) io" where
  "finish_releasing env config api t name gen =
     io_bind (on_world (set_listener None)) (\<lambda>_. finish_dialling env config api t name gen)"

definition finish_fetching ::
  "agent_env \<Rightarrow> ('k, 'c) agent_pki \<Rightarrow> agent_config \<Rightarrow> api_env \<Rightarrow> tick \<Rightarrow> string \<Rightarrow> (api_state, unit) io" where
  "finish_fetching env pki config api t name =
     io_bind (on_world (get_or_fetch_credentials env pki (tick_seed t) (tick_now t) (tick_later t) config name))
       (finish_answering api)"

fun remaining ::
  "agent_env \<Rightarrow> ('k, 'c) agent_pki \<Rightarrow> agent_config \<Rightarrow> api_env \<Rightarrow> tick \<Rightarrow> phase \<Rightarrow> (api_state, unit) io"
  where
  "remaining env pki config api t (Waiting p) =
     (\<lambda>s. case match_workload (api_accounts api) (workloads (snd (fst s))) p of
            None \<Rightarrow> respond api (WorkloadError (attestation_failed api p)) s
          | Some name \<Rightarrow> handle_attested api env pki config t name s)"
| "remaining env pki config api t (Attested name) = handle_attested api env pki config t name"
| "remaining env pki config api t (Refusing msg) = respond api (WorkloadError msg)"
| "remaining env pki config api t (Wants_Cache name) = finish_fetching env pki config api t name"
| "remaining env pki config api t (Consulting name) = finish_fetching env pki config api t name"
| "remaining env pki config api t (Wants_Dial name gen) = finish_releasing env config api t name gen"
| "remaining env pki config api t (Wants_Listener name gen) = finish_releasing env config api t name gen"
| "remaining env pki config api t (Releasing name gen) = finish_releasing env config api t name gen"
| "remaining env pki config api t (Dialling name gen) = finish_dialling env config api t name gen"
| "remaining env pki config api t (Wants_Restore name gen resp l) = finish_restoring api t name gen resp l"
| "remaining env pki config api t (Restoring name gen resp l) = finish_restoring api t name gen resp l"
| "remaining env pki config api t (Storing name creds) = finish_storing api t name creds"
| "remaining env pki config api t (Answering creds) = finish_answering api creds"
| "remaining env pki config api t (Ended r) = io_lift r"

lemma on_world_bind: "on_world (io_bind m f) = io_bind (on_world m) (\<lambda>x. on_world (f x))"
  by (auto simp: fun_eq_iff on_world_def io_bind_def split: prod.splits sum.splits)

lemma on_world_lift: "on_world (io_lift r) = io_lift r" "on_world (io_ok x) = io_ok x"
  by (auto simp: fun_eq_iff on_world_def io_lift_def io_ok_def)

lemma io_bind_go_on:
  assumes "go_on m f s = (s', p')" and "\<And>x s. k x s = remaining env pki config api t (f x) s"
  shows "io_bind m k s = remaining env pki config api t p' s'"
  using assms by (auto simp: go_on_def io_bind_def io_lift_def split: prod.splits sum.splits)

lemma go_on_end:
  assumes "go_on m (\<lambda>x. Ended (Inr x)) s = (s', p')"
  shows "m s = remaining env pki config api t p' s'"
  using assms by (auto simp: go_on_def io_lift_def split: prod.splits sum.splits)

lemma get_or_fetch_split:
  "get_or_fetch_credentials env pki seed now later config name ws =
     (case fresh_in_cache pki now name ws of
        Some creds \<Rightarrow> (ws, Inr creds)
      | None \<Rightarrow> io_bind (request_cert_on_demand env pki seed config name)
          (\<lambda>creds. io_bind (store_creds later name creds) (\<lambda>_. io_ok creds)) ws)"
proof -
  have "(\<lambda>(w, st). ((w, st\<lparr>cache := AList.update name
            \<lparr>cached_creds = creds, fetched_at = later\<rparr> (cache st)\<rparr>), Inr creds))
      = io_bind (store_creds later name creds) (\<lambda>_. io_ok creds)" for creds
    by (auto simp: fun_eq_iff io_bind_def store_creds_def io_ok_def)
  then show ?thesis
    by (simp add: get_or_fetch_credentials_def fresh_in_cache_def Let_def split: option.splits)
qed

lemma request_split:
  "request_cert_on_demand env pki seed config name =
     io_bind (io_lift (map_err (with_context (''CSR generation for identity '' @ quoted name))
        (generate_csr (agent_crypto pki) seed name))) (\<lambda>gen.
     io_bind (set_listener None) (\<lambda>_.
     io_bind (dial_and_bind env config name gen) (\<lambda>(resp, l).
     io_bind (set_listener (Some l)) (\<lambda>_. io_lift (judge_response name gen resp)))))"
proof -
  have lift: "io_context c (io_lift r) = io_lift (map_err (with_context c) r)"
    for c and r :: "generated_csr result"
    by (auto simp: fun_eq_iff io_context_def io_lift_def)
  have judge: "(case resp of
       CertOk cert ca_pem \<Rightarrow>
         io_ok \<lparr>cred_cert_pem = cert, cred_key_pem = gen_key_pem gen, cred_ca_cert_pem = ca_pem\<rparr>
     | AgentError message \<Rightarrow>
         io_fail (Bail (Msg (''Server rejected request for '' @ quoted name @ '': '' @ message)))
     | HandshakeOk _ \<Rightarrow> io_fail (Bail (Msg ''Unexpected response from host CA'')))
    = io_lift (judge_response name gen resp)" for resp gen
    by (auto simp: fun_eq_iff judge_response_def io_ok_def io_fail_def io_lift_def
        split: agent_response.splits)
  show ?thesis
    unfolding request_cert_on_demand_def lift judge dial_and_bind_def
    by (simp add: io_bind_assoc)
qed

lemma finish_fetching_split:
  "finish_fetching env pki config api t name s =
     (case fresh_in_cache pki (tick_now t) name (fst s) of
        Some creds \<Rightarrow> finish_answering api creds s
      | None \<Rightarrow> io_bind (io_lift (map_err (with_context (''CSR generation for identity '' @ quoted name))
            (generate_csr (agent_crypto pki) (tick_seed t) name))) (finish_releasing env config api t name) s)"
proof (cases "fresh_in_cache pki (tick_now t) name (fst s)")
  case None
  then have "finish_fetching env pki config api t name s =
      io_bind (on_world (io_bind (request_cert_on_demand env pki (tick_seed t) config name)
          (\<lambda>creds. io_bind (store_creds (tick_later t) name creds) (\<lambda>_. io_ok creds))))
        (finish_answering api) s"
    by (simp add: finish_fetching_def io_bind_def [of "on_world m" for m] on_world_def get_or_fetch_split)
  also have "\<dots> = io_bind (io_lift (map_err (with_context (''CSR generation for identity '' @ quoted name))
            (generate_csr (agent_crypto pki) (tick_seed t) name))) (finish_releasing env config api t name) s"
    unfolding request_split finish_releasing_def [abs_def] finish_dialling_def finish_restoring_def
      finish_storing_def [abs_def]
    by (simp add: on_world_bind on_world_lift io_bind_assoc split_def)
  finally show ?thesis using None by simp
next
  case (Some creds)
  then show ?thesis
    by (simp add: finish_fetching_def io_bind_def on_world_def get_or_fetch_split)
qed

section \<open>The interface of the pool\<close>

lemma remaining_advance:
  assumes "advance env pki config api t p s = (s', p')" and "phase_outcome p = None"
  shows "remaining env pki config api t p s = remaining env pki config api t p' s'"
proof (cases p)
  case (Waiting q)
  with assms show ?thesis by (auto split: option.splits)
next
  case (Attested name)
  show ?thesis
    unfolding Attested remaining.simps handle_attested_def
    by (rule io_bind_go_on [OF assms(1) [unfolded Attested advance.simps]])
      (auto simp: io_lift_def io_ok_def io_bind_def finish_fetching_def finish_answering_def [abs_def]
        split: sum.splits)
next
  case (Refusing msg)
  from go_on_end [OF assms(1) [unfolded Refusing advance.simps]] show ?thesis by (simp add: Refusing)
next
  case (Consulting name)
  with assms show ?thesis
    by (auto simp: finish_fetching_split io_bind_def io_lift_def split: option.splits sum.splits)
next
  case (Releasing name gen)
  show ?thesis
    unfolding Releasing remaining.simps finish_releasing_def
    by (rule io_bind_go_on [OF assms(1) [unfolded Releasing advance.simps]]) simp
next
  case (Dialling name gen)
  show ?thesis
    unfolding Dialling remaining.simps finish_dialling_def
    by (rule io_bind_go_on [OF assms(1) [unfolded Dialling advance.simps]]) (simp add: split_def)
next
  case (Restoring name gen resp l)
  show ?thesis
    unfolding Restoring remaining.simps finish_restoring_def
    by (rule io_bind_go_on [OF assms(1) [unfolded Restoring advance.simps]]) (auto simp: io_bind_def io_lift_def split: sum.splits)
next
  case (Storing name creds)
  show ?thesis
    unfolding Storing remaining.simps finish_storing_def
    by (rule io_bind_go_on [OF assms(1) [unfolded Storing advance.simps]]) simp
next
  case (Answering creds)
  from go_on_end [OF assms(1) [unfolded Answering advance.simps]] show ?thesis
    by (simp add: Answering finish_answering_def)
qed (use assms in auto)

lemma advance_phase_cases:
  assumes "advance env pki config api t p s = (s', p')" and "phase_outcome p = None"
  shows "phase_outcome p' = None \<longrightarrow> Workloads \<in> phase_locks p'"
    and "Workloads \<notin> phase_locks p \<longrightarrow> phase_outcome p' = None"
    and "phase_rank p' < phase_rank p"
  using assms
  by (cases p; auto simp: go_on_def split: prod.splits sum.splits option.splits if_splits)+

interpretation handlers: outer_locked "\<lambda>i. advance env pki config (apis i) (ticks i)" phase_locks phase_waits
  phase_outcome "\<lambda>i. remaining env pki config (apis i) (ticks i)" Workloads phase_rank
proof
  fix i p s s' p'
  assume "advance env pki config (apis i) (ticks i) p s = (s', p')" and "phase_outcome p = None"
  note step = this
  show "remaining env pki config (apis i) (ticks i) p s = remaining env pki config (apis i) (ticks i) p' s'"
    by (rule remaining_advance [OF step])
  note phases = advance_phase_cases [OF step]
  show "phase_outcome p' = None \<Longrightarrow> Workloads \<in> phase_locks p'" using phases(1) by (rule mp)
  show "Workloads \<notin> phase_locks p \<Longrightarrow> phase_outcome p' = None" using phases(2) by (rule mp)
  show "phase_rank p' < phase_rank p" by (rule phases(3))
next
  fix p r and s :: api_state and i
  assume "phase_outcome p = Some r"
  then show "remaining env pki config (apis i) (ticks i) p s = (s, r)"
    by (cases p) (simp_all add: io_lift_def)
next
  fix p r
  assume "phase_outcome p = Some r"
  then show "phase_locks p = {}" by (cases p) simp_all
next
  fix l p
  assume "l \<in> phase_locks p"
  then show "Workloads \<in> phase_locks p" by (cases p) simp_all
next
  fix p
  assume "phase_waits p"
  then show "Workloads \<in> phase_locks p" by (cases p) simp_all
qed

section \<open>Concurrent handlers\<close>

definition handler_step ::
  "agent_env \<Rightarrow> ('k, 'c) agent_pki \<Rightarrow> agent_config \<Rightarrow> (nat \<Rightarrow> api_env) \<Rightarrow> (nat \<Rightarrow> tick)
   \<Rightarrow> (agent_world, uds, phase) pool \<Rightarrow> (agent_world, uds, phase) pool \<Rightarrow> bool" where
  "handler_step env pki config apis ticks =
     pool_step (\<lambda>i. advance env pki config (apis i) (ticks i)) phase_locks phase_waits phase_outcome"

text \<open>The handlers of connections \<open>us\<close> as they are spawned.\<close>

definition api_pool :: "(nat \<Rightarrow> api_env) \<Rightarrow> uds list \<Rightarrow> agent_world \<Rightarrow> (agent_world, uds, phase) pool" where
  "api_pool apis us w =
     \<lparr>shared = w, tasks = map (\<lambda>i. (us ! i, first_phase (apis i))) [0 ..< length us], ready = {}\<rparr>"

lemma api_pool_simps [simp]:
  "shared (api_pool apis us w) = w" "length (tasks (api_pool apis us w)) = length us"
  "i < length us \<Longrightarrow> tasks (api_pool apis us w) ! i = (us ! i, first_phase (apis i))"
  "i < length us \<Longrightarrow> phase_of (api_pool apis us w) i = first_phase (apis i)"
  "ready (api_pool apis us w) = {}"
  by (simp_all add: api_pool_def phase_of_def)

lemma first_phase_simps [simp]:
  "phase_locks (first_phase api) = {}" "phase_rank (first_phase api) \<le> 13" "\<not> phase_waits (first_phase api)"
  by (auto simp: first_phase_def split: sum.splits)

lemma first_phase_outcome: "phase_outcome (first_phase api) = None \<longleftrightarrow> (\<exists>c. peer_cred api = Inr c)"
  by (auto simp: first_phase_def split: sum.splits)

lemma remaining_first: "remaining env pki config api t (first_phase api) s = handle_workload_conn api env pki config t s"
  by (cases s) (auto simp: first_phase_def handle_workload_conn_eq io_lift_def split: sum.splits option.splits)

lemma fresh_api_pool: "handlers.fresh (api_pool apis us w)"
  by (simp add: handlers.fresh_def)

lemma loop_serial:
  "serial (\<lambda>i. handle_workload_conn (apis i) env pki config (ticks i)) u0 is w = (w', outs) \<Longrightarrow>
     workload_api_loop env pki config (map (\<lambda>i. (Accepted (apis i) (u0 i), ticks i)) is) w
       = (w', map (\<lambda>(i, u, r). u) outs)"
  by (induction "is" arbitrary: w outs) (auto split: prod.splits)

lemma serial_cong:
  "(\<And>i s. i \<in> set is \<Longrightarrow> h i s = h' i s) \<Longrightarrow> (\<And>i. i \<in> set is \<Longrightarrow> u0 i = u1 i) \<Longrightarrow> serial h u0 is w = serial h' u1 is w"
  by (induction "is" arbitrary: w) (auto split: prod.splits)

lemma handlers_linearized:
  assumes "(handler_step env pki config apis ticks)\<^sup>*\<^sup>* (api_pool apis us w) s"
    and ended: "\<forall>i < length (tasks s). phase_outcome (phase_of s i) \<noteq> None"
  shows "\<exists>order. distinct order \<and> set order = {i. i < length us \<and> (\<exists>c. peer_cred (apis i) = Inr c)}
    \<and> workload_api_loop env pki config (map (\<lambda>i. (Accepted (apis i) (us ! i), ticks i)) order) w
        = (shared s, map (\<lambda>i. fst (tasks s ! i)) order)"
proof -
  let ?s0 = "api_pool apis us w"
  from handlers.linearized [OF fresh_api_pool assms(1) [unfolded handler_step_def] ended]
  obtain order outs where order: "distinct order"
    "set order = {i. i < length us \<and> phase_outcome (phase_of ?s0 i) = None}"
    and ser: "serial (\<lambda>i. remaining env pki config (apis i) (ticks i) (phase_of ?s0 i)) (\<lambda>i. fst (tasks ?s0 ! i)) order w
      = (shared s, outs)"
    and fin: "handlers.finished_as s outs"
    by auto
  have "serial (\<lambda>i. handle_workload_conn (apis i) env pki config (ticks i)) (\<lambda>i. us ! i) order w = (shared s, outs)"
    unfolding ser [symmetric] using order(2)
    by (intro serial_cong) (simp_all add: remaining_first)
  note loop = loop_serial [OF this]
  have "map (\<lambda>(i, u, r). u) outs = map (\<lambda>i. fst (tasks s ! i)) (map fst outs)"
    using fin by (auto simp: handlers.finished_as_def)
  also have "map fst outs = order" using serial_ids [OF ser] .
  finally have streams: "map (\<lambda>(i, u, r). u) outs = map (\<lambda>i. fst (tasks s ! i)) order" .
  have "set order = {i. i < length us \<and> (\<exists>c. peer_cred (apis i) = Inr c)}"
    unfolding order(2) by (rule Collect_cong, rule conj_cong) (simp_all only: api_pool_simps first_phase_outcome)
  then show ?thesis
    by (intro exI [of _ order] conjI order(1)) (simp_all only: loop streams)
qed

lemma api_pool_total: "handlers.total (api_pool apis us w) \<le> 14 * length us"
proof -
  have "(\<Sum>i < length us. phase_rank (phase_of (api_pool apis us w) i)) \<le> (\<Sum>i < length us. 13)"
    by (rule sum_mono) simp
  then show ?thesis by (simp add: handlers.total_def)
qed

section \<open>What the mutexes give, and what they cost\<close>

text \<open>
  C6: However the handlers of the connections are interleaved, the agent and every client see
  what some sequence of whole handlers gives: once all handlers have returned, there is an order
  of those that got their peer's credentials in which the sequential loop has the same final
  state and the same streams. So nothing that is proved of the sequential loop is lost.
\<close>
theorem concurrent_handlers_serial:
  assumes "(handler_step env pki config apis ticks)\<^sup>*\<^sup>* (api_pool apis us w) s"
    and "\<forall>i < length (tasks s). phase_outcome (phase_of s i) \<noteq> None"
  shows "\<exists>order. distinct order \<and> set order = {i. i < length us \<and> (\<exists>c. peer_cred (apis i) = Inr c)}
    \<and> workload_api_loop env pki config (map (\<lambda>i. (Accepted (apis i) (us ! i), ticks i)) order) w
        = (shared s, map (\<lambda>i. fst (tasks s ! i)) order)"
  by (rule handlers_linearized [OF assms])

text \<open>
  C13: The mutexes cannot deadlock and no handler runs for ever: a run has at most fourteen steps
  per connection, no two handlers ever hold guards, and as long as every handler that waits for
  its client gets its line, one that has not returned can go on.
\<close>
theorem handlers_deadlock_free:
  assumes "(handler_step env pki config apis ticks ^^ k) (api_pool apis us w) s"
  shows "k \<le> 14 * length us
    \<and> (\<forall>i < length us. \<forall>j < length us.
         phase_locks (phase_of s i) \<noteq> {} \<and> phase_locks (phase_of s j) \<noteq> {} \<longrightarrow> i = j)
    \<and> ((\<exists>i < length us. phase_outcome (phase_of s i) = None)
        \<and> (\<forall>i < length us. phase_waits (phase_of s i) \<longrightarrow> i \<in> ready s)
        \<longrightarrow> (\<exists>s'. handler_step env pki config apis ticks s s'))"
proof (intro conjI allI impI; (elim conjE exE)?)
  have "(handler_step env pki config apis ticks)\<^sup>*\<^sup>* (api_pool apis us w) s"
    using assms by (rule relpowp_imp_rtranclp)
  note reach = this [unfolded handler_step_def]
  have len: "length (tasks s) = length us" using handlers.steps_length [OF reach] by simp
  show "k \<le> 14 * length us" using handlers.steps_bounded [OF assms [unfolded handler_step_def]] api_pool_total [of apis us w] by linarith
  show "i = j" if "i < length us" "j < length us" "phase_locks (phase_of s i) \<noteq> {}"
    "phase_locks (phase_of s j) \<noteq> {}" for i j
    using handlers.one_holder [OF fresh_api_pool reach] that len by metis
  show "\<exists>s'. handler_step env pki config apis ticks s s'"
    if "\<forall>i < length us. phase_waits (phase_of s i) \<longrightarrow> i \<in> ready s"
      "i < length us" "phase_outcome (phase_of s i) = None" for i
    using handlers.no_deadlock [OF fresh_api_pool reach] that len
    unfolding handler_step_def by metis
qed

text \<open>
  C12: One client can stop the Workload API for all: while an attested client has connected and
  sends nothing, no step of any other handler changes the agent or any stream, however long the
  run and however many other clients have sent their requests, because the handler reads from
  its client with the guard of \<open>workloads\<close> in scope, without a time limit.
\<close>
theorem silent_client_blocks_all:
  assumes "(handler_step env pki config apis ticks)\<^sup>*\<^sup>* (api_pool apis us w) s"
    and "c < length us" and "phase_of s c = Attested name"
    and "(handler_step env pki config apis ticks)\<^sup>*\<^sup>* s s'" and "c \<notin> ready s'"
  shows "shared s' = shared s \<and> tasks s' = tasks s"
proof -
  note reach = assms(1) [unfolded handler_step_def]
  have "length (tasks s) = length us" using handlers.steps_length [OF reach] by simp
  with assms(2,3) have "c < length (tasks s)" "phase_waits (phase_of s c)" by simp_all
  from handlers.stalled [OF fresh_api_pool reach this assms(4) [unfolded handler_step_def] assms(5)]
  show ?thesis .
qed

section \<open>Two handlers\<close>

abbreviation "sample_apis \<equiv> \<lambda>_ :: nat. sample_api success_new"
abbreviation "sample_ticks \<equiv> \<lambda>_ :: nat. sample_tick"
abbreviation "sample_step \<equiv> handler_step sample_cert_env sample_pki sample_agent_config sample_apis sample_ticks"

definition two_handlers :: "agent_world \<Rightarrow> (agent_world, uds, phase) pool" where
  "two_handlers w = api_pool sample_apis [sample_uds, sample_uds] w"

definition one_reading :: "(agent_world, uds, phase) pool" where
  "one_reading = (two_handlers alice_world)
     \<lparr>shared := alice_world, tasks := (tasks (two_handlers alice_world))[0 := (sample_uds, Attested ''a'')]\<rparr>"

lemma sample_first:
  "first_phase (sample_api r) = Waiting (peer_process (sample_api r) 1000 100 (Some 7))"
  by (simp add: first_phase_def sample_api_def)

lemma one_reading_step: "sample_step (two_handlers alice_world) one_reading"
proof -
  let ?s = "two_handlers alice_world" and ?p = "peer_process (sample_api success_new) 1000 100 (Some 7)"
  have "workloads (snd alice_world) = [(''a'', alice_only)]" by (simp add: alice_world_def)
  moreover have "api_accounts (sample_api success_new) = sample_accounts" by (simp add: sample_api_def)
  ultimately have "advance sample_cert_env sample_pki sample_agent_config (sample_api success_new) sample_tick
      (Waiting ?p) (alice_world, sample_uds) = ((alice_world, sample_uds), Attested ''a'')"
    by (simp add: sample_match)
  moreover have "tasks ?s ! 0 = (sample_uds, Waiting ?p)" "length (tasks ?s) = 2" "shared ?s = alice_world"
    by (simp_all add: two_handlers_def sample_first)
  moreover have "lock_free phase_locks ?s 0 l" for l
    by (simp add: lock_free_def two_handlers_def)
  ultimately have "sample_step ?s (?s\<lparr>shared := alice_world, tasks := (tasks ?s)[0 := (sample_uds, Attested ''a'')]\<rparr>)"
    unfolding handler_step_def by (intro pool_step.task_acts [where p = "Waiting ?p"]) simp_all
  then show ?thesis by (simp only: one_reading_def)
qed

lemma one_reading_client: "sample_step one_reading (one_reading\<lparr>ready := {1}\<rparr>)"
proof -
  have "1 < length (tasks one_reading)" "ready one_reading = {}"
    by (simp_all add: one_reading_def two_handlers_def)
  then show ?thesis
    unfolding handler_step_def using pool_step.client_acts [of 1 one_reading] by (metis insert_absorb2 empty_iff)
qed

theorem silent_client_blocks_all_witness:
  "shared (one_reading\<lparr>ready := {1}\<rparr>) = shared one_reading"
proof -
  have "0 < length [sample_uds, sample_uds]" "phase_of one_reading 0 = Attested ''a''" "0 \<notin> ready (one_reading\<lparr>ready := {1}\<rparr>)"
    by (simp_all add: one_reading_def phase_of_def two_handlers_def)
  from silent_client_blocks_all [OF r_into_rtranclp [of sample_step, OF one_reading_step [unfolded two_handlers_def]]
      this(1,2) r_into_rtranclp [of sample_step, OF one_reading_client] this(3)]
  show ?thesis by blast
qed

theorem handlers_deadlock_free_witness:
  "\<exists>s'. sample_step (one_reading\<lparr>ready := {0, 1}\<rparr>) s'"
proof -
  have "0 < length (tasks (one_reading\<lparr>ready := {1}\<rparr>))" "0 \<notin> ready (one_reading\<lparr>ready := {1}\<rparr>)"
    by (simp_all add: one_reading_def two_handlers_def)
  from pool_step.client_acts [OF this] have
    "sample_step (one_reading\<lparr>ready := {1}\<rparr>) (one_reading\<lparr>ready := {0, 1}\<rparr>)"
    unfolding handler_step_def by simp
  with one_reading_step one_reading_client have
    run: "(sample_step ^^ 3) (api_pool sample_apis [sample_uds, sample_uds] alice_world) (one_reading\<lparr>ready := {0, 1}\<rparr>)"
    by (auto simp: numeral_3_eq_3 two_handlers_def)
  have "phase_outcome (phase_of (one_reading\<lparr>ready := {0, 1}\<rparr>) 0) = None"
    by (simp add: one_reading_def phase_of_def two_handlers_def)
  moreover have "ready (one_reading\<lparr>ready := {0, 1}\<rparr>) = {0, 1}" by simp
  ultimately show ?thesis
    using handlers_deadlock_free [OF run] by (auto simp: less_Suc_eq numeral_2_eq_2)
qed

text \<open>A single handler that refuses its client, from its start to its end.\<close>

lemma refused_run:
  fixes w :: agent_world
  assumes "workloads (snd w) = []"
  shows "\<exists>s u. (sample_step)\<^sup>*\<^sup>* (api_pool sample_apis [sample_uds] w) s \<and> tasks s = [(u, Ended (Inr ()))]"
proof -
  let ?p = "peer_process (sample_api success_new) 1000 100 (Some 7)"
  let ?msg = "attestation_failed (sample_api success_new) ?p"
  let ?s0 = "api_pool sample_apis [sample_uds] w"
  let ?s1 = "?s0\<lparr>shared := w, tasks := (tasks ?s0)[0 := (sample_uds, Refusing ?msg)]\<rparr>"
  have none: "match_workload (api_accounts (sample_api success_new)) [] ?p = None"
    by (simp add: match_workload_def)
  have free: "lock_free phase_locks s 0 l" if "length (tasks s) = 1" for s :: "(agent_world, uds, phase) pool" and l
    using that by (simp add: lock_free_def)
  have one: "sample_step ?s0 ?s1"
    unfolding handler_step_def using assms none
    by (intro pool_step.task_acts [where p = "Waiting ?p"]) (simp_all add: sample_first free)
  obtain u where u: "respond (sample_api success_new) (WorkloadError ?msg) (w, sample_uds) = ((w, u), Inr ())"
    by (simp add: respond_def io_bind_def io_lift_def sample_api_def success_new_def on_uds_def
        write_line_def write_all_def sample_uds_def sample_stream_def)
  have "advance sample_cert_env sample_pki sample_agent_config (sample_api success_new) sample_tick
      (Refusing ?msg) (w, sample_uds) = ((w, u), Ended (Inr ()))"
    by (simp only: advance.simps go_on_def u prod.case sum.case)
  moreover have "tasks ?s1 ! 0 = (sample_uds, Refusing ?msg)" "shared ?s1 = w" "length (tasks ?s1) = 1" by simp_all
  ultimately have "sample_step ?s1 (?s1\<lparr>shared := w, tasks := (tasks ?s1)[0 := (u, Ended (Inr ()))]\<rparr>)"
    unfolding handler_step_def
    by (intro pool_step.task_acts [where p = "Refusing ?msg"]) (simp_all add: free del: advance.simps)
  moreover have "(tasks ?s1)[0 := (u, Ended (Inr ()))] = [(u, Ended (Inr ()))]" by (simp add: api_pool_def)
  ultimately show ?thesis using one
    by (intro exI [of _ "?s1\<lparr>shared := w, tasks := (tasks ?s1)[0 := (u, Ended (Inr ()))]\<rparr>"] exI [of _ u] conjI)
      (auto intro: rtranclp.rtrancl_into_rtrancl [of sample_step])
qed

lemma distinct_singleton_set: "distinct xs \<Longrightarrow> set xs = {x} \<Longrightarrow> xs = [x]"
  by (cases xs; cases "tl xs") auto

theorem concurrent_handlers_serial_witness:
  "\<exists>w u. workload_api_loop sample_cert_env sample_pki sample_agent_config
       [(Accepted (sample_api success_new) sample_uds, sample_tick)]
       (fst alice_world, (snd alice_world)\<lparr>workloads := []\<rparr>) = (w, [u])"
proof -
  let ?w = "(fst alice_world, (snd alice_world)\<lparr>workloads := []\<rparr>)"
  obtain s u where run: "(sample_step)\<^sup>*\<^sup>* (api_pool sample_apis [sample_uds] ?w) s"
    and s: "tasks s = [(u, Ended (Inr ()))]"
    using refused_run [of ?w] by auto
  from s have "\<forall>i < length (tasks s). phase_outcome (phase_of s i) \<noteq> None" by (simp add: phase_of_def)
  note serial_order = concurrent_handlers_serial [OF run this]
  have "{i. i < length [sample_uds] \<and> (\<exists>c. peer_cred (sample_api success_new) = Inr c)} = {0}"
    by (auto simp: sample_api_def)
  from serial_order [unfolded this] obtain order where order: "distinct order" "set order = {0}"
    and loop: "workload_api_loop sample_cert_env sample_pki sample_agent_config
        (map (\<lambda>i. (Accepted (sample_api success_new) ([sample_uds] ! i), sample_tick)) order) ?w
      = (shared s, map (\<lambda>i. fst (tasks s ! i)) order)"
    by blast
  from loop [unfolded distinct_singleton_set [OF order] list.map nth_Cons_0 s fst_conv]
  show ?thesis by (intro exI)
qed

end
