(* ===== verification/Workload_Client.thy ===== *)
theory Workload_Client imports Local_Stream Wire begin

text \<open>
  The client library of the workloads (\<^verbatim>\<open>libs/rust-libs/authn-scope-workload/src/lib.rs\<close>): one
  fetch over the agent's local socket, and the background task that refreshes the cached
  credentials. The connections of a client are numbered; the model says for each of them what
  connecting meets, and logs every stream as it was when it was closed.
\<close>

section \<open>The client\<close>

record client_env =
  ser_fetch :: "workload_request \<Rightarrow> u8 list result"
  de_reply :: "u8 list \<Rightarrow> workload_response result"

record client_net =
  conns :: "nat \<Rightarrow> string + uds"
  conn_no :: nat
  closed :: "uds list"
  waited :: nat

record workload_client =
  socket_path :: string
  cached :: "x509_credentials option"

definition new_client :: "string \<Rightarrow> workload_client" where
  "new_client path = \<lparr>socket_path = path, cached = None\<rparr>"

definition current_credentials :: "workload_client \<Rightarrow> x509_credentials option" where
  "current_credentials client = cached client"

text \<open>The conversation on one stream, and a fetch on a new one.\<close>

definition converse :: "client_env \<Rightarrow> (uds, x509_credentials) io" where
  "converse env =
     io_bind (io_lift (ser_fetch env \<lparr>req_type = ''fetch''\<rparr>)) (\<lambda>req_json.
     io_bind (write_line req_json) (\<lambda>_.
     io_bind read_line (\<lambda>line.
     if line = []
     then io_fail (Bail (Msg ''Workload API closed connection without sending a response''))
     else io_bind (io_context ''Parsing WorkloadResponse'' (io_lift (de_reply env line))) (\<lambda>resp.
     case resp of
       Success cert key ca \<Rightarrow>
         io_ok \<lparr>cred_cert_pem = cert, cred_key_pem = key, cred_ca_cert_pem = ca\<rparr>
     | WorkloadError message \<Rightarrow>
         io_fail (Bail (Msg (''Workload API returned error: '' @ message)))))))"

definition fetch_credentials :: "client_env \<Rightarrow> workload_client \<Rightarrow> (client_net, x509_credentials) io"
  where
  "fetch_credentials env client net =
     (let net1 = net\<lparr>conn_no := Suc (conn_no net)\<rparr> in
      case conns net (conn_no net) of
        Inl e \<Rightarrow>
          (net1, Inl (Bail (Context
             (''Failed to connect to Workload API socket at '' @ socket_path client) (Msg e))))
      | Inr u \<Rightarrow> (case converse env u of (u', r) \<Rightarrow> (net1\<lparr>closed := closed net1 @ [u']\<rparr>, r)))"

text \<open>
  The rotation task never ends by itself: \<open>rotation_loop env interval n\<close> is its state after \<open>n\<close>
  rounds. A panic in a fetch ends the task and leaves the cache as it is.
\<close>

fun rotation_loop ::
  "client_env \<Rightarrow> nat \<Rightarrow> nat \<Rightarrow> workload_client \<times> client_net \<Rightarrow> workload_client \<times> client_net" where
  "rotation_loop env interval 0 s = s"
| "rotation_loop env interval (Suc n) (client, net) =
     (case fetch_credentials env client net of
        (net1, Inr creds) \<Rightarrow> rotation_loop env interval n
           (client\<lparr>cached := Some creds\<rparr>, net1\<lparr>waited := waited net1 + interval\<rparr>)
      | (net1, Inl (Bail e)) \<Rightarrow> rotation_loop env interval n
           (client, net1\<lparr>waited := waited net1 + interval\<rparr>)
      | (net1, Inl Panic) \<Rightarrow> (client, net1))"

section \<open>Facts\<close>

lemma converse_Inr:
  "converse env u = (u2, Inr creds) \<longleftrightarrow>
     (\<exists>req u1 line. ser_fetch env \<lparr>req_type = ''fetch''\<rparr> = Inr req \<and> write_line req u = (u1, Inr ())
        \<and> read_line u1 = (u2, Inr line) \<and> line \<noteq> []
        \<and> de_reply env line
            = Inr (Success (cred_cert_pem creds) (cred_key_pem creds) (cred_ca_cert_pem creds)))"
proof -
  have answer: "(case resp of Success cert key ca \<Rightarrow>
         io_ok \<lparr>cred_cert_pem = cert, cred_key_pem = key, cred_ca_cert_pem = ca\<rparr>
       | WorkloadError message \<Rightarrow> io_fail (Bail (Msg (''Workload API returned error: '' @ message)))) v
     = (u2, Inr creds)
     \<longleftrightarrow> v = u2 \<and> resp = Success (cred_cert_pem creds) (cred_key_pem creds) (cred_ca_cert_pem creds)"
    for resp v
    by (cases creds) (auto simp: io_ok_def io_fail_def split: workload_response.splits)
  have line: "(if line = [] then io_fail e else m) v = (u2, Inr creds)
      \<longleftrightarrow> line \<noteq> [] \<and> m v = (u2, Inr creds)" for line e m and v :: uds
    by (simp add: io_fail_def)
  show ?thesis
    unfolding converse_def io_bind_eq_Inr line io_context_eq_Inr answer
    by (auto simp: io_lift_def)
qed

text \<open>What a round yields depends on its connection only, not on the client or earlier rounds.\<close>

definition round_result :: "client_env \<Rightarrow> string \<Rightarrow> string + uds \<Rightarrow> x509_credentials result" where
  "round_result env path c =
     (case c of
        Inl e \<Rightarrow> Inl (Bail (Context (''Failed to connect to Workload API socket at '' @ path) (Msg e)))
      | Inr u \<Rightarrow> snd (converse env u))"

lemma fetch_credentials_result:
  "\<exists>net'. fetch_credentials env client net = (net', round_result env (socket_path client) (conns net (conn_no net)))
     \<and> conns net' = conns net \<and> conn_no net' = Suc (conn_no net) \<and> waited net' = waited net"
  by (auto simp: fetch_credentials_def round_result_def Let_def split: sum.splits prod.splits)

text \<open>The abstract task: the results of the rounds in order, up to a panic; the last success counts.\<close>

definition round_results :: "client_env \<Rightarrow> string \<Rightarrow> (nat \<Rightarrow> string + uds) \<Rightarrow> nat \<Rightarrow> nat \<Rightarrow> x509_credentials result list"
  where
  "round_results env path cs k n =
     takeWhile (\<lambda>r. r \<noteq> Inl Panic) (map (\<lambda>i. round_result env path (cs i)) [k ..< k + n])"

definition last_success :: "x509_credentials option \<Rightarrow> x509_credentials result list \<Rightarrow> x509_credentials option" where
  "last_success = foldl (\<lambda>c r. case r of Inl e \<Rightarrow> c | Inr creds \<Rightarrow> Some creds)"

lemma last_success_simps [simp]:
  "last_success c [] = c"
  "last_success c (Inr creds # rs) = last_success (Some creds) rs"
  "last_success c (Inl e # rs) = last_success c rs"
  by (simp_all add: last_success_def)

lemma last_success_source:
  "last_success c rs = Some creds \<Longrightarrow> c = Some creds \<or> Inr creds \<in> set rs"
proof (induction rs arbitrary: c)
  case (Cons r rs)
  then show ?case by (cases r) auto
qed simp

lemma last_success_keeps: "c \<noteq> None \<Longrightarrow> last_success c rs \<noteq> None"
proof (induction rs arbitrary: c)
  case (Cons r rs)
  then show ?case by (cases r) auto
qed simp

lemma round_results_Suc:
  "round_results env path cs k (Suc n) =
     (case round_result env path (cs k) of
        Inl Panic \<Rightarrow> []
      | r \<Rightarrow> r # round_results env path cs (Suc k) n)"
  by (simp add: round_results_def upt_rec [of k] split: sum.splits fault.splits)

lemma rotation_loop_rounds:
  "rotation_loop env interval n (client, net) = (client', net') \<Longrightarrow>
     cached client' = last_success (cached client)
       (round_results env (socket_path client) (conns net) (conn_no net) n)
     \<and> socket_path client' = socket_path client
     \<and> waited net' = waited net
         + interval * length (round_results env (socket_path client) (conns net) (conn_no net) n)"
proof (induction n arbitrary: client net)
  case 0
  then show ?case by (simp add: round_results_def)
next
  case (Suc n)
  let ?r = "round_result env (socket_path client) (conns net (conn_no net))"
  obtain net1 where fetch: "fetch_credentials env client net = (net1, ?r)"
    and net1: "conns net1 = conns net" "conn_no net1 = Suc (conn_no net)" "waited net1 = waited net"
    using fetch_credentials_result by metis
  show ?case
  proof (cases ?r)
    case (Inr creds)
    with Suc.prems fetch have "rotation_loop env interval n (client\<lparr>cached := Some creds\<rparr>,
        net1\<lparr>waited := waited net1 + interval\<rparr>) = (client', net')" by simp
    from Suc.IH [OF this] net1 Inr show ?thesis by (simp add: round_results_Suc)
  next
    case (Inl f)
    show ?thesis
    proof (cases f)
      case (Bail e)
      with Inl Suc.prems fetch have "rotation_loop env interval n (client,
          net1\<lparr>waited := waited net1 + interval\<rparr>) = (client', net')" by simp
      from Suc.IH [OF this] net1 Inl Bail show ?thesis by (simp add: round_results_Suc)
    next
      case Panic
      with Inl Suc.prems fetch net1 show ?thesis by (simp add: round_results_Suc)
    qed
  qed
qed

section \<open>The client's promises\<close>

text \<open>
  C21: The rotation task implements its abstract counterpart: after any number of rounds the
  cached credentials are those of the last round that succeeded, or the earlier ones if none
  did; failed rounds change nothing, and the task has waited one interval after every round.
\<close>
theorem rotation_keeps_last_success:
  "let rounds = round_results env (socket_path client) (conns net) (conn_no net) n;
       s = rotation_loop env interval n (client, net)
   in current_credentials (fst s) = last_success (current_credentials client) rounds
      \<and> waited (snd s) = waited net + interval * length rounds"
  using rotation_loop_rounds [of env interval n client net] surj_pair
  by (cases "rotation_loop env interval n (client, net)")
    (simp add: Let_def current_credentials_def)

text \<open>
  C22: Credentials that a new client holds at any time come from a complete exchange: the client
  sent the fetch request on a connection of its socket and read there a line that the codec
  reads as a success with exactly these three texts. An error answer, an unreadable or missing
  line, or a failed connection never changes them.
\<close>
theorem client_credentials_from_agent:
  assumes "rotation_loop env interval n (new_client path, net) = (client', net')"
    and "current_credentials client' = Some creds"
  shows "\<exists>i u req u1 u2 line. conn_no net \<le> i \<and> i < conn_no net + n \<and> conns net i = Inr u
     \<and> ser_fetch env \<lparr>req_type = ''fetch''\<rparr> = Inr req \<and> write_line req u = (u1, Inr ())
     \<and> read_line u1 = (u2, Inr line)
     \<and> de_reply env line
         = Inr (Success (cred_cert_pem creds) (cred_key_pem creds) (cred_ca_cert_pem creds))"
proof -
  from rotation_loop_rounds [OF assms(1)] assms(2)
  have "last_success None (round_results env path (conns net) (conn_no net) n) = Some creds"
    by (simp add: current_credentials_def new_client_def)
  from last_success_source [OF this]
  have "Inr creds \<in> set (round_results env path (conns net) (conn_no net) n)" by simp
  then have "Inr creds \<in> (\<lambda>i. round_result env path (conns net i)) ` {conn_no net ..< conn_no net + n}"
    unfolding round_results_def by (auto dest!: set_takeWhileD)
  then obtain i where i: "conn_no net \<le> i" "i < conn_no net + n"
    and r: "round_result env path (conns net i) = Inr creds" by auto
  from r obtain u where u: "conns net i = Inr u" "snd (converse env u) = Inr creds"
    by (auto simp: round_result_def split: sum.splits)
  obtain u2 where "converse env u = (u2, Inr creds)" using u(2) by (metis surjective_pairing)
  with i u(1) show ?thesis unfolding converse_Inr by blast
qed

text \<open>A conversation in which the agent has an answer ready.\<close>

definition sample_creds :: x509_credentials where
  "sample_creds = \<lparr>cred_cert_pem = ''cert'', cred_key_pem = ''key'', cred_ca_cert_pem = ''ca''\<rparr>"

definition sample_client_env :: client_env where
  "sample_client_env =
     \<lparr>ser_fetch = (\<lambda>_. Inr [1]), de_reply = (\<lambda>_. Inr (Success ''cert'' ''key'' ''ca''))\<rparr>"

definition sample_local :: uds where
  "sample_local = \<lparr>io_stream = \<lparr>inp = [65, 10], rerr = [], outp = [], room = 100, werr = [], flush_err = None\<rparr>,
     at_eof = True\<rparr>"

definition sample_net :: client_net where
  "sample_net =
     \<lparr>conns = (\<lambda>i. if i = 0 then Inl ''refused'' else Inr sample_local), conn_no = 0, closed = [], waited = 0\<rparr>"

lemma sample_converse:
  "\<exists>u2. converse sample_client_env sample_local = (u2, Inr sample_creds)"
  by (simp add: converse_Inr sample_client_env_def sample_local_def sample_creds_def write_line_def
      write_all_def read_line_def newline_def Let_def)

theorem client_credentials_from_agent_witness:
  "\<exists>u1. write_line [1] sample_local = (u1, Inr ()) \<and> (\<exists>u2 line. read_line u1 = (u2, Inr line))"
proof -
  let ?s = "rotation_loop sample_client_env 60 2 (new_client ''/run/s'', sample_net)"
  obtain u2 where u2: "converse sample_client_env sample_local = (u2, Inr sample_creds)"
    using sample_converse by blast
  have run: "?s = (fst ?s, snd ?s)" by simp
  have "current_credentials (fst ?s) = Some sample_creds"
    by (simp add: numeral_2_eq_2 new_client_def fetch_credentials_def sample_net_def u2 Let_def
        current_credentials_def)
  from client_credentials_from_agent [OF run this] show ?thesis
    by (auto simp: sample_net_def sample_client_env_def split: if_splits)
qed

end
