(* ===== verification/Test_Programs.thy ===== *)
theory Test_Programs imports Workload_Client Evaluator Host_Fs begin

text \<open>
  The two programs that the integration tests run: the test workload
  (\<^verbatim>\<open>apps/rust-apps/workload-test-workload/src/main.rs\<close>), which fetches credentials over the
  Workload API and writes them to files, and the evaluator test
  (\<^verbatim>\<open>libs/rust-libs/authn-scope-evaluator/src/bin/authn-scope-eval-test.rs\<close>), which checks a
  certificate file. Both end with an exit code: 0, 1 for an error that \<open>main\<close> returns and for
  \<open>exit(1)\<close>, 101 for a panic. Their printed messages are omitted.
\<close>

section \<open>The test workload\<close>

type_synonym test_state = "client_net \<times> fs"

definition on_net :: "(client_net, 'a) io \<Rightarrow> (test_state, nat, 'a) eio" where
  "on_net m s =
     (case m (fst s) of
        (n', Inr x) \<Rightarrow> ((n', snd s), Inr x)
      | (n', Inl (Bail e)) \<Rightarrow> ((n', snd s), Inl 1)
      | (n', Inl Panic) \<Rightarrow> ((n', snd s), Inl 101))"

definition on_fs :: "(fs, string, 'a) eio \<Rightarrow> (test_state, nat, 'a) eio" where
  "on_fs m s = (case m (snd s) of (w', r) \<Rightarrow> ((fst s, w'), map_err (\<lambda>_. 1) r))"

definition test_sleep :: "nat \<Rightarrow> (test_state, nat, unit) eio" where
  "test_sleep secs s = (((fst s)\<lparr>waited := waited (fst s) + secs\<rparr>, snd s), Inr ())"

definition test_path :: "string \<Rightarrow> string \<Rightarrow> string" where
  "test_path kind username = ''/tmp/workload-'' @ kind @ ''-'' @ username @ ''.pem''"

definition write_creds :: "string \<Rightarrow> x509_credentials \<Rightarrow> (test_state, nat, unit) eio" where
  "write_creds username creds =
     io_bind (on_fs (fs_write (test_path ''cert'' username) (cred_cert_pem creds))) (\<lambda>_.
     io_bind (on_fs (fs_write (test_path ''key'' username) (cred_key_pem creds))) (\<lambda>_.
     on_fs (fs_write (test_path ''ca'' username) (cred_ca_cert_pem creds))))"

definition rotation_test ::
  "client_env \<Rightarrow> workload_client \<Rightarrow> string \<Rightarrow> (test_state, nat, unit) eio" where
  "rotation_test env client username =
     io_bind (on_net (fetch_credentials env client)) (\<lambda>creds1.
     io_bind (write_creds username creds1) (\<lambda>_.
     io_bind (test_sleep 32) (\<lambda>_.
     io_bind (on_net (fetch_credentials env client)) (\<lambda>creds2.
     if cred_cert_pem creds1 = cred_cert_pem creds2 then io_fail 1
     else on_fs (fs_write ''/tmp/rotation-passed'' ''1'')))))"

definition test_workload_main ::
  "client_env \<Rightarrow> string list \<Rightarrow> string option \<Rightarrow> (test_state, nat, unit) eio" where
  "test_workload_main env args user_var =
     (let socket = (case args of _ # path # _ \<Rightarrow> path | _ \<Rightarrow> ''/run/authn-scope/workload.sock'');
          client = new_client socket;
          username = (case user_var of None \<Rightarrow> ''unknown'' | Some u \<Rightarrow> u)
      in if ''--test-rotation'' \<in> set args then rotation_test env client username
         else io_bind (on_net (fetch_credentials env client)) (\<lambda>creds. write_creds username creds))"

section \<open>The evaluator test\<close>

text \<open>\<open>expect\<close> and \<open>assert_eq!\<close> panic.\<close>

definition eval_test_main :: "x509 \<Rightarrow> string list \<Rightarrow> (fs, nat, unit) eio" where
  "eval_test_main X args =
     (case args of
        [_, peer, ca] \<Rightarrow>
          io_bind (io_map_err (\<lambda>_. 101) (fs_read_to_string peer)) (\<lambda>peer_cert_pem.
          io_bind (io_map_err (\<lambda>_. 101) (fs_read_to_string ca)) (\<lambda>ca_cert_pem.
          io_bind (io_lift (map_err (\<lambda>_. 101) (from_cert_pem X peer_cert_pem ca_cert_pem))) (\<lambda>eval.
          if ev_identity eval = ''service-a'' then io_ok () else io_fail 101)))
      | _ \<Rightarrow> io_fail 1)"

section \<open>Facts\<close>

lemma on_net_Inr: "on_net m s = (t, Inr x) \<longleftrightarrow> (\<exists>n'. m (fst s) = (n', Inr x) \<and> t = (n', snd s))"
  by (auto simp: on_net_def split: prod.splits sum.splits fault.splits)

lemma on_fs_Inr: "on_fs m s = (t, Inr x) \<longleftrightarrow> (\<exists>w'. m (snd s) = (w', Inr x) \<and> t = (fst s, w'))"
  by (auto simp: on_fs_def split: prod.splits sum.splits)

lemma test_paths_distinct:
  "test_path ''cert'' u \<noteq> test_path ''key'' v" "test_path ''cert'' u \<noteq> test_path ''ca'' v"
  "test_path ''key'' u \<noteq> test_path ''ca'' v"
  by (simp_all add: test_path_def)

definition holds_creds :: "string \<Rightarrow> x509_credentials \<Rightarrow> fs \<Rightarrow> bool" where
  "holds_creds username creds w \<longleftrightarrow>
     map_option content (files w (test_path ''cert'' username)) = Some (cred_cert_pem creds)
     \<and> map_option content (files w (test_path ''key'' username)) = Some (cred_key_pem creds)
     \<and> map_option content (files w (test_path ''ca'' username)) = Some (cred_ca_cert_pem creds)"

lemma write_creds_Inr:
  assumes "write_creds username creds s = (t, Inr x)"
  shows "fst t = fst s \<and> holds_creds username creds (snd t)"
proof -
  from assms obtain w1 w2 w3 where
    "fs_write (test_path ''cert'' username) (cred_cert_pem creds) (snd s) = (w1, Inr ())"
    "fs_write (test_path ''key'' username) (cred_key_pem creds) w1 = (w2, Inr ())"
    "fs_write (test_path ''ca'' username) (cred_ca_cert_pem creds) w2 = (w3, Inr ())"
    and t: "t = (fst s, w3)"
    by (auto simp: write_creds_def io_bind_eq_Inr on_fs_Inr)
  from this(1-3) [THEN fs_write_Inr] t show ?thesis
    by (simp add: holds_creds_def test_paths_distinct test_paths_distinct [symmetric])
qed

lemma eval_test_main_Inr:
  "eval_test_main X args w = (w', Inr ()) \<longleftrightarrow>
     (\<exists>prog peer ca w1 peer_pem ca_pem. args = [prog, peer, ca]
        \<and> fs_read_to_string peer w = (w1, Inr peer_pem) \<and> fs_read_to_string ca w1 = (w', Inr ca_pem)
        \<and> from_cert_pem X peer_pem ca_pem = Inr \<lparr>ev_identity = ''service-a''\<rparr>)"
proof -
  have check: "(if ev_identity eval = ''service-a'' then io_ok () else io_fail 101) v = (w', Inr ())
      \<longleftrightarrow> v = w' \<and> eval = \<lparr>ev_identity = ''service-a''\<rparr>" for eval :: evaluator and v
    by (cases eval) (auto simp: io_ok_def io_fail_def)
  show ?thesis
    by (cases args rule: list.exhaust [case_names Nil Cons]; (cases "tl args"; (cases "tl (tl args)";
          (cases "tl (tl (tl args))")?)?)?)
      (auto simp: eval_test_main_def io_bind_eq_Inr check io_lift_def io_fail_def)
qed

section \<open>What a passed test shows\<close>

text \<open>
  The rotation test passes only when rotation has happened: two successive fetches 32
  seconds apart delivered different certificates; the marker file is written and the
  credential files hold the first credentials.
\<close>
theorem rotation_test_sound:
  assumes "test_workload_main env args user_var s = (t, Inr ())" and "''--test-rotation'' \<in> set args"
  shows "\<exists>client net1 net2 creds1 creds2.
     fetch_credentials env client (fst s) = (net1, Inr creds1)
     \<and> fetch_credentials env client (net1\<lparr>waited := waited net1 + 32\<rparr>) = (net2, Inr creds2)
     \<and> cred_cert_pem creds1 \<noteq> cred_cert_pem creds2 \<and> fst t = net2
     \<and> holds_creds (case user_var of None \<Rightarrow> ''unknown'' | Some u \<Rightarrow> u) creds1 (snd t)
     \<and> map_option content (files (snd t) ''/tmp/rotation-passed'') = Some ''1''"
proof -
  let ?user = "case user_var of None \<Rightarrow> ''unknown'' | Some u \<Rightarrow> u"
  from assms obtain client where "rotation_test env client ?user s = (t, Inr ())"
    by (auto simp: test_workload_main_def Let_def)
  then obtain s1 s2 s3 s4 creds1 creds2 where f1: "on_net (fetch_credentials env client) s = (s1, Inr creds1)"
    and w: "write_creds ?user creds1 s1 = (s2, Inr ())" and sl: "test_sleep 32 s2 = (s3, Inr ())"
    and f2: "on_net (fetch_credentials env client) s3 = (s4, Inr creds2)"
    and last: "(if cred_cert_pem creds1 = cred_cert_pem creds2 then io_fail 1
        else on_fs (fs_write ''/tmp/rotation-passed'' ''1'')) s4 = (t, Inr ())"
    unfolding rotation_test_def io_bind_eq_Inr by auto
  from last have ne: "cred_cert_pem creds1 \<noteq> cred_cert_pem creds2"
    and mark: "on_fs (fs_write ''/tmp/rotation-passed'' ''1'') s4 = (t, Inr ())"
    by (simp_all add: io_fail_def split: if_splits)
  from f1 obtain net1 where n1: "fetch_credentials env client (fst s) = (net1, Inr creds1)" "fst s1 = net1"
    by (auto simp: on_net_Inr)
  with write_creds_Inr [OF w] have s2: "fst s2 = net1" "holds_creds ?user creds1 (snd s2)" by simp_all
  with sl have s3: "fst s3 = net1\<lparr>waited := waited net1 + 32\<rparr>" "snd s3 = snd s2"
    by (auto simp: test_sleep_def)
  with f2 obtain net2 where n2: "fetch_credentials env client (net1\<lparr>waited := waited net1 + 32\<rparr>)
      = (net2, Inr creds2)" "s4 = (net2, snd s2)"
    by (auto simp: on_net_Inr)
  with mark obtain w' where w': "fs_write ''/tmp/rotation-passed'' ''1'' (snd s2) = (w', Inr ())"
    and t: "t = (net2, w')"
    by (auto simp: on_fs_Inr)
  from fs_write_Inr [OF w'] t s2(2) have "holds_creds ?user creds1 (snd t)"
    "map_option content (files (snd t) ''/tmp/rotation-passed'') = Some ''1''"
    by (simp_all add: holds_creds_def test_path_def)
  with n1(1) n2(1) ne t show ?thesis
    by (intro exI [of _ client] exI [of _ net1] exI [of _ net2] exI [of _ creds1] exI [of _ creds2]) simp
qed

text \<open>A client whose two fetches meet agents that answer differently.\<close>

definition rotating_env :: client_env where
  "rotating_env =
     \<lparr>ser_fetch = (\<lambda>_. Inr [1]),
      de_reply = (\<lambda>line. Inr (Success (if line = [65, 10] then ''first'' else ''second'') ''key'' ''ca''))\<rparr>"

definition rotating_net :: client_net where
  "rotating_net = sample_net
     \<lparr>conns := (\<lambda>i. Inr (if i = 0 then sample_local
        else sample_local\<lparr>io_stream := (io_stream sample_local)\<lparr>inp := [66, 10]\<rparr>\<rparr>))\<rparr>"

definition sample_args :: "string list" where
  "sample_args = [''test'', ''/run/s'', ''--test-rotation'']"

lemma rotating_fetches:
  "\<exists>net1. fetch_credentials rotating_env client rotating_net
       = (net1, Inr \<lparr>cred_cert_pem = ''first'', cred_key_pem = ''key'', cred_ca_cert_pem = ''ca''\<rparr>)
     \<and> (\<exists>net2. fetch_credentials rotating_env client (net1\<lparr>waited := waited net1 + 32\<rparr>)
       = (net2, Inr \<lparr>cred_cert_pem = ''second'', cred_key_pem = ''key'', cred_ca_cert_pem = ''ca''\<rparr>))"
  by (simp add: fetch_credentials_def rotating_net_def sample_net_def Let_def converse_def io_bind_def
      io_lift_def rotating_env_def sample_local_def write_line_def write_all_def read_line_def newline_def
      io_context_def io_ok_def)

lemma rotating_passes:
  "\<exists>t. test_workload_main rotating_env sample_args None (rotating_net, sample_fs) = (t, Inr ())"
proof -
  obtain net1 net2 where "fetch_credentials rotating_env (new_client ''/run/s'') rotating_net
       = (net1, Inr \<lparr>cred_cert_pem = ''first'', cred_key_pem = ''key'', cred_ca_cert_pem = ''ca''\<rparr>)"
    "fetch_credentials rotating_env (new_client ''/run/s'') (net1\<lparr>waited := waited net1 + 32\<rparr>)
       = (net2, Inr \<lparr>cred_cert_pem = ''second'', cred_key_pem = ''key'', cred_ca_cert_pem = ''ca''\<rparr>)"
    using rotating_fetches by metis
  then show ?thesis
    by (simp add: test_workload_main_def sample_args_def rotation_test_def io_bind_def on_net_def
        write_creds_def on_fs_def test_sleep_def fs_op_defs sample_fs_def Let_def)
qed

theorem rotation_test_sound_witness:
  "\<exists>client net1 creds1. fetch_credentials rotating_env client rotating_net = (net1, Inr creds1)"
proof -
  obtain t where r: "test_workload_main rotating_env sample_args None (rotating_net, sample_fs) = (t, Inr ())"
    using rotating_passes by blast
  have "''--test-rotation'' \<in> set sample_args" by (simp add: sample_args_def)
  from rotation_test_sound [OF r this] show ?thesis by auto
qed

end
