(* ===== verification/Profiler.thy ===== *)
theory Profiler imports Signing begin

text \<open>
  The benchmark program (\<^verbatim>\<open>apps/rust-apps/profiler/src/main.rs\<close>): it sets up an authority under
  \<^verbatim>\<open>/tmp\<close>, makes and signs 200 requests, and reports memory use. The clock, the random source and
  \<^verbatim>\<open>/proc/self/status\<close>, which is another one at every reading, are arguments; the measured times
  are not modelled.
\<close>

section \<open>Memory use\<close>

text \<open>\<open>str::parse::<usize>\<close> on a 64-bit machine: digits after an optional plus, and a value that fits.\<close>

fun digits_value :: "nat \<Rightarrow> string \<Rightarrow> nat option" where
  "digits_value acc [] = Some acc"
| "digits_value acc (c # cs) =
     (case digit_val c of None \<Rightarrow> None | Some d \<Rightarrow> digits_value (acc * 10 + d) cs)"

definition parse_usize :: "string \<Rightarrow> nat option" where
  "parse_usize s =
     (let ds = (case s of c # cs \<Rightarrow> (if c = CHR ''+'' then cs else s) | [] \<Rightarrow> [])
      in if ds = [] then None
         else case digits_value 0 ds of
                None \<Rightarrow> None
              | Some n \<Rightarrow> if n < 2 ^ 64 then Some n else None)"

text \<open>The second word of the first line that has the key and at least two words.\<close>

fun status_field :: "string \<Rightarrow> string list \<Rightarrow> nat option" where
  "status_field key [] = None"
| "status_field key (line # rest) =
     (if starts_with key line
      then (case split_whitespace line of
              _ # v # _ \<Rightarrow> parse_usize v
            | _ \<Rightarrow> status_field key rest)
      else status_field key rest)"

definition get_rss_kb :: "string option \<Rightarrow> nat option" where
  "get_rss_kb status = Option.bind status (\<lambda>s. status_field ''VmRSS:'' (lines s))"

definition get_vsize_kb :: "string option \<Rightarrow> nat option" where
  "get_vsize_kb status = Option.bind status (\<lambda>s. status_field ''VmSize:'' (lines s))"

definition unwrap_or_0 :: "nat option \<Rightarrow> nat" where
  "unwrap_or_0 n = (case n of None \<Rightarrow> 0 | Some k \<Rightarrow> k)"

section \<open>The benchmark\<close>

definition service_name :: "nat \<Rightarrow> string" where
  "service_name i = ''service-'' @ show_nat i"

text \<open>\<open>new_params\<close> is rcgen's \<^verbatim>\<open>CertificateParams::new\<close>.\<close>

definition profile_iteration ::
  "('k, 'c) rcgen \<Rightarrow> (string list \<Rightarrow> string + cert_params) \<Rightarrow> (nat \<Rightarrow> nat) \<Rightarrow> (nat \<Rightarrow> int)
   \<Rightarrow> certificate_authority \<Rightarrow> nat \<Rightarrow> string + string" where
  "profile_iteration R new_params seeds clocks ca i =
     rbind (generate_for R (seeds (Suc i))) (\<lambda>key_pair.
     rbind (new_params [service_name i]) (\<lambda>params.
     rbind (serialize_request R (params\<lparr>is_ca_field := NoCa\<rparr>) key_pair) (\<lambda>csr.
     rbind (request_pem R csr) (\<lambda>csr_pem.
     map_err ca_error_to_string
       (sign_csr R (clocks i) ca
          \<lparr>sr_csr_pem = csr_pem, sr_identity = service_name i, sr_vm_name = ''test-vm'', sr_cid = 3,
           sr_ip = Some ''127.0.0.1'', sr_validity_seconds = 3600\<rparr>)))))"

fun profile_iterations :: "(nat \<Rightarrow> string + 'a) \<Rightarrow> nat list \<Rightarrow> string + unit" where
  "profile_iterations f [] = Inr ()"
| "profile_iterations f (i # is) = rbind (f i) (\<lambda>_. profile_iterations f is)"

definition profile_cert_path :: string where
  "profile_cert_path = ''/tmp/profile-ca-cert.pem''"

definition profile_key_path :: string where
  "profile_key_path = ''/tmp/profile-ca-key.pem''"

definition remove_profile_files :: "(fs, string, unit) eio" where
  "remove_profile_files =
     io_bind (io_ignore (fs_remove_file profile_cert_path)) (\<lambda>_.
     io_ignore (fs_remove_file profile_key_path))"

text \<open>The reported numbers, in order: at the start, after the authority is set up, at the end.\<close>

definition profiler_main ::
  "('k, 'c) rcgen \<Rightarrow> (string list \<Rightarrow> string + cert_params) \<Rightarrow> (nat \<Rightarrow> nat) \<Rightarrow> (nat \<Rightarrow> int)
   \<Rightarrow> (nat \<Rightarrow> string option) \<Rightarrow> (fs, string, nat list) eio" where
  "profiler_main R new_params seeds clocks status =
     io_bind remove_profile_files (\<lambda>_.
     io_bind (io_map_err ca_error_to_string
                (ca_init R (seeds 0) profile_cert_path profile_key_path True)) (\<lambda>ca.
     io_bind (io_lift (profile_iterations (profile_iteration R new_params seeds clocks ca) [0 ..< 200])) (\<lambda>_.
     io_bind remove_profile_files (\<lambda>_.
     io_ok (map unwrap_or_0
       [get_rss_kb (status 0), get_vsize_kb (status 1), get_rss_kb (status 2), get_rss_kb (status 3),
        get_vsize_kb (status 4)])))))"

section \<open>What is left on disk\<close>

lemma remove_profile_files_clean:
  assumes "remove_profile_files w = (w', r)" and "\<And>n. faults w n = None"
  shows "files w' = (files w)(profile_cert_path := None, profile_key_path := None)
    \<and> (\<forall>n. faults w' n = None) \<and> r = Inr ()"
proof -
  have remove: "files (fst (fs_remove_file p v)) = (files v)(p := None) \<and> faults (fst (fs_remove_file p v)) = faults v"
    if "\<And>n. faults v n = None" for p v
    using that by (auto simp: fs_op_defs fun_eq_iff split: option.splits)
  note first = remove [of w profile_cert_path, OF assms(2)]
  note second = remove [of "fst (fs_remove_file profile_cert_path w)" profile_key_path]
  from assms(1) have "w' = fst (fs_remove_file profile_key_path (fst (fs_remove_file profile_cert_path w)))"
    "r = Inr ()"
    by (auto simp: remove_profile_files_def io_bind_def io_ignore_def)
  with first second assms(2) show ?thesis by simp
qed

lemma ca_init_on_empty:
  assumes "ca_init R seed cp kp True w = (w', Inr ca)" and "files w cp = None"
  shows "\<exists>w1. files w1 = files w \<and> faults w1 = faults w \<and> ca_generate R seed cp kp w1 = (w', Inr ca)"
proof -
  obtain w1 where "fs_exists cp w = (w1, (Inr False :: ca_error + bool))"
    and w1: "files w1 = files w" "faults w1 = faults w"
    using assms(2) by (auto simp: fs_exists_def fs_done_def)
  with assms(1) have "ca_generate R seed cp kp w1 = (w', Inr ca)"
    by (simp add: ca_init_def Let_def io_bind_def io_ok_def)
  with w1 show ?thesis by blast
qed

text \<open>
  The benchmark cleans up after itself: when it ends without an error and no file operation
  fails, the authority's key and certificate are gone again and every other file is as it was.
\<close>
theorem profiler_cleans_up:
  assumes "profiler_main R new_params seeds clocks status w = (w', Inr report)"
    and "\<And>n. faults w n = None"
  shows "files w' = (files w)(profile_cert_path := None, profile_key_path := None) \<and> length report = 5"
proof -
  from assms(1) obtain w1 w2 w3 ca where rm1: "remove_profile_files w = (w1, Inr ())"
    and init: "ca_init R (seeds 0) profile_cert_path profile_key_path True w1 = (w2, Inr ca)"
    and rm2: "remove_profile_files w2 = (w3, Inr ())" and w': "w' = w3" "length report = 5"
    by (auto simp: profiler_main_def io_bind_eq_Inr io_lift_def io_ok_def)
  note w1 = remove_profile_files_clean [OF rm1 assms(2)]
  then have "files w1 profile_cert_path = None" by simp
  from ca_init_on_empty [OF init this] obtain v where v: "files v = files w1" "faults v = faults w1"
    "ca_generate R (seeds 0) profile_cert_path profile_key_path v = (w2, Inr ca)" by blast
  from ca_generate_Inr [OF v(3)] have "faults w2 = faults v"
    and files: "\<And>p. p \<noteq> profile_cert_path \<Longrightarrow> p \<noteq> profile_key_path \<Longrightarrow> files w2 p = files v p"
    by (auto simp: fs_ext_def)
  with v(2) w1 have "\<And>n. faults w2 n = None" by simp
  note w3 = remove_profile_files_clean [OF rm2 this]
  have "files w3 p = ((files w)(profile_cert_path := None, profile_key_path := None)) p" for p
    using w3 w1 files [of p] v(1) by simp
  then show ?thesis using w' by (simp add: fun_eq_iff)
qed

lemma iterations_Inr: "(\<And>i. i \<in> set is \<Longrightarrow> \<exists>x. f i = Inr x) \<Longrightarrow> profile_iterations f is = Inr ()"
  by (induction "is") auto

lemma sample_iteration:
  "\<exists>x. profile_iteration sample_rcgen (\<lambda>_. Inr sample_params) (\<lambda>_. 0) (\<lambda>_. 0) sample_ca i = Inr x"
proof -
  have "\<exists>bytes. parse_ip ''127.0.0.1'' = Inr bytes" by (simp add: parse_ip_eval)
  then obtain bytes where "parse_ip ''127.0.0.1'' = Inr bytes" by blast
  then show ?thesis
    by (simp add: profile_iteration_def sign_csr_def build_sans_def sample_rcgen_def sample_ca_def
        ca_rcgen_cert_def ca_key_pair_def common_names_def Let_def)
qed

lemma sample_profile:
  "\<exists>w'. profiler_main sample_rcgen (\<lambda>_. Inr sample_params) (\<lambda>_. 0) (\<lambda>_. 0) (\<lambda>_. None) sample_fs
     = (w', Inr [0, 0, 0, 0, 0])"
proof -
  obtain w1 where rm: "remove_profile_files sample_fs = (w1, Inr ())"
    by (simp add: remove_profile_files_def io_bind_def io_ignore_def)
  have "files w1 = (\<lambda>_. None)" "\<And>n. faults w1 n = None"
    using remove_profile_files_clean [OF rm] by (auto simp: sample_fs_def)
  then have "\<exists>w2. ca_init sample_rcgen 0 profile_cert_path profile_key_path True w1 = (w2, Inr sample_ca)"
    by (simp add: ca_init_def ca_generate_def io_bind_def Let_def fs_op_defs io_ok_def create_parent_def
        io_map_err_def io_lift_def set_mode_600_def sample_rcgen_def sample_ca_def root_params_def
        common_names_def sample_params_def profile_cert_path_def profile_key_path_def
        split: option.splits)
  then obtain w2 where init: "ca_init sample_rcgen 0 profile_cert_path profile_key_path True w1 = (w2, Inr sample_ca)" ..
  have loop: "profile_iterations (profile_iteration sample_rcgen (\<lambda>_. Inr sample_params) (\<lambda>_. 0) (\<lambda>_. 0) sample_ca)
      [0 ..< 200] = Inr ()"
    using sample_iteration by (rule iterations_Inr)
  obtain w3 where "remove_profile_files w2 = (w3, Inr ())"
    by (simp add: remove_profile_files_def io_bind_def io_ignore_def)
  with rm init show ?thesis
    by (simp only: profiler_main_def io_bind_def io_map_err_def prod.case sum.case map_err_simps loop io_lift_def io_ok_def)
      (simp add: get_rss_kb_def get_vsize_kb_def unwrap_or_0_def)
qed

theorem profiler_cleans_up_witness:
  "\<exists>w'. profiler_main sample_rcgen (\<lambda>_. Inr sample_params) (\<lambda>_. 0) (\<lambda>_. 0) (\<lambda>_. None) sample_fs
       = (w', Inr [0, 0, 0, 0, 0]) \<and> files w' profile_key_path = None"
proof -
  obtain w' where r: "profiler_main sample_rcgen (\<lambda>_. Inr sample_params) (\<lambda>_. 0) (\<lambda>_. 0) (\<lambda>_. None) sample_fs
      = (w', Inr [0, 0, 0, 0, 0])"
    using sample_profile by blast
  have "\<And>n. faults sample_fs n = None" by (simp add: sample_fs_def)
  from profiler_cleans_up [OF r this] r show ?thesis by simp
qed

end
