(* ===== verification/Spec2Isabelle.thy ===== *)
theory Spec2Isabelle imports
  Server
  Agent_Main
  Agent_Tasks
  Workload_Client
  Test_Programs
  Profiler
begin

text \<open>
  A verification development for vm-authn-scope, which attests workloads in guest machines and
  issues them X.509 certificates.

  \<^bold>\<open>The program.\<close> On the host, \<^verbatim>\<open>authn-scope-server\<close> listens on a vsock port, knows machines by their
  context identifiers and identities by name (\<^verbatim>\<open>host.json\<close>), and signs certificates. In a guest,
  \<^verbatim>\<open>authn-scope-agent\<close> fetches the selectors of its machine's workloads in a handshake, occupies the
  client port that the server demands, and serves the Workload API on a Unix socket: it attests a
  connected process by its kernel credentials, executable and systemd unit, and hands it
  credentials from a cache or newly requested from the host. Workloads use a client library with a
  rotation task; peers check each other's certificates with an evaluator library.

  \<^bold>\<open>Theories and source files\<close> (paths under \<^verbatim>\<open>src/\<close>; libraries in \<^verbatim>\<open>libs/rust-libs\<close>, programs in
  \<^verbatim>\<open>apps/rust-apps\<close>).
  \<^item> \<open>Prelude\<close>: machine integers, \<open>anyhow\<close> errors and panics, the state-and-error operations that model
    fallible functions, hash maps as lists in iteration order (locale \<open>kv_store\<close>), decimal numbers.
  \<^item> \<open>Rust_Str\<close>, \<open>Ip_Addr\<close>: the standard library's string operations and IP address parser.
  \<^item> \<open>Wire\<close>: \<^verbatim>\<open>authn-scope-proto/src/wire.rs\<close> and the messages of the Workload API. \<open>Codec\<close>:
    \<^verbatim>\<open>authn-scope-proto/src/codec.rs\<close>; \<open>send_json\<close> and \<open>recv_json\<close> over streams that may fail anywhere.
  \<^item> \<open>Host_Config\<close>, \<open>Policy\<close>: \<^verbatim>\<open>config.rs\<close> and \<^verbatim>\<open>policy.rs\<close> of the server: the selector parser, the
    configuration checks, the lookup with its 32-bit lifetime arithmetic.
  \<^item> \<open>Host_Fs\<close>, \<open>Pki\<close>, \<open>Samples\<close>: the file store with faults; what the program uses of rcgen and
    x509-parser; concrete instances for the witnesses.
  \<^item> \<open>Ca\<close>, \<open>Signing\<close>: \<^verbatim>\<open>authn-scope-ca\<close>. \<open>Evaluator\<close>: \<^verbatim>\<open>authn-scope-evaluator/src/lib.rs\<close>.
  \<^item> \<open>Handler\<close>, \<open>Server\<close>: \<^verbatim>\<open>handler.rs\<close>, \<^verbatim>\<open>listener.rs\<close>, \<^verbatim>\<open>main.rs\<close> of the server.
  \<^item> \<open>Agent_Os\<close>: the agent's system calls on descriptors, ports and time, and its retry loops (locale
    \<open>retry_body\<close>). \<open>Agent_Connect\<close>, \<open>Agent_Creds\<close>, \<open>Agent_Match\<close>, \<open>Agent_Api\<close>, \<open>Agent_Main\<close>: \<^verbatim>\<open>config.rs\<close>,
    \<^verbatim>\<open>csr.rs\<close>, \<^verbatim>\<open>client.rs\<close>, \<^verbatim>\<open>main.rs\<close> of the agent in the order dialling and handshake, requests and
    cache, attestation, local socket, program. \<open>Local_Stream\<close>: lines on the local socket, for both ends.
  \<^item> \<open>Task_Pool\<close>, \<open>Agent_Tasks\<close>: the handlers of the Workload API as concurrent tasks. The first has
    the step relation and the locale \<open>outer_locked\<close>, the second cuts the handler at its suspension
    points and interprets the locale.
  \<^item> \<open>Workload_Client\<close>: \<^verbatim>\<open>authn-scope-workload/src/lib.rs\<close>. \<open>Test_Programs\<close>, \<open>Profiler\<close>: the programs of the
    integration tests and the benchmark.
  \<^item> This theory: the parts over the connections between them.

  \<^bold>\<open>Reading the model.\<close> A function that may fail and has effects maps a state to a new state and a
  value or fault, also when it fails, so that what a failing operation leaves behind is part of the
  statements. Each system call, file operation and stream operation consults an oracle and may
  fail on its own. Third-party code is a parameter: JSON (\<^verbatim>\<open>serde_json\<close>) as a pair of functions per
  message type, rcgen, x509-parser and the account database as records of functions. What a
  theorem needs of them is a hypothesis of its own, for instance that the two ends of a connection
  read what the other prints (\<open>carries\<close>, \<open>line_carries\<close>). Time and randomness are arguments. A hash map
  is the list of its entries in iteration order; one that a loop builds or that is read from JSON
  is taken to iterate in the order in which its entries came, and what a theorem says of the
  order of another map it says for every list with these entries.

  \<^bold>\<open>What is shown.\<close> The server's handler computes a reply function (\<open>Handler\<close>) and writes it, on any
  connection; a second frame, an error, follows only if sending the reply failed. So certificates
  go only to registered peers and a registered peer is served; the accept loop keeps this for any
  order of connections (\<open>Server\<close>). The selector parser, the loader, the codec and the matcher equal
  their specifications (\<open>Host_Config\<close>, \<open>Codec\<close>, \<open>Agent_Match\<close>), with round trips for selectors, frames and
  key files. The agent's retry loops are bounded and leak nothing, its descriptors stay in order
  whatever it serves, credentials go only to attested processes and within half of the lifetime
  that their certificate states.
  Interleaved handlers have the results of the sequential loop, cannot deadlock, and can all be
  stopped by one silent client (\<open>Agent_Tasks\<close>). The rotation task refines the last successful fetch
  (\<open>Workload_Client\<close>). Below, an exchange between agent and server is a call of the reply function,
  the handshake delivers the machine's own entry, and a workload's fetch delivers its own
  credentials. Several theorems describe weaknesses rather than virtues: the common name of a
  request is never compared with the identity, lifetimes wrap, ties between selectors depend on the
  iteration order, a request that fails before the client port is bound again leaves it
  unprotected, a message above 4 MiB is sent but never read as a whole.

  \<^bold>\<open>Bounds and fuel.\<close> No definition uses fuel except \<open>rotation_loop\<close>, which gives the state after \<open>n\<close>
  rounds of a loop that never ends, for every \<open>n\<close>. The accept loops run over the list of connections
  that arrive before the process is terminated. The retry loops terminate by their limits (10 and
  15 attempts), the string scanners by the length of their input. Protocol integers have 32 bits
  and wrap; the overflow checks of a debug build are a parameter. Frame lengths are 32-bit words
  against a limit of 4 MiB; that the length of a payload of 4 GiB or more wraps is part of the
  statements.

  \<^bold>\<open>Not modelled.\<close> Logging and printed messages; command-line parsing; the JSON text itself; cryptography; clock
  changes; the scheduling order of the server's handlers, which share nothing that changes; waiting
  for a client that does not read its answer; a process that is replaced between the look-ups in
  \<^verbatim>\<open>/proc\<close>; the measured times of the profiler. The second implementation of the client library and
  evaluator in Go, the Nix packaging and the shell scripts are outside the development.
\<close>

section \<open>The agent and the server over one connection\<close>

text \<open>
  The bytes \<open>p\<close> carry the message \<open>m\<close> from one end to the other: they are its JSON at the one, are
  read as the same message at the other, and fit the frame limit.
\<close>

definition carries :: "('m \<Rightarrow> u8 list result) \<Rightarrow> (u8 list \<Rightarrow> 'm result) \<Rightarrow> 'm \<Rightarrow> u8 list \<Rightarrow> bool" where
  "carries ser de m p \<longleftrightarrow> ser m = Inr p \<and> de p = Inr m \<and> length p \<le> MAX_MSG_BYTES"

text \<open>
  A stream of the agent and a stream of the server are the two ends of one connection on which
  the agent sends the frame \<open>p\<close>: the server reads it, and the agent reads what the server's
  handler has written.
\<close>

definition wired :: "stream \<Rightarrow> stream \<Rightarrow> u8 list \<Rightarrow> (stream \<Rightarrow> stream) \<Rightarrow> bool" where
  "wired a s p handler \<longleftrightarrow> accepts a (frame p) \<and> inp s = frame p \<and> outp s = [] \<and> flush_err s = None
     \<and> inp a = outp (handler s)"

lemma recv_json_frame:
  assumes "length p \<le> MAX_MSG_BYTES" and "inp s = frame p @ rest"
  shows "recv_json de s = (s\<lparr>inp := rest\<rparr>, de p)"
  by (rule recv_json_split_frame) (simp add: assms split_frame_frame)

lemma served_reply:
  assumes total: "ser_total (ser_response senv)"
    and req: "carries (ser_request aenv) (de_request senv) req p"
    and reply: "server_reply senv cfg ca cid req = Inr resp"
    and resp: "carries (ser_response senv) (de_response aenv) resp q" "length (frame q) \<le> room s"
    and s: "inp s = frame p" "outp s = []" "flush_err s = None"
  shows "outp (handle_connection senv cid cfg ca s) = frame q"
proof -
  have "recv_json (de_request senv) s = (s\<lparr>inp := []\<rparr>, Inr req)"
    using recv_json_frame [of p s "[]" "de_request senv"] s(1) req by (simp add: carries_def)
  moreover have "accepts (s\<lparr>inp := []\<rparr>) (frame q)" using resp(2) s(3) by (simp add: accepts_def)
  moreover have "ser_response senv resp = Inr q" using resp(1) by (simp add: carries_def)
  ultimately show ?thesis
    using handle_connection_serve [OF total s(3)] reply s(2)
      send_json_ok [where ser = "ser_response senv" and m = resp and p = q]
    by (simp add: serve_def)
qed

lemma served_exchange:
  assumes "ser_total (ser_response senv)"
    and req: "carries (ser_request aenv) (de_request senv) req p"
    and "server_reply senv cfg ca cid req = Inr resp"
    and resp: "carries (ser_response senv) (de_response aenv) resp q" "length (frame q) \<le> room s"
    and wire: "wired (conn_stream c) s p (handle_connection senv cid cfg ca)"
  shows "\<exists>s2. exchange aenv sending receiving req c w = (drop_conn c s2 w, Inr resp)"
proof -
  from wire have a: "accepts (conn_stream c) (frame p)" "inp (conn_stream c) = frame q"
    using served_reply [OF assms(1-5)] by (simp_all add: wired_def)
  have "ser_request aenv req = Inr p" using req by (simp add: carries_def)
  from send_json_ok [where ser = "ser_request aenv", OF this a(1)] a(2)
  obtain s1 where send: "send_json (ser_request aenv) req (conn_stream c) = (s1, Inr ())"
    and s1: "inp s1 = frame q" by simp
  have "recv_json (de_response aenv) s1 = (s1\<lparr>inp := []\<rparr>, Inr resp)"
    using recv_json_frame [of q s1 "[]" "de_response aenv"] s1 resp(1) by (simp add: carries_def)
  with send show ?thesis
    by (intro exI [of _ "s1\<lparr>inp := []\<rparr>"]) (simp add: exchange_def io_context_def)
qed

text \<open>
  C5: Over the vsock the agent calls the server as if it called a function: when the two ends of
  a connection are an agent's exchange and the server's handler, the messages fit the frame
  limit and the codecs agree, the agent receives exactly the reply that the server computes for
  the request and the peer's identifier, be it a certificate, the workloads or an error, and the
  agent's connection is closed.
\<close>
theorem agent_server_exchange:
  assumes "ser_total (ser_response senv)"
    and "carries (ser_request aenv) (de_request senv) req p"
    and "server_reply senv cfg ca cid req = Inr resp"
    and "carries (ser_response senv) (de_response aenv) resp q" "length (frame q) \<le> room s"
    and "wired (conn_stream c) s p (handle_connection senv cid cfg ca)"
  shows "\<exists>s2. exchange aenv sending receiving req c w = (drop_conn c s2 w, Inr resp)"
  by (rule served_exchange [OF assms])

text \<open>A host that prints its reply to the request of interest as the byte 5, and its side of a connection.\<close>

definition sample_host :: "agent_response \<Rightarrow> agent_request \<Rightarrow> (string, csr) server_env" where
  "sample_host resp req =
     (sample_env resp req)\<lparr>ser_response := (\<lambda>m. Inr (if m = resp then [5] else [0]))\<rparr>"

lemma sample_host_simps [simp]:
  "ser_total (ser_response (sample_host resp req))"
  "carries (ser_request (sample_agent_env resp)) (de_request (sample_host resp req)) req [5]"
  "carries (ser_response (sample_host resp req)) (de_response (sample_agent_env resp)) resp [5]"
  "overflow_checks (sample_host resp req) = overflow_checks (sample_env resp req)"
  "crypto (sample_host resp req) = crypto (sample_env resp req)"
  "clock (sample_host resp req) = clock (sample_env resp req)"
  by (simp_all add: sample_host_def ser_total_def carries_def sample_agent_env_def sample_env_def
      MAX_MSG_BYTES_def)

lemma sample_host_reply: "server_reply (sample_host resp req) = server_reply (sample_env resp req)"
  unfolding fun_eq_iff server_reply_def cert_reply_def sample_host_simps(4-6) by (intro allI refl)

lemma sample_wired:
  assumes "server_reply (sample_env resp req) cfg ca cid req = Inr resp"
  shows "wired (conn_stream sample_conn1) sample_conn [5] (handle_connection (sample_host resp req) cid cfg ca)"
proof -
  have frame: "frame [5] = [0, 0, 0, 1, 5]" by (simp add: frame_def to_be_bytes_def)
  have "outp (handle_connection (sample_host resp req) cid cfg ca sample_conn) = frame [5]"
    by (rule served_reply [where aenv = "sample_agent_env resp" and req = req and p = "[5]" and resp = resp])
      (simp_all add: assms sample_host_reply frame sample_conn_def sample_stream_def)
  then show ?thesis
    by (simp add: wired_def frame) (simp add: sample_conn1_def accepts_def sample_conn_def sample_stream_def frame)
qed

theorem agent_server_exchange_witness:
  "\<exists>s2. exchange (sample_agent_env sample_cert_ok) ''sending'' ''receiving'' sample_cert_request sample_conn1 sample_os1
     = (drop_conn sample_conn1 s2 sample_os1, Inr sample_cert_ok)"
  by (rule agent_server_exchange [OF _ _ _ _ _ sample_wired [OF sample_server_reply], where q = "[5]"])
    (simp_all add: sample_host_reply sample_server_reply frame_def)

text \<open>
  C8: The boot-time handshake end to end: an agent whose dialling succeeds and whose machine is
  registered with the peer identifier the server sees starts with exactly the workloads of its
  own entry, each with the parsed selector and the lifetime in seconds that the server computes.
\<close>
theorem handshake_end_to_end:
  assumes "ser_total (ser_response senv)"
    and "handshake_round aenv config w = (w1, Done (Inr c))"
    and "carries (ser_request aenv) (de_request senv) (Handshake PROTOCOL_VERSION (agent_vm_name config)) p"
    and "map_of (vms cfg) (agent_vm_name config) = Some entry" "vm_cid entry = cid" "hm_wf (identities entry)"
    and "build_workloads (overflow_checks senv) (identities entry) [] = Inr (Inr ws)"
    and "carries (ser_response senv) (de_response aenv) (HandshakeOk ws) q" "length (frame q) \<le> room s"
    and "wired (conn_stream c) s p (handle_connection senv cid cfg ca)"
  shows "(\<exists>w2. perform_handshake aenv config w = (w2, Inr ws))
    \<and> (\<forall>name. map_of ws name = Option.bind (map_of (identities entry) name) workload_of)"
proof -
  let ?req = "Handshake PROTOCOL_VERSION (agent_vm_name config)"
  from assms(4,5,7) have reply: "server_reply senv cfg ca cid ?req = Inr (HandshakeOk ws)"
    by (simp add: server_reply_def handshake_reply_def)
  from served_exchange [OF assms(1,3) reply assms(8-10)]
  obtain s2 where ex: "exchange aenv ''sending handshake request'' ''receiving handshake response'' ?req c w1
    = (drop_conn c s2 w1, Inr (HandshakeOk ws))" by blast
  have "retry 15 500 (handshake_round aenv config) 0 w = (w1, Inr c)"
    by (subst retry.simps) (simp add: assms(2))
  with ex have "perform_handshake aenv config w = (drop_conn c s2 w1, Inr ws)"
    by (simp add: perform_handshake_def io_bind_def io_ok_def)
  with build_workloads_map_of [OF assms(7) assms(6)] show ?thesis by auto
qed

theorem handshake_end_to_end_witness:
  "\<exists>w2. perform_handshake (sample_agent_env (HandshakeOk sample_workloads)) sample_agent_config sample_os
     = (w2, Inr sample_workloads)"
proof -
  let ?host = "sample_host (HandshakeOk sample_workloads) (Handshake 1 ''vm'')"
  obtain entry where entry: "map_of (vms sample_web_config) ''vm'' = Some entry" "vm_cid entry = 3"
      "hm_wf (identities entry)" "identities entry = [(''web'', \<lparr>pol_selector = [], ttl_minutes = 10\<rparr>)]"
    by (simp add: sample_web_config_def hm_wf_def)
  have "agent_vm_name sample_agent_config = ''vm''" by (simp add: sample_agent_config_def)
  moreover have "build_workloads (overflow_checks ?host) (identities entry) [] = Inr (Inr sample_workloads)"
    using sample_web_reply entry
    by (auto simp: server_reply_def handshake_reply_def PROTOCOL_VERSION_def rbind_def split: sum.splits)
  ultimately show ?thesis
    using handshake_end_to_end [OF _ sample_handshake_round _ _ entry(2,3) _ _ _ sample_wired [OF sample_web_reply],
        where q = "[5]"] entry(1)
    by (simp add: PROTOCOL_VERSION_def frame_def)
qed

section \<open>A workload and the agent over one connection\<close>

text \<open>The bytes \<open>p\<close> carry \<open>m\<close> as a line: without a newline of their own, and in UTF-8.\<close>

definition line_carries :: "('m \<Rightarrow> u8 list result) \<Rightarrow> (u8 list \<Rightarrow> 'm result) \<Rightarrow> 'm \<Rightarrow> u8 list \<Rightarrow> bool" where
  "line_carries ser de m p \<longleftrightarrow> ser m = Inr p \<and> de (p @ [newline]) = Inr m \<and> newline \<notin> set p
     \<and> utf8_ok (p @ [newline])"

text \<open>
  C7: A workload gets what it is entitled to: when a client and the agent's handler are the two
  ends of a local connection, the process behind the client is attested as \<open>name\<close>, and the
  handler can write its answer, the client's fetch yields exactly the credentials that the agent
  has for \<open>name\<close>.
\<close>
theorem client_gets_own_credentials:
  assumes "line_carries (ser_fetch cenv) (de_workload api) \<lparr>req_type = ''fetch''\<rparr> p"
    and "accepts (io_stream uc) (p @ [newline])"
    and "peer_cred api = Inr (uid, gid, opt_pid)"
    and "match_workload (api_accounts api) (workloads (snd w)) (peer_process api uid gid opt_pid) = Some name"
    and "get_or_fetch_credentials env pki (tick_seed t) (tick_now t) (tick_later t) config name w = (w', Inr creds)"
    and "line_carries (ser_workload api) (de_reply cenv)
          (Success (cred_cert_pem creds) (cred_key_pem creds) (cred_ca_cert_pem creds)) q"
    and "inp (io_stream ua) = p @ [newline]" and "outp (io_stream ua) = []"
    and "accepts (io_stream ua) (q @ [newline])"
    and "inp (io_stream uc) = outp (io_stream (snd (fst (handle_workload_conn api env pki config t (w, ua)))))"
  shows "\<exists>uc'. converse cenv uc = (uc', Inr creds)"
proof -
  let ?ua = "ua\<lparr>io_stream := (io_stream ua)\<lparr>inp := []\<rparr>\<rparr>"
  let ?answer = "Success (cred_cert_pem creds) (cred_key_pem creds) (cred_ca_cert_pem creds)"
  have read: "read_line ua = (?ua, Inr (p @ [newline]))"
    using read_line_first [of ua p "[]"] assms(1,7) by (simp add: line_carries_def)
  have de: "de_workload api (p @ [newline]) = Inr \<lparr>req_type = ''fetch''\<rparr>" "ser_fetch cenv \<lparr>req_type = ''fetch''\<rparr> = Inr p"
    using assms(1) by (simp_all add: line_carries_def)
  have "accepts (io_stream ?ua) (q @ [newline])" using assms(9) by (simp add: accepts_def)
  from write_line_accepts [OF this] obtain s1 where "write_line q ?ua = (?ua\<lparr>io_stream := s1\<rparr>, Inr ())" by blast
  moreover from write_line_Inr [OF this] have "outp s1 = q @ [newline]" using assms(8) by simp
  moreover have "ser_workload api ?answer = Inr q" using assms(6) by (simp add: line_carries_def)
  ultimately have "respond api ?answer (w', ?ua) = ((w', ?ua\<lparr>io_stream := s1\<rparr>), Inr ())"
    by (simp add: respond_def io_bind_def io_lift_def on_uds_def)
  then have "handle_workload_conn api env pki config t (w, ua) = ((w', ?ua\<lparr>io_stream := s1\<rparr>), Inr ())"
    using assms(3,4,5) read de(1)
    by (simp add: handle_workload_conn_eq handle_attested_def io_bind_def on_uds_def io_lift_def on_world_def)
  with assms(10) \<open>outp s1 = q @ [newline]\<close> have inp: "inp (io_stream uc) = q @ [newline]" by simp
  from write_line_accepts [OF assms(2)] obtain s2 where
    sent: "write_line p uc = (uc\<lparr>io_stream := s2\<rparr>, Inr ())" and "inp s2 = q @ [newline]"
    using inp by auto
  then have "read_line (uc\<lparr>io_stream := s2\<rparr>) = (uc\<lparr>io_stream := s2\<lparr>inp := []\<rparr>\<rparr>, Inr (q @ [newline]))"
    using read_line_first [of "uc\<lparr>io_stream := s2\<rparr>" q "[]"] assms(6) by (simp add: line_carries_def)
  moreover have "de_reply cenv (q @ [newline]) = Inr ?answer" using assms(6) by (simp add: line_carries_def)
  ultimately show ?thesis unfolding converse_Inr using de(2) sent by blast
qed

theorem client_gets_own_credentials_witness:
  "\<exists>uc'. converse \<lparr>ser_fetch = (\<lambda>_. Inr [123]), de_reply = (\<lambda>_. Inr success_new)\<rparr>
     (sample_uds\<lparr>io_stream := sample_stream\<lparr>inp := [1, 10]\<rparr>\<rparr>) = (uc', Inr sample_new)"
proof -
  obtain u' where h: "handle_workload_conn (sample_api success_new) sample_cert_env cached_pki sample_agent_config sample_tick
      (cached_world, sample_uds) = ((cached_world, u'), Inr ())"
    and o: "outp (io_stream u') = [1, 10]"
    using sample_handled_conn [of sample_cert_env sample_agent_config]
    by (auto simp: sample_uds_def sample_stream_def newline_def)
  have fetch: "get_or_fetch_credentials sample_cert_env cached_pki (tick_seed sample_tick) (tick_now sample_tick)
      (tick_later sample_tick) sample_agent_config ''a'' cached_world = (cached_world, Inr sample_new)"
    using sample_cached_fetch by (simp add: sample_tick_def)
  have cred: "peer_cred (sample_api success_new) = Inr (1000, 100, Some 7)" by (simp add: sample_api_def)
  have match: "match_workload (api_accounts (sample_api success_new)) (workloads (snd cached_world))
      (peer_process (sample_api success_new) 1000 100 (Some 7)) = Some ''a''"
    using sample_match by (simp add: sample_api_def cached_world_def alice_world_def)
  have answered: "inp (io_stream (sample_uds\<lparr>io_stream := sample_stream\<lparr>inp := [1, 10]\<rparr>\<rparr>))
      = outp (io_stream (snd (fst (handle_workload_conn (sample_api success_new) sample_cert_env cached_pki
          sample_agent_config sample_tick (cached_world, sample_uds)))))"
    by (simp add: h o)
  show ?thesis
    by (rule client_gets_own_credentials [OF _ _ cred match fetch _ _ _ _ answered,
          where p = "[123]" and q = "[1]"])
      (simp_all add: line_carries_def sample_uds_def sample_stream_def accepts_def newline_def
        sample_api_def success_new_def sample_new_def)
qed

end
